(* ===== verification/Prelude.thy ===== *)
theory Prelude
  imports Main "HOL-Library.Finite_Map" "HOL-Library.Word"
begin

text \<open>
  The vocabulary every component shares: the outcome of a Go computation that may panic, the
  error values the plugin hands around, the numeric codes of the DNS wire format that the
  plugin compares against, and the generic facts on lists and finite maps that the component
  proofs use.

  A Go function that cannot panic is an ordinary function; one that can returns \<open>'a go\<close>.
  A Go \<open>error\<close> is a \<open>go_err option\<close> (\<open>None\<close> is \<open>nil\<close>).  A Go map is a finite map, a slice a
  list, a string a list of bytes.
\<close>

section \<open>Automation collections\<close>

named_theorems go_simps \<open>evaluation of the Go outcome combinators\<close>
named_theorems registry_simps \<open>lookup laws of the chaos registry\<close>
named_theorems frame_simps \<open>fields an operation leaves alone\<close>

section \<open>Go outcomes\<close>

text \<open>Why a goroutine panics; the runtime's own messages are not modelled.\<close>

datatype go_panic =
    IndexOutOfRange
  | SliceOutOfRange
  | NilDereference
  | FailedTypeAssertion
  | CloseOfClosedChannel

datatype 'a go = Ret (the_ret: 'a) | Panic go_panic

definition go_bind :: "'a go \<Rightarrow> ('a \<Rightarrow> 'b go) \<Rightarrow> 'b go" where
  "go_bind m f = (case m of Ret x \<Rightarrow> f x | Panic p \<Rightarrow> Panic p)"

lemma go_bind_Ret [simp, go_simps]: "go_bind (Ret x) f = f x"
  by (simp add: go_bind_def)

lemma go_bind_Panic [simp, go_simps]: "go_bind (Panic p) f = Panic p"
  by (simp add: go_bind_def)

lemma go_bind_eq_Ret: "go_bind m f = Ret y \<longleftrightarrow> (\<exists>x. m = Ret x \<and> f x = Ret y)"
  by (cases m) auto

lemma go_bind_eq_Panic:
  "go_bind m f = Panic p \<longleftrightarrow> m = Panic p \<or> (\<exists>x. m = Ret x \<and> f x = Panic p)"
  by (cases m) auto

lemma go_bind_assoc: "go_bind (go_bind m f) g = go_bind m (\<lambda>x. go_bind (f x) g)"
  by (cases m) auto

lemma go_bind_cong [fundef_cong]:
  "m = m' \<Longrightarrow> (\<And>x. m' = Ret x \<Longrightarrow> f x = f' x) \<Longrightarrow> go_bind m f = go_bind m' f'"
  by (cases m') auto

definition panics :: "'a go \<Rightarrow> bool" where
  "panics m = (case m of Ret _ \<Rightarrow> False | Panic _ \<Rightarrow> True)"

lemma panics_simps [simp]: "panics (Ret x) = False" "panics (Panic p) = True"
  by (simp_all add: panics_def)

lemma not_panics_iff: "\<not> panics m \<longleftrightarrow> (\<exists>x. m = Ret x)"
  by (cases m) auto

section \<open>Error values\<close>

text \<open>
  The three sentinel errors of \<open>kubernetes.go\<close> are compared by identity, so they are distinct
  constructors; any other error carries its message.
\<close>

datatype go_err =
    errNoItems
  | errNsNotExposed
  | errInvalidRequest
  | OtherErr string

section \<open>Codes of the DNS wire format\<close>

type_synonym uint16 = "16 word"
type_synonym uint32 = "32 word"
type_synonym byte = "8 word"

text \<open>Record types and response codes (RFC 1035, RFC 3596, RFC 2782) the plugin names.\<close>

abbreviation (input) TypeA :: uint16 where "TypeA \<equiv> 1"
abbreviation (input) TypeNS :: uint16 where "TypeNS \<equiv> 2"
abbreviation (input) TypeCNAME :: uint16 where "TypeCNAME \<equiv> 5"
abbreviation (input) TypeSOA :: uint16 where "TypeSOA \<equiv> 6"
abbreviation (input) TypePTR :: uint16 where "TypePTR \<equiv> 12"
abbreviation (input) TypeMX :: uint16 where "TypeMX \<equiv> 15"
abbreviation (input) TypeTXT :: uint16 where "TypeTXT \<equiv> 16"
abbreviation (input) TypeAAAA :: uint16 where "TypeAAAA \<equiv> 28"
abbreviation (input) TypeSRV :: uint16 where "TypeSRV \<equiv> 33"
abbreviation (input) TypeIXFR :: uint16 where "TypeIXFR \<equiv> 251"
abbreviation (input) TypeAXFR :: uint16 where "TypeAXFR \<equiv> 252"
abbreviation (input) ClassINET :: uint16 where "ClassINET \<equiv> 1"

abbreviation (input) RcodeSuccess :: int where "RcodeSuccess \<equiv> 0"
abbreviation (input) RcodeServerFailure :: int where "RcodeServerFailure \<equiv> 2"
abbreviation (input) RcodeNameError :: int where "RcodeNameError \<equiv> 3"
abbreviation (input) RcodeRefused :: int where "RcodeRefused \<equiv> 5"

section \<open>Times\<close>

text \<open>The zero \<open>time.Time\<close>, midnight of January 1 of the year 1, in nanoseconds from 1970.\<close>

definition zero_time :: int where
  "zero_time = - 62135596800000000000"

section \<open>Shared contracts\<close>

text \<open>
  A component that keeps state and handles events: when every event keeps an invariant, so does
  every run.
\<close>

locale invariant_machine =
  fixes step :: "'e \<Rightarrow> 's \<Rightarrow> 's"
    and inv :: "'s \<Rightarrow> bool"
  assumes step_keeps: "inv s \<Longrightarrow> inv (step e s)"
begin

lemma run_keeps: "inv s \<Longrightarrow> inv (fold step es s)"
  by (induction es arbitrary: s) (auto intro: step_keeps)

lemma prefix_keeps: "inv s \<Longrightarrow> inv (fold step (take n es) s)"
  by (rule run_keeps)

end

text \<open>An equivalence, and that comparing lists element by element is one too.\<close>

locale equivalence =
  fixes eq :: "'a \<Rightarrow> 'a \<Rightarrow> bool"
  assumes eq_refl: "eq a a"
    and eq_sym: "eq a b \<Longrightarrow> eq b a"
    and eq_trans: "eq a b \<Longrightarrow> eq b c \<Longrightarrow> eq a c"
begin

lemma lists_refl: "list_all2 eq xs xs"
  by (simp add: list_all2_refl eq_refl)

lemma lists_sym: "list_all2 eq xs ys \<Longrightarrow> list_all2 eq ys xs"
  by (simp add: list_all2_conv_all_nth eq_sym)

lemma lists_trans: "list_all2 eq xs ys \<Longrightarrow> list_all2 eq ys zs \<Longrightarrow> list_all2 eq xs zs"
  by (rule list_all2_trans [OF eq_trans])

end

text \<open>
  A table: lookups after an insertion and after a deletion.  What a client that deletes or inserts
  many keys may rely on follows once and for all.
\<close>

locale table =
  fixes lookup :: "'t \<Rightarrow> 'k \<Rightarrow> 'v option"
    and put :: "'k \<Rightarrow> 'v \<Rightarrow> 't \<Rightarrow> 't"
    and del :: "'k \<Rightarrow> 't \<Rightarrow> 't"
  assumes lookup_put: "lookup (put k v t) k' = (if k' = k then Some v else lookup t k')"
    and lookup_del: "lookup (del k t) k' = (if k' = k then None else lookup t k')"
begin

lemma lookup_dels: "lookup (fold del ks t) k = (if k \<in> set ks then None else lookup t k)"
  by (induction ks arbitrary: t) (auto simp: lookup_del)

lemma lookup_puts:
  "k \<notin> fst ` set kvs \<Longrightarrow> lookup (fold (\<lambda>(k, v). put k v) kvs t) k = lookup t k"
  by (induction kvs arbitrary: t) (auto simp: lookup_put)

lemma lookup_del_put: "lookup (del k (put k v t)) = lookup (del k t)"
  by (auto simp: lookup_put lookup_del)

end

section \<open>Generic facts\<close>

lemma fmlookup_fmdrop_None [simp]: "fmlookup (fmdrop k m) k = None"
  by simp

lemma fmap_empty_iff: "m = fmempty \<longleftrightarrow> (\<forall>k. fmlookup m k = None)"
  by (metis fmap_ext fmempty_lookup)

lemma fmdrop_absent: "fmlookup m k = None \<Longrightarrow> fmdrop k m = m"
  by (rule fmap_ext) auto

lemma fmdrop_fmupd_undo: "fmlookup m k = None \<Longrightarrow> fmdrop k (fmupd k v m) = m"
  by (rule fmap_ext) auto

lemma set_map_filter: "set (List.map_filter f xs) = {y. \<exists>x \<in> set xs. f x = Some y}"
  by (induction xs) (auto split: option.splits)

end
