(* ===== verification/GoLib.thy ===== *)
theory GoLib
  imports Prelude
begin

text \<open>
  What the plugin uses of the Go standard library: package \<open>strings\<close> on byte strings,
  \<open>strconv.Atoi\<close>, and the address type of package \<open>net\<close> with its parser and printer.

  DNS names arrive in presentation format, where every byte outside printable ASCII is escaped,
  and Kubernetes object names are ASCII; the case operations below are therefore the ASCII ones.
\<close>

section \<open>Package strings\<close>

definition byte_of :: "char \<Rightarrow> nat" where
  "byte_of c = of_char c"

definition lower_byte :: "char \<Rightarrow> char" where
  "lower_byte c = (if 65 \<le> byte_of c \<and> byte_of c \<le> 90 then char_of (byte_of c + 32) else c)"

definition ToLower :: "string \<Rightarrow> string" where
  "ToLower s = map lower_byte s"

definition EqualFold :: "string \<Rightarrow> string \<Rightarrow> bool" where
  "EqualFold a b = (ToLower a = ToLower b)"

fun HasPrefix :: "string \<Rightarrow> string \<Rightarrow> bool" where
  "HasPrefix s [] = True"
| "HasPrefix [] (p # ps) = False"
| "HasPrefix (c # s) (p # ps) = (c = p \<and> HasPrefix s ps)"

text \<open>The first index at which a substring starts, \<open>None\<close> for Go's \<open>-1\<close>.\<close>

fun Index :: "string \<Rightarrow> string \<Rightarrow> nat option" where
  "Index [] sub = (if sub = [] then Some 0 else None)"
| "Index (c # s) sub =
     (if HasPrefix (c # s) sub then Some 0 else map_option Suc (Index s sub))"

definition Contains :: "string \<Rightarrow> string \<Rightarrow> bool" where
  "Contains s sub = (Index s sub \<noteq> None)"

text \<open>\<open>Count\<close> and \<open>Replace\<close> with limit \<open>-1\<close>, for one-byte patterns, the only ones used.\<close>

definition CountByte :: "string \<Rightarrow> char \<Rightarrow> nat" where
  "CountByte s c = count_list s c"

definition ReplaceByte :: "string \<Rightarrow> char \<Rightarrow> char \<Rightarrow> string" where
  "ReplaceByte s old new = map (\<lambda>c. if c = old then new else c) s"

fun Join :: "string list \<Rightarrow> string \<Rightarrow> string" where
  "Join [] sep = []"
| "Join [x] sep = x"
| "Join (x # y # xs) sep = x @ sep @ Join (y # xs) sep"

text \<open>\<open>SplitN(s, c, 2)\<close> for a one-byte separator: cut at its first occurrence.\<close>

definition SplitN2 :: "string \<Rightarrow> char \<Rightarrow> string list" where
  "SplitN2 s c =
     (if c \<in> set s then [takeWhile (\<lambda>x. x \<noteq> c) s, tl (dropWhile (\<lambda>x. x \<noteq> c) s)] else [s])"

lemma EqualFold_refl [simp]: "EqualFold a a"
  by (simp add: EqualFold_def)

lemma EqualFold_sym: "EqualFold a b \<longleftrightarrow> EqualFold b a"
  by (auto simp: EqualFold_def)

lemma EqualFold_trans: "EqualFold a b \<Longrightarrow> EqualFold b c \<Longrightarrow> EqualFold a c"
  by (simp add: EqualFold_def)

lemma HasPrefix_iff: "HasPrefix s p \<longleftrightarrow> (\<exists>t. s = p @ t)"
  by (induction s p rule: HasPrefix.induct) auto

lemma Index_None_iff: "Index s sub = None \<longleftrightarrow> (\<nexists>u v. s = u @ sub @ v)"
proof (induction s sub rule: Index.induct)
  case (2 c s sub)
  have "(\<exists>u v. c # s = u @ sub @ v) \<longleftrightarrow> HasPrefix (c # s) sub \<or> (\<exists>u v. s = u @ sub @ v)"
    by (auto simp: HasPrefix_iff Cons_eq_append_conv)
  with 2 show ?case by auto
qed auto

lemma Contains_iff: "Contains s sub \<longleftrightarrow> (\<exists>u v. s = u @ sub @ v)"
  using Index_None_iff [of s sub] by (auto simp: Contains_def)

lemma Contains_single: "Contains s [c] \<longleftrightarrow> c \<in> set s"
  by (auto simp: Contains_iff in_set_conv_decomp)

lemma set_ReplaceByte:
  "set (ReplaceByte s old new) = (\<lambda>c. if c = old then new else c) ` set s"
  by (simp add: ReplaceByte_def)

lemma ReplaceByte_undo: "new \<notin> set s \<Longrightarrow> ReplaceByte (ReplaceByte s old new) new old = s"
  by (induction s) (auto simp: ReplaceByte_def)

lemma count_ReplaceByte:
  "new \<notin> set s \<Longrightarrow> CountByte (ReplaceByte s old new) new = CountByte s old"
  by (induction s) (auto simp: ReplaceByte_def CountByte_def)

lemma SplitN2_Join:
  "c \<notin> set a \<Longrightarrow> SplitN2 (Join [a, b] [c]) c = [a, b]"
  by (auto simp: SplitN2_def takeWhile_append dropWhile_append)

section \<open>Slices\<close>

text \<open>
  The builtin \<open>copy(dst, src)\<close> overwrites a prefix of \<open>dst\<close> and returns how many elements it
  wrote.  \<open>range_fill f dst xs\<close> is the loop \<open>for i, x := range xs { dst[i] = f(x) }\<close>.
\<close>

definition go_copy :: "'a list \<Rightarrow> 'a list \<Rightarrow> 'a list \<times> nat" where
  "go_copy dst src =
     (let n = min (length dst) (length src) in (take n src @ drop n dst, n))"

fun range_fill_from :: "nat \<Rightarrow> ('a \<Rightarrow> 'b) \<Rightarrow> 'b list \<Rightarrow> 'a list \<Rightarrow> 'b list" where
  "range_fill_from i f dst [] = dst"
| "range_fill_from i f dst (x # xs) = range_fill_from (Suc i) f (dst[i := f x]) xs"

abbreviation range_fill :: "('a \<Rightarrow> 'b) \<Rightarrow> 'b list \<Rightarrow> 'a list \<Rightarrow> 'b list" where
  "range_fill \<equiv> range_fill_from 0"

lemma range_fill_from_eq:
  "i + length xs = length dst \<Longrightarrow> range_fill_from i f dst xs = take i dst @ map f xs"
proof (induction i f dst xs rule: range_fill_from.induct)
  case (2 i f dst x xs)
  then have "i < length dst" by simp
  with 2 show ?case by (simp add: take_Suc_conv_app_nth)
qed simp

lemma range_fill_make [simp]: "range_fill f (replicate (length xs) z) xs = map f xs"
  by (simp add: range_fill_from_eq)

lemma go_copy_make [simp]: "go_copy (replicate (length xs) z) xs = (xs, length xs)"
  by (simp add: go_copy_def)

section \<open>Decimal numbers\<close>

definition is_digit :: "char \<Rightarrow> bool" where
  "is_digit c = (48 \<le> byte_of c \<and> byte_of c \<le> 57)"

definition digit_val :: "char \<Rightarrow> nat" where
  "digit_val c = byte_of c - 48"

fun dec_val :: "nat \<Rightarrow> string \<Rightarrow> nat option" where
  "dec_val acc [] = Some acc"
| "dec_val acc (c # s) = (if is_digit c then dec_val (acc * 10 + digit_val c) s else None)"

text \<open>
  \<open>strconv.Atoi\<close> on a 64-bit platform: an optional sign, at least one digit, only digits, and a
  value in the range of \<open>int64\<close>; \<open>None\<close> is a non-nil error.
\<close>

definition Atoi :: "string \<Rightarrow> int option" where
  "Atoi s =
     (let (neg, ds) = (case s of [] \<Rightarrow> (False, [])
                        | c # r \<Rightarrow> if c = CHR ''-'' then (True, r)
                                   else if c = CHR ''+'' then (False, r) else (False, s))
      in if ds = [] then None
         else case dec_val 0 ds of
                None \<Rightarrow> None
              | Some v \<Rightarrow>
                  let i = (if neg then - int v else int v)
                  in if - (2 ^ 63) \<le> i \<and> i < 2 ^ 63 then Some i else None)"

fun dec_digits :: "nat \<Rightarrow> string" where
  "dec_digits n =
     (if n < 10 then [char_of (48 + n)] else dec_digits (n div 10) @ [char_of (48 + n mod 10)])"

declare dec_digits.simps [simp del]

section \<open>Package net: addresses\<close>

text \<open>
  A \<open>net.IP\<close> is a byte slice; \<open>nil\<close> is the empty list.  \<open>To4\<close> returns the four bytes of an IPv4
  address in either representation, \<open>nil\<close> for anything else.
\<close>

type_synonym IP = "byte list"

definition v4InV6Prefix :: "byte list" where
  "v4InV6Prefix = [0, 0, 0, 0, 0, 0, 0, 0, 0, 0, 255, 255]"

definition IPv4 :: "byte \<Rightarrow> byte \<Rightarrow> byte \<Rightarrow> byte \<Rightarrow> IP" where
  "IPv4 a b c d = v4InV6Prefix @ [a, b, c, d]"

definition To4 :: "IP \<Rightarrow> IP" where
  "To4 ip =
     (if length ip = 4 then ip
      else if length ip = 16 \<and> take 12 ip = v4InV6Prefix then drop 12 ip
      else [])"

definition To16 :: "IP \<Rightarrow> IP" where
  "To16 ip =
     (if length ip = 4 then v4InV6Prefix @ ip else if length ip = 16 then ip else [])"

text \<open>
  \<open>parseIPv4Fields\<close>: the scan over dotted decimal fields, with the value and the number of
  digits of the current field and the fields already closed.  A field has no leading zero, at
  least one digit and a value below 256; there are exactly four.
\<close>

fun parse_v4_fields :: "nat \<Rightarrow> nat \<Rightarrow> byte list \<Rightarrow> string \<Rightarrow> byte list option" where
  "parse_v4_fields val digLen fields [] =
     (if length fields < 3 \<or> digLen = 0 then None else Some (fields @ [of_nat val]))"
| "parse_v4_fields val digLen fields (c # s) =
     (if is_digit c then
        if digLen = 1 \<and> val = 0 then None
        else if val * 10 + digit_val c > 255 then None
        else parse_v4_fields (val * 10 + digit_val c) (Suc digLen) fields s
      else if c = CHR ''.'' then
        if digLen = 0 \<or> length fields = 3 then None
        else parse_v4_fields 0 0 (fields @ [of_nat val]) s
      else None)"

definition hex_val :: "char \<Rightarrow> nat option" where
  "hex_val c =
     (let b = byte_of c in
      if 48 \<le> b \<and> b \<le> 57 then Some (b - 48)
      else if 97 \<le> b \<and> b \<le> 102 then Some (b - 97 + 10)
      else if 65 \<le> b \<and> b \<le> 70 then Some (b - 65 + 10)
      else None)"

text \<open>
  The hex digits at the head of a string: their value, how many there are, and the rest; more
  than four digits are an error.
\<close>

fun scan_hex :: "nat \<Rightarrow> nat \<Rightarrow> string \<Rightarrow> (nat \<times> nat \<times> string) option" where
  "scan_hex acc off [] = Some (acc, off, [])"
| "scan_hex acc off (c # s) =
     (case hex_val c of
        None \<Rightarrow> Some (acc, off, c # s)
      | Some v \<Rightarrow> if off > 3 then None else scan_hex (acc * 16 + v) (Suc off) s)"

lemma scan_hex_le: "scan_hex acc off s = Some (a, n, r) \<Longrightarrow> length r + n = length s + off"
  by (induction acc off s rule: scan_hex.induct) (auto split: option.splits if_splits)

text \<open>
  The loop of \<open>parseIPv6\<close>: \<open>ip\<close> holds the bytes parsed so far, \<open>ellipsis\<close> the position of a
  double colon.  The result is the final bytes and ellipsis position, \<open>None\<close> an error; the checks
  after the loop are in \<open>parse_v6\<close>.
\<close>

function parse_v6_loop :: "byte list \<Rightarrow> nat option \<Rightarrow> string \<Rightarrow> (byte list \<times> nat option) option"
where
  "parse_v6_loop ip ellipsis s =
     (if length ip \<ge> 16 then (if s = [] then Some (ip, ellipsis) else None)
      else case scan_hex 0 0 s of
        None \<Rightarrow> None
      | Some (acc, off, r) \<Rightarrow>
          if off = 0 then None
          else if r \<noteq> [] \<and> hd r = CHR ''.'' then
            (if ellipsis = None \<and> length ip \<noteq> 12 then None
             else if length ip + 4 > 16 then None
             else case parse_v4_fields 0 0 [] s of
                    None \<Rightarrow> None
                  | Some fs \<Rightarrow> Some (ip @ fs, ellipsis))
          else
            (let ip' = ip @ [of_nat (acc div 256), of_nat (acc mod 256)] in
             if r = [] then Some (ip', ellipsis)
             else if hd r \<noteq> CHR '':'' then None
             else if tl r = [] then None
             else if hd (tl r) = CHR '':'' then
               (if ellipsis \<noteq> None then None
                else if tl (tl r) = [] then Some (ip', Some (length ip'))
                else parse_v6_loop ip' (Some (length ip')) (tl (tl r)))
             else parse_v6_loop ip' ellipsis (tl r)))"
  by pat_completeness auto
termination
  by (relation "measure (\<lambda>(ip, ellipsis, s). length s)") (auto dest!: scan_hex_le)

declare parse_v6_loop.simps [simp del]

definition parse_v6 :: "string \<Rightarrow> IP option" where
  "parse_v6 s =
     (if CHR ''%'' \<in> set s then None
      else if s = ''::'' then Some (replicate 16 0)
      else case (if HasPrefix s ''::'' then parse_v6_loop [] (Some 0) (drop 2 s)
                 else parse_v6_loop [] None s) of
        None \<Rightarrow> None
      | Some (ip, ellipsis) \<Rightarrow>
          if length ip < 16 then
            (case ellipsis of
               None \<Rightarrow> None
             | Some e \<Rightarrow> Some (take e ip @ replicate (16 - length ip) 0 @ drop e ip))
          else if ellipsis \<noteq> None then None
          else Some ip)"

text \<open>
  \<open>net.ParseIP\<close>: the first of the three delimiters decides which parser runs; an address with a
  zone is refused.  The result is the 16-byte form, \<open>None\<close> for \<open>nil\<close>.
\<close>

definition ParseIP :: "string \<Rightarrow> IP option" where
  "ParseIP s =
     (case dropWhile (\<lambda>c. c \<notin> {CHR ''.'', CHR '':'', CHR ''%''}) s of
        [] \<Rightarrow> None
      | c # _ \<Rightarrow>
          if c = CHR ''.'' then map_option (\<lambda>fs. v4InV6Prefix @ fs) (parse_v4_fields 0 0 [] s)
          else if c = CHR '':'' then parse_v6 s
          else None)"

lemma parse_v4_fields_length:
  "parse_v4_fields val d fs s = Some r \<Longrightarrow> length fs \<le> 3 \<Longrightarrow> length r = 4"
  by (induction val d fs s rule: parse_v4_fields.induct) (auto split: if_splits)

lemma parse_v6_loop_length:
  "parse_v6_loop ip e s = Some (ip', e') \<Longrightarrow> length ip \<le> 16 \<Longrightarrow> even (length ip) \<Longrightarrow>
   length ip' \<le> 16"
proof (induction ip e s rule: parse_v6_loop.induct)
  case (1 ip e s)
  show ?case
  proof (cases "length ip \<ge> 16")
    case True
    with "1.prems" show ?thesis by (subst (asm) parse_v6_loop.simps) (auto split: if_splits)
  next
    case False
    with "1.prems"(3) have l: "length ip + 2 \<le> 16" by presburger
    from False "1.prems"(1) obtain acc off r where sc: "scan_hex 0 0 s = Some (acc, off, r)"
      by (subst (asm) parse_v6_loop.simps) (auto split: option.splits)
    note IH1 = "1.IH"(1) [OF False sc refl refl _ _ refl] and IH2 = "1.IH"(2) [OF False sc refl refl _ _ refl]
    from "1.prems"(1) False sc l "1.prems"(3) IH1 IH2 show ?thesis
      by (subst (asm) parse_v6_loop.simps [of ip e s])
        (auto simp: Let_def dest: parse_v4_fields_length split: if_splits option.splits)
  qed
qed

lemma ParseIP_length: "ParseIP s = Some ip \<Longrightarrow> length ip = 16"
  by (auto simp: ParseIP_def parse_v6_def v4InV6Prefix_def
        dest!: parse_v4_fields_length parse_v6_loop_length
        split: list.splits if_splits option.splits)

section \<open>The shape of address strings\<close>

lemma Contains_Cons: "Contains (c # s) sub \<longleftrightarrow> HasPrefix (c # s) sub \<or> Contains s sub"
  by (simp add: Contains_def)

lemma Contains_Nil: "Contains [] sub \<longleftrightarrow> sub = []"
  by (simp add: Contains_def)

lemma Contains_append: "Contains t sub \<Longrightarrow> Contains (s @ t) sub"
  by (auto simp: Contains_iff) (metis append.assoc)

lemma HasPrefix_one: "HasPrefix s [b] \<longleftrightarrow> s \<noteq> [] \<and> hd s = b"
  by (cases s) auto

lemma Contains_two_Replace:
  "new \<notin> set s \<Longrightarrow> Contains (ReplaceByte s old new) [new, new] \<longleftrightarrow> Contains s [old, old]"
proof (induction s)
  case (Cons c s)
  then have "Contains (ReplaceByte s old new) [new, new] \<longleftrightarrow> Contains s [old, old]" by simp
  moreover have "ReplaceByte (c # s) old new = (if c = old then new else c) # ReplaceByte s old new"
    by (simp add: ReplaceByte_def)
  ultimately show ?case using Cons.prems
    by (cases s) (auto simp: Contains_Cons HasPrefix_one ReplaceByte_def)
qed (simp add: ReplaceByte_def Contains_Nil)

lemma not_digit: "\<not> is_digit CHR ''-''" "\<not> is_digit CHR '':''" "\<not> is_digit CHR ''.''"
  by (simp_all add: is_digit_def byte_of_def)

lemma parse_v4_shape:
  "parse_v4_fields val d fs s = Some r \<Longrightarrow> length fs \<le> 3 \<Longrightarrow>
   CHR ''-'' \<notin> set s \<and> CHR '':'' \<notin> set s \<and> CountByte s CHR ''.'' = 3 - length fs \<and>
   (d = 0 \<longrightarrow> s \<noteq> [] \<and> hd s \<noteq> CHR ''.'') \<and> \<not> Contains s ''..''"
proof (induction val d fs s rule: parse_v4_fields.induct)
  case (1 val d fs)
  then show ?case by (auto simp: CountByte_def Contains_Nil split: if_splits)
next
  case (2 val d fs c s)
  show ?case
  proof (cases "is_digit c")
    case True
    with 2 not_digit show ?thesis
      by (auto simp: CountByte_def Contains_Cons HasPrefix_one split: if_splits)
  next
    case False
    with "2.prems" have "c = CHR ''.''" "d \<noteq> 0" "length fs < 3"
      "parse_v4_fields 0 0 (fs @ [of_nat val]) s = Some r"
      by (auto split: if_splits)
    with 2 False show ?thesis
      by (auto simp: CountByte_def Contains_Cons HasPrefix_one split: if_splits)
  qed
qed

lemma hex_val_None: "hex_val CHR ''-'' = None" "hex_val CHR '':'' = None" "hex_val CHR ''.'' = None"
  by (simp_all add: hex_val_def byte_of_def)

lemma scan_hex_shape:
  "scan_hex acc off s = Some (a, n, r) \<Longrightarrow>
   \<exists>h. s = h @ r \<and> CHR ''-'' \<notin> set h \<and> CHR '':'' \<notin> set h \<and> CHR ''.'' \<notin> set h"
proof (induction acc off s rule: scan_hex.induct)
  case (2 acc off c s)
  show ?case
  proof (cases "hex_val c")
    case None
    with "2.prems" show ?thesis by auto
  next
    case (Some v)
    with 2 obtain h where "s = h @ r" "CHR ''-'' \<notin> set h" "CHR '':'' \<notin> set h" "CHR ''.'' \<notin> set h"
      by (auto split: if_splits)
    with Some hex_val_None show ?thesis by (intro exI [of _ "c # h"]) auto
  qed
qed auto

lemma CountByte_append: "CountByte (s @ t) c = CountByte s c + CountByte t c"
  by (simp add: CountByte_def)

lemma CountByte_absent: "c \<notin> set s \<Longrightarrow> CountByte s c = 0"
  by (simp add: CountByte_def)

text \<open>
  The parser sees a double colon, or as many groups as there are colons and one more.
\<close>

lemma parse_v6_shape:
  "parse_v6_loop ip e s = Some (ip', e') \<Longrightarrow> s \<noteq> [] \<Longrightarrow> CHR ''.'' \<notin> set s \<Longrightarrow>
   CHR ''-'' \<notin> set s \<and>
   (e' = None \<longrightarrow> length ip' = length ip + 2 * Suc (CountByte s CHR '':'')) \<and>
   (e' \<noteq> None \<longrightarrow> e \<noteq> None \<or> Contains s ''::'') \<and> (e \<noteq> None \<longrightarrow> e' \<noteq> None)"
proof (induction ip e s rule: parse_v6_loop.induct)
  case (1 ip e s)
  from "1.prems"(1,2) have lt: "\<not> length ip \<ge> 16" by (subst (asm) parse_v6_loop.simps) (auto split: if_splits)
  with "1.prems"(1) obtain acc off r where sc: "scan_hex 0 0 s = Some (acc, off, r)"
    by (subst (asm) parse_v6_loop.simps) (auto split: option.splits)
  obtain h where h: "s = h @ r" "CHR ''-'' \<notin> set h" "CHR '':'' \<notin> set h" "CHR ''.'' \<notin> set h"
    using scan_hex_shape [OF sc] by blast
  let ?ip = "ip @ [of_nat (acc div 256), of_nat (acc mod 256)]"
  have nodot: "\<not> (r \<noteq> [] \<and> hd r = CHR ''.'')" using h(1) "1.prems"(3) by (cases r) auto
  have step: "parse_v6_loop ip e s =
      (if off = 0 then None else if r = [] then Some (?ip, e) else if hd r \<noteq> CHR '':'' then None
       else if tl r = [] then None
       else if hd (tl r) = CHR '':'' then
         (if e \<noteq> None then None else if tl (tl r) = [] then Some (?ip, Some (length ?ip))
          else parse_v6_loop ?ip (Some (length ?ip)) (tl (tl r)))
       else parse_v6_loop ?ip e (tl r))"
    using lt sc nodot by (subst parse_v6_loop.simps, cases "r = []") (simp_all add: Let_def)
  have off: "off \<noteq> 0" using "1.prems"(1) unfolding step by (auto split: if_splits)
  show ?case
  proof (cases "r = []")
    case True
    with "1.prems"(1) h off show ?thesis unfolding step
      by (auto simp: CountByte_absent)
  next
    case False
    then obtain r' where r: "r = CHR '':'' # r'" "r' \<noteq> []"
      using "1.prems"(1) off unfolding step by (cases r) (auto split: if_splits)
    have dotless: "CHR ''.'' \<notin> set r'" using "1.prems"(3) h(1) r by auto
    have count: "CountByte s CHR '':'' = Suc (CountByte r' CHR '':'')"
      using h(3) by (simp add: h(1) r(1) CountByte_def)
    show ?thesis
    proof (cases "hd r' = CHR '':''")
      case True
      then obtain r'' where r'': "r' = CHR '':'' # r''" using r(2) by (cases r') auto
      have dd: "Contains s ''::''"
        unfolding h(1) r r'' by (rule Contains_append) (simp add: Contains_Cons)
      show ?thesis
      proof (cases "r'' = []")
        case True
        with "1.prems"(1) off r r'' h show ?thesis
          unfolding step using dd by (auto split: if_splits)
      next
        case False
        note IH = "1.IH"(1) [OF lt sc refl refl off _ refl]
        have rec: "parse_v6_loop ?ip (Some (length ?ip)) r'' = Some (ip', e')"
          and "e = None"
          using "1.prems"(1) off r r'' False unfolding step by (auto split: if_splits)
        then have "CHR ''-'' \<notin> set r'' \<and> e' \<noteq> None"
          using IH r r'' False dotless by (auto split: if_splits)
        with h r r'' dd show ?thesis by auto
      qed
    next
      case False
      note IH = "1.IH"(2) [OF lt sc refl refl off _ refl]
      have rec: "parse_v6_loop ?ip e r' = Some (ip', e')"
        using "1.prems"(1) off r False unfolding step by (auto split: if_splits)
      have ih: "CHR ''-'' \<notin> set r' \<and> (e' = None \<longrightarrow> length ip' = length ?ip + 2 * Suc (CountByte r' CHR '':'')) \<and>
          (e' \<noteq> None \<longrightarrow> e \<noteq> None \<or> Contains r' ''::'') \<and> (e \<noteq> None \<longrightarrow> e' \<noteq> None)"
        using IH rec r False dotless by auto
      moreover have "Contains r' ''::'' \<Longrightarrow> Contains s ''::''"
        using Contains_append [of r' _ "h @ '':''"] by (simp add: h r)
      ultimately show ?thesis using h r count by auto
    qed
  qed
qed

lemma drop_two: "HasPrefix s ''::'' \<Longrightarrow> s = ''::'' @ drop 2 s"
  by (auto simp: HasPrefix_iff)

lemma parse_v6_string_shape:
  assumes "parse_v6 s = Some a" "CHR ''.'' \<notin> set s" "s \<noteq> []"
  shows "CHR ''-'' \<notin> set s \<and> (CountByte s CHR '':'' \<noteq> 3 \<or> Contains s ''::'')"
proof (cases "HasPrefix s ''::''")
  case True
  then have s: "s = ''::'' @ drop 2 s" by (rule drop_two)
  have "Contains s ''::''" using True by (cases s) (auto simp: Contains_Cons)
  moreover have "CHR ''-'' \<notin> set (drop 2 s)"
  proof (cases "drop 2 s = []")
    case False
    then have "s \<noteq> ''::''" by auto
    then obtain ip e where "parse_v6_loop [] (Some 0) (drop 2 s) = Some (ip, e)"
      using assms(1) True by (auto simp: parse_v6_def split: if_splits option.splits)
    moreover have "CHR ''.'' \<notin> set (drop 2 s)" using assms(2) by (auto dest: in_set_dropD)
    ultimately show ?thesis using parse_v6_shape [of "[]" "Some 0" "drop 2 s"] False by blast
  qed simp
  moreover have "set s = insert CHR '':'' (set (drop 2 s))" by (subst s) auto
  ultimately show ?thesis by auto
next
  case False
  then obtain ip e where loop: "parse_v6_loop [] None s = Some (ip, e)" and "e \<noteq> None \<or> length ip \<ge> 16"
    using assms(1) by (auto simp: parse_v6_def split: if_splits option.splits)
  with parse_v6_shape [OF loop assms(3,2)] show ?thesis by (cases e) auto
qed

text \<open>
  What the strings that parse look like: four dotted fields, or colons that are not three single
  ones.  (A string with both dots and colons is an IPv4-mapped IPv6 address.)
\<close>

lemma ParseIP_shape:
  assumes "ParseIP s = Some a" "\<not> (CHR ''.'' \<in> set s \<and> CHR '':'' \<in> set s)"
  shows "CHR ''-'' \<notin> set s \<and>
         (if CHR ''.'' \<in> set s then CountByte s CHR ''.'' = 3 \<and> \<not> Contains s ''..''
          else CHR '':'' \<in> set s \<and> (CountByte s CHR '':'' \<noteq> 3 \<or> Contains s ''::''))"
proof -
  let ?P = "\<lambda>c. c \<notin> {CHR ''.'', CHR '':'', CHR ''%''}"
  have "dropWhile ?P s \<noteq> []" using assms(1) unfolding ParseIP_def by (intro notI) (simp only: list.case option.distinct)
  then obtain c t where t: "dropWhile ?P s = c # t" by (meson neq_Nil_conv)
  have eq: "ParseIP s =
      (if c = CHR ''.'' then map_option (\<lambda>fs. v4InV6Prefix @ fs) (parse_v4_fields 0 0 [] s)
       else if c = CHR '':'' then parse_v6 s else None)"
    unfolding ParseIP_def t by (simp only: list.case)
  have c: "c \<in> set s" using set_dropWhileD [of c ?P s] unfolding t by simp
  show ?thesis
  proof (cases "c = CHR ''.''")
    case True
    then obtain r where "parse_v4_fields 0 0 [] s = Some r" using assms(1) unfolding eq by auto
    from parse_v4_shape [OF this] c True show ?thesis by simp
  next
    case False
    then have p: "c = CHR '':''" "parse_v6 s = Some a"
      using assms(1) unfolding eq by (auto split: if_splits)
    with c assms(2) have "CHR ''.'' \<notin> set s" "s \<noteq> []" by auto
    with p c show ?thesis using parse_v6_string_shape [of s a] by simp
  qed
qed

section \<open>Printing addresses\<close>

definition hex_digit :: "nat \<Rightarrow> char" where
  "hex_digit n = (if n < 10 then char_of (48 + n) else char_of (87 + n))"

fun hex_digits :: "nat \<Rightarrow> string" where
  "hex_digits n = (if n < 16 then [hex_digit n] else hex_digits (n div 16) @ [hex_digit (n mod 16)])"

declare hex_digits.simps [simp del]

fun v6_words :: "byte list \<Rightarrow> nat list" where
  "v6_words (a # b # bs) = (unat a * 256 + unat b) # v6_words bs"
| "v6_words _ = []"

text \<open>The first of the longest runs of at least two zero words, as its start and end.\<close>

fun zero_run :: "nat \<Rightarrow> nat \<Rightarrow> nat \<Rightarrow> nat list \<Rightarrow> nat \<times> nat" where
  "zero_run i e0 e1 [] = (e0, e1)"
| "zero_run i e0 e1 (w # ws) =
     (let l = length (takeWhile (\<lambda>v. v = 0) (w # ws)) in
      if l \<ge> 2 \<and> l > e1 - e0 then zero_run (Suc i) i (i + l) ws else zero_run (Suc i) e0 e1 ws)"

definition v6_String :: "nat list \<Rightarrow> string" where
  "v6_String ws =
     (let (e0, e1) = zero_run 0 0 0 ws in
      if e1 = e0 then Join (map hex_digits ws) '':''
      else Join (map hex_digits (take e0 ws)) '':'' @ ''::'' @ Join (map hex_digits (drop e1 ws)) '':'')"

text \<open>
  \<open>net.IP.String\<close>: a nil address, the dotted form of an IPv4 address in either representation,
  the compressed form of an IPv6 address, and the hexadecimal dump of a slice of another length.
\<close>

definition IP_String :: "IP \<Rightarrow> string" where
  "IP_String ip =
     (if ip = [] then ''<nil>''
      else if To4 ip \<noteq> [] then Join (map (\<lambda>b. dec_digits (unat b)) (To4 ip)) ''.''
      else if length ip = 16 then v6_String (v6_words ip)
      else ''?'' @ concat (map (\<lambda>b. [hex_digit (unat b div 16), hex_digit (unat b mod 16)]) ip))"

section \<open>Prefixes and loopback addresses\<close>

text \<open>
  \<open>net.ParseCIDR\<close>, without the network it also returns: an address and a prefix length after the
  first slash, decimal digits only and at most the bit length of the address family.
\<close>

definition ParseCIDR :: "string \<Rightarrow> IP option" where
  "ParseCIDR s =
     (case SplitN2 s CHR ''/'' of
        [addr, prefix] \<Rightarrow>
          (case ParseIP addr of
             None \<Rightarrow> None
           | Some ip \<Rightarrow>
               if prefix = [] then None
               else case dec_val 0 prefix of
                      None \<Rightarrow> None
                    | Some n \<Rightarrow>
                        if n > (if CHR '':'' \<in> set addr then 128 else 32) then None else Some ip)
      | _ \<Rightarrow> None)"

definition IPv6loopback :: IP where
  "IPv6loopback = replicate 15 0 @ [1]"

definition IsLoopback :: "IP \<Rightarrow> bool" where
  "IsLoopback ip = (if To4 ip \<noteq> [] then hd (To4 ip) = 127 else ip = IPv6loopback)"

lemma ParseCIDR_slash: "ParseCIDR s = Some ip \<Longrightarrow> CHR ''/'' \<in> set s"
  by (auto simp: ParseCIDR_def SplitN2_def split: if_splits)

lemma To4_cases: "To4 ip \<noteq> [] \<Longrightarrow> length (To4 ip) = 4"
  by (auto simp: To4_def split: if_splits)

lemma To4_To4: "To4 (To4 ip) = To4 ip"
  by (cases "To4 ip = []") (auto simp: To4_cases, auto simp: To4_def split: if_splits)

section \<open>Hosts and ports\<close>

fun rindex :: "nat \<Rightarrow> nat option \<Rightarrow> char \<Rightarrow> string \<Rightarrow> nat option" where
  "rindex i found c [] = found"
| "rindex i found c (d # s) = rindex (Suc i) (if d = c then Some i else found) c s"

text \<open>
  The host that \<open>net.SplitHostPort\<close> returns, \<open>None\<close> when it reports an error: the port follows the
  last colon; a host in brackets may contain colons, another one may not.
\<close>

definition SplitHostPort :: "string \<Rightarrow> string option" where
  "SplitHostPort hostport =
     (case rindex 0 None CHR '':'' hostport of
        None \<Rightarrow> None
      | Some i \<Rightarrow>
          if hd hostport = CHR ''['' then
            (case Index hostport '']'' of
               None \<Rightarrow> None
             | Some e \<Rightarrow>
                 if Suc e \<noteq> i then None
                 else if CHR ''['' \<in> set (drop 1 hostport) \<or> CHR '']'' \<in> set (drop (Suc e) hostport) then None
                 else Some (take (e - 1) (drop 1 hostport)))
          else
            let host = take i hostport in
            if CHR '':'' \<in> set host then None
            else if CHR ''['' \<in> set hostport \<or> CHR '']'' \<in> set hostport then None
            else Some host)"

lemma rindex_absent: "c \<notin> set s \<Longrightarrow> rindex i found c s = found"
  by (induction s arbitrary: i found) auto

lemma rindex_append: "rindex i found c (s @ t) = rindex (i + length s) (rindex i found c s) c t"
  by (induction s arbitrary: i found) auto

lemma SplitHostPort_join:
  assumes "h \<noteq> []" "CHR '':'' \<notin> set h" "CHR ''['' \<notin> set h" "CHR '']'' \<notin> set h"
    and "CHR '':'' \<notin> set p" "CHR ''['' \<notin> set p" "CHR '']'' \<notin> set p"
  shows "SplitHostPort (h @ '':'' @ p) = Some h"
proof -
  have "rindex 0 None CHR '':'' (h @ '':'' @ p) = Some (length h)"
    using assms by (simp add: rindex_append rindex_absent)
  moreover have "hd h \<noteq> CHR ''[''" using assms(1,3) by (cases h) auto
  ultimately show ?thesis using assms by (simp add: SplitHostPort_def)
qed

end
