(* ===== verification/Objects.thy ===== *)
theory Objects
  imports GoLib
begin

text \<open>
  Package \<open>object\<close> (\<open>src/object/service.go\<close>, \<open>endpoint.go\<close>, \<open>pod.go\<close>): the stripped-down copies
  of the Kubernetes API objects the caches hold, and the conversions that make them.  Of the
  API types only the fields these conversions read are modelled.

  Every conversion takes the API object and returns, beside its result, the API object as the
  call leaves it: unless cleanup is skipped the conversion overwrites it with its zero value.
\<close>

section \<open>API objects\<close>

type_synonym ServiceType = string

abbreviation ServiceTypeClusterIP :: ServiceType where "ServiceTypeClusterIP \<equiv> ''ClusterIP''"
abbreviation ServiceTypeNodePort :: ServiceType where "ServiceTypeNodePort \<equiv> ''NodePort''"
abbreviation ServiceTypeLoadBalancer :: ServiceType where
  "ServiceTypeLoadBalancer \<equiv> ''LoadBalancer''"
abbreviation ServiceTypeExternalName :: ServiceType where
  "ServiceTypeExternalName \<equiv> ''ExternalName''"
abbreviation ClusterIPNone :: string where "ClusterIPNone \<equiv> ''None''"

record ServicePort =
  sp_Name :: string
  sp_Protocol :: string
  sp_Port :: uint32

record LoadBalancerIngress =
  ing_IP :: string
  ing_Hostname :: string

record api_Service =
  as_ResourceVersion :: string
  as_Name :: string
  as_Namespace :: string
  as_ClusterIP :: string
  as_Type :: ServiceType
  as_ExternalName :: string
  as_ExternalIPs :: "string list"
  as_Ports :: "ServicePort list"
  as_Ingress :: "LoadBalancerIngress list"

record api_EndpointAddress =
  aa_IP :: string
  aa_Hostname :: string
  aa_NodeName :: "string option"
  aa_TargetRef :: "string option"

record EndpointPort =
  epp_Port :: uint32
  epp_Name :: string
  epp_Protocol :: string

record api_EndpointSubset =
  asub_Addresses :: "api_EndpointAddress list"
  asub_Ports :: "EndpointPort list"

record api_Endpoints =
  ae_ResourceVersion :: string
  ae_Name :: string
  ae_Namespace :: string
  ae_Annotations :: "(string \<times> string) list"
  ae_Subsets :: "api_EndpointSubset list"

text \<open>A deletion timestamp is a pointer to a time; the zero time is \<open>0\<close>.\<close>

record api_Pod =
  ap_ResourceVersion :: string
  ap_Name :: string
  ap_Namespace :: string
  ap_PodIP :: string
  ap_DeletionTimestamp :: "int option"

definition zero_api_Service :: api_Service where
  "zero_api_Service =
     \<lparr>as_ResourceVersion = '''', as_Name = '''', as_Namespace = '''', as_ClusterIP = '''',
      as_Type = '''', as_ExternalName = '''', as_ExternalIPs = [], as_Ports = [], as_Ingress = []\<rparr>"

definition zero_api_Endpoints :: api_Endpoints where
  "zero_api_Endpoints =
     \<lparr>ae_ResourceVersion = '''', ae_Name = '''', ae_Namespace = '''', ae_Annotations = [],
      ae_Subsets = []\<rparr>"

definition zero_api_Pod :: api_Pod where
  "zero_api_Pod =
     \<lparr>ap_ResourceVersion = '''', ap_Name = '''', ap_Namespace = '''', ap_PodIP = '''',
      ap_DeletionTimestamp = None\<rparr>"

section \<open>Services\<close>

record Service =
  svc_Version :: string
  svc_Name :: string
  svc_Namespace :: string
  svc_Index :: string
  svc_ClusterIP :: string
  svc_Type :: ServiceType
  svc_ExternalName :: string
  svc_Ports :: "ServicePort list"
  svc_ExternalIPs :: "string list"

definition ServiceKey :: "string \<Rightarrow> string \<Rightarrow> string" where
  "ServiceKey name namespace = name @ ''.'' @ namespace"

definition zero_ServicePort :: ServicePort where
  "zero_ServicePort = \<lparr>sp_Name = '''', sp_Protocol = '''', sp_Port = 0\<rparr>"

definition sentinel_ServicePort :: ServicePort where
  "sentinel_ServicePort = zero_ServicePort\<lparr>sp_Port := - 1\<rparr>"

definition toService_Ports :: "ServicePort list \<Rightarrow> ServicePort list" where
  "toService_Ports ps =
     (if ps = [] then [sentinel_ServicePort]
      else fst (go_copy (replicate (length ps) zero_ServicePort) ps))"

text \<open>
  The slice of external addresses is allocated for both sources, the addresses of the spec are
  copied to its front and the load balancer's ingress points fill the rest by index.
\<close>

fun ingress_loop :: "nat \<Rightarrow> nat \<Rightarrow> string list \<Rightarrow> LoadBalancerIngress list \<Rightarrow> string list" where
  "ingress_loop li i ips [] = ips"
| "ingress_loop li i ips (lb # lbs) =
     (if ing_IP lb \<noteq> '''' then ingress_loop li (Suc i) (ips[li + i := ing_IP lb]) lbs
      else ingress_loop li (Suc i) (ips[li + i := ing_Hostname lb]) lbs)"

definition toService_ExternalIPs :: "api_Service \<Rightarrow> string list" where
  "toService_ExternalIPs svc =
     (let ips = replicate (length (as_Ingress svc) + length (as_ExternalIPs svc)) '''';
          (ips, li) = go_copy ips (as_ExternalIPs svc)
      in ingress_loop li 0 ips (as_Ingress svc))"

definition toService :: "bool \<Rightarrow> api_Service \<Rightarrow> Service \<times> api_Service" where
  "toService skipCleanup svc =
     (\<lparr>svc_Version = as_ResourceVersion svc,
       svc_Name = as_Name svc,
       svc_Namespace = as_Namespace svc,
       svc_Index = ServiceKey (as_Name svc) (as_Namespace svc),
       svc_ClusterIP = as_ClusterIP svc,
       svc_Type = as_Type svc,
       svc_ExternalName = as_ExternalName svc,
       svc_Ports = toService_Ports (as_Ports svc),
       svc_ExternalIPs = toService_ExternalIPs svc\<rparr>,
      if skipCleanup then svc else zero_api_Service)"

definition Service_DeepCopyObject :: "Service \<Rightarrow> Service" where
  "Service_DeepCopyObject s =
     \<lparr>svc_Version = svc_Version s,
      svc_Name = svc_Name s,
      svc_Namespace = svc_Namespace s,
      svc_Index = svc_Index s,
      svc_ClusterIP = svc_ClusterIP s,
      svc_Type = svc_Type s,
      svc_ExternalName = svc_ExternalName s,
      svc_Ports = fst (go_copy (replicate (length (svc_Ports s)) zero_ServicePort) (svc_Ports s)),
      svc_ExternalIPs = fst (go_copy (replicate (length (svc_ExternalIPs s)) '''') (svc_ExternalIPs s))\<rparr>"

section \<open>Endpoints\<close>

record EndpointAddress =
  ea_IP :: string
  ea_Hostname :: string
  ea_NodeName :: string
  ea_TargetRefName :: string

record EndpointSubset =
  sub_Addresses :: "EndpointAddress list"
  sub_Ports :: "EndpointPort list"

record Endpoints =
  ep_Version :: string
  ep_Name :: string
  ep_Namespace :: string
  ep_Index :: string
  ep_IndexIP :: "string list"
  ep_Subsets :: "EndpointSubset list"

definition EndpointsKey :: "string \<Rightarrow> string \<Rightarrow> string" where
  "EndpointsKey name namespace = name @ ''.'' @ namespace"

definition zero_EndpointAddress :: EndpointAddress where
  "zero_EndpointAddress =
     \<lparr>ea_IP = '''', ea_Hostname = '''', ea_NodeName = '''', ea_TargetRefName = ''''\<rparr>"

definition zero_EndpointPort :: EndpointPort where
  "zero_EndpointPort = \<lparr>epp_Port = 0, epp_Name = '''', epp_Protocol = ''''\<rparr>"

definition sentinel_EndpointPort :: EndpointPort where
  "sentinel_EndpointPort = zero_EndpointPort\<lparr>epp_Port := - 1\<rparr>"

definition zero_EndpointSubset :: EndpointSubset where
  "zero_EndpointSubset = \<lparr>sub_Addresses = [], sub_Ports = []\<rparr>"

definition toEndpointAddress :: "api_EndpointAddress \<Rightarrow> EndpointAddress" where
  "toEndpointAddress a =
     (let ea = \<lparr>ea_IP = aa_IP a, ea_Hostname = aa_Hostname a, ea_NodeName = '''',
                ea_TargetRefName = ''''\<rparr>;
          ea = (case aa_NodeName a of None \<Rightarrow> ea | Some n \<Rightarrow> ea\<lparr>ea_NodeName := n\<rparr>)
      in case aa_TargetRef a of None \<Rightarrow> ea | Some n \<Rightarrow> ea\<lparr>ea_TargetRefName := n\<rparr>)"

definition toEndpointSubset :: "api_EndpointSubset \<Rightarrow> EndpointSubset" where
  "toEndpointSubset eps =
     (let addrs = replicate (length (asub_Addresses eps)) zero_EndpointAddress;
          ports = (if asub_Ports eps = [] then [sentinel_EndpointPort]
                   else replicate (length (asub_Ports eps)) zero_EndpointPort)
      in \<lparr>sub_Addresses = range_fill toEndpointAddress addrs (asub_Addresses eps),
          sub_Ports = range_fill
            (\<lambda>p. \<lparr>epp_Port = epp_Port p, epp_Name = epp_Name p, epp_Protocol = epp_Protocol p\<rparr>)
            ports (asub_Ports eps)\<rparr>)"

definition toEndpoints_IndexIP :: "api_EndpointSubset list \<Rightarrow> string list" where
  "toEndpoints_IndexIP subs =
     foldl (\<lambda>acc eps. foldl (\<lambda>acc a. acc @ [aa_IP a]) acc (asub_Addresses eps)) [] subs"

definition toEndpoints :: "bool \<Rightarrow> api_Endpoints \<Rightarrow> Endpoints \<times> api_Endpoints" where
  "toEndpoints skipCleanup endp =
     (\<lparr>ep_Version = ae_ResourceVersion endp,
       ep_Name = ae_Name endp,
       ep_Namespace = ae_Namespace endp,
       ep_Index = EndpointsKey (ae_Name endp) (ae_Namespace endp),
       ep_IndexIP = toEndpoints_IndexIP (ae_Subsets endp),
       ep_Subsets = range_fill toEndpointSubset
         (replicate (length (ae_Subsets endp)) zero_EndpointSubset) (ae_Subsets endp)\<rparr>,
      if skipCleanup then endp else zero_api_Endpoints)"

definition CopyWithoutSubsets :: "Endpoints \<Rightarrow> Endpoints" where
  "CopyWithoutSubsets e =
     \<lparr>ep_Version = ep_Version e,
      ep_Name = ep_Name e,
      ep_Namespace = ep_Namespace e,
      ep_Index = ep_Index e,
      ep_IndexIP = fst (go_copy (replicate (length (ep_IndexIP e)) '''') (ep_IndexIP e)),
      ep_Subsets = []\<rparr>"

definition Endpoints_DeepCopyObject :: "Endpoints \<Rightarrow> Endpoints" where
  "Endpoints_DeepCopyObject e =
     \<lparr>ep_Version = ep_Version e,
      ep_Name = ep_Name e,
      ep_Namespace = ep_Namespace e,
      ep_Index = ep_Index e,
      ep_IndexIP = fst (go_copy (replicate (length (ep_IndexIP e)) '''') (ep_IndexIP e)),
      ep_Subsets = range_fill
        (\<lambda>eps. \<lparr>sub_Addresses = range_fill
                   (\<lambda>a. \<lparr>ea_IP = ea_IP a, ea_Hostname = ea_Hostname a, ea_NodeName = ea_NodeName a,
                          ea_TargetRefName = ea_TargetRefName a\<rparr>)
                   (replicate (length (sub_Addresses eps)) zero_EndpointAddress) (sub_Addresses eps),
                 sub_Ports = range_fill
                   (\<lambda>p. \<lparr>epp_Port = epp_Port p, epp_Name = epp_Name p,
                          epp_Protocol = epp_Protocol p\<rparr>)
                   (replicate (length (sub_Ports eps)) zero_EndpointPort) (sub_Ports eps)\<rparr>)
        (replicate (length (ep_Subsets e)) zero_EndpointSubset) (ep_Subsets e)\<rparr>"

section \<open>Pods\<close>

record Pod =
  pod_Version :: string
  pod_PodIP :: string
  pod_Name :: string
  pod_Namespace :: string

definition toPod :: "bool \<Rightarrow> api_Pod \<Rightarrow> Pod \<times> api_Pod" where
  "toPod skipCleanup pod =
     (\<lparr>pod_Version = ap_ResourceVersion pod,
       pod_PodIP = ap_PodIP pod,
       pod_Name = ap_Name pod,
       pod_Namespace = ap_Namespace pod\<rparr>,
      if skipCleanup then pod else zero_api_Pod)"

definition Pod_DeepCopyObject :: "Pod \<Rightarrow> Pod" where
  "Pod_DeepCopyObject p =
     \<lparr>pod_Version = pod_Version p, pod_PodIP = pod_PodIP p, pod_Name = pod_Name p,
      pod_Namespace = pod_Namespace p\<rparr>"

section \<open>Converters\<close>

text \<open>
  What a Go \<open>interface{}\<close> holds when it comes from the API machinery, and what the caches store.
\<close>

datatype api_obj =
    ApiService api_Service
  | ApiEndpoints api_Endpoints
  | ApiPod api_Pod
  | ApiDeletedFinalStateUnknown string
  | ApiOther string

datatype obj =
    ObjService Service
  | ObjEndpoints Endpoints
  | ObjPod Pod
  | ObjNamespace string
  | ObjDeletedFinalStateUnknown string
  | ObjOther string

datatype convert_err = UnexpectedObject | errPodTerminating

type_synonym ToFunc = "api_obj \<Rightarrow> (obj option \<times> convert_err option) \<times> api_obj"

definition ToService :: "bool \<Rightarrow> ToFunc" where
  "ToService skipCleanup ob =
     (case ob of
        ApiService svc \<Rightarrow>
          let (s, svc') = toService skipCleanup svc in ((Some (ObjService s), None), ApiService svc')
      | _ \<Rightarrow> ((None, Some UnexpectedObject), ob))"

definition ToEndpoints :: "bool \<Rightarrow> ToFunc" where
  "ToEndpoints skipCleanup ob =
     (case ob of
        ApiEndpoints eps \<Rightarrow>
          let (e, eps') = toEndpoints skipCleanup eps
          in ((Some (ObjEndpoints e), None), ApiEndpoints eps')
      | _ \<Rightarrow> ((None, Some UnexpectedObject), ob))"

text \<open>The deletion timestamp is read after \<open>toPod\<close> has run on the same object.\<close>

definition ToPod :: "bool \<Rightarrow> ToFunc" where
  "ToPod skipCleanup ob =
     (case ob of
        ApiPod apiPod \<Rightarrow>
          let (pod, apiPod') = toPod skipCleanup apiPod
          in (case ap_DeletionTimestamp apiPod' of
                None \<Rightarrow> ((Some (ObjPod pod), None), ApiPod apiPod')
              | Some t \<Rightarrow>
                  if t \<noteq> 0 then ((Some (ObjPod pod), Some errPodTerminating), ApiPod apiPod')
                  else ((Some (ObjPod pod), None), ApiPod apiPod'))
      | _ \<Rightarrow> ((None, Some UnexpectedObject), ob))"

section \<open>What the conversions compute\<close>

lemma toService_Ports_eq:
  "toService_Ports ps = (if ps = [] then [sentinel_ServicePort] else ps)"
  by (simp add: toService_Ports_def)

lemma ingress_loop_eq:
  "li + i + length lbs = length ips \<Longrightarrow>
   ingress_loop li i ips lbs =
     take (li + i) ips @ map (\<lambda>lb. if ing_IP lb \<noteq> '''' then ing_IP lb else ing_Hostname lb) lbs"
proof (induction li i ips lbs rule: ingress_loop.induct)
  case (2 li i ips lb lbs)
  then have "li + i < length ips" by simp
  with 2 show ?case by (simp add: take_Suc_conv_app_nth)
qed simp

lemma toService_ExternalIPs_eq:
  "toService_ExternalIPs svc =
     as_ExternalIPs svc @
     map (\<lambda>lb. if ing_IP lb \<noteq> '''' then ing_IP lb else ing_Hostname lb) (as_Ingress svc)"
  by (simp add: toService_ExternalIPs_def go_copy_def ingress_loop_eq)

lemma foldl_appendpmap: "foldl (\<lambda>acc a. acc @ [f a]) acc xs = acc @ map f xs"
  by (induction xs arbitrary: acc) auto

lemma toEndpoints_IndexIP_eq:
  "toEndpoints_IndexIP subs = concat (map (\<lambda>s. map aa_IP (asub_Addresses s)) subs)"
proof -
  have "foldl (\<lambda>acc eps. foldl (\<lambda>acc a. acc @ [aa_IP a]) acc (asub_Addresses eps)) acc subs
        = acc @ concat (map (\<lambda>s. map aa_IP (asub_Addresses s)) subs)" for acc
    by (induction subs arbitrary: acc) (auto simp: foldl_appendpmap)
  then show ?thesis by (simp add: toEndpoints_IndexIP_def)
qed

lemma EndpointPort_copy [simp]:
  "\<lparr>epp_Port = epp_Port p, epp_Name = epp_Name p, epp_Protocol = epp_Protocol p\<rparr> = p"
  by (cases p) simp

lemma EndpointAddress_copy [simp]:
  "\<lparr>ea_IP = ea_IP a, ea_Hostname = ea_Hostname a, ea_NodeName = ea_NodeName a,
    ea_TargetRefName = ea_TargetRefName a\<rparr> = a"
  by (cases a) simp

lemma EndpointSubset_copy [simp]:
  "\<lparr>sub_Addresses = sub_Addresses s, sub_Ports = sub_Ports s\<rparr> = s"
  by (cases s) simp

lemma toEndpointSubset_eq:
  "toEndpointSubset eps =
     \<lparr>sub_Addresses = map toEndpointAddress (asub_Addresses eps),
      sub_Ports = (if asub_Ports eps = [] then [sentinel_EndpointPort] else asub_Ports eps)\<rparr>"
  by (auto simp: toEndpointSubset_def Let_def)

lemma ep_Subsets_toEndpoints:
  "ep_Subsets (fst (toEndpoints skip e)) = map toEndpointSubset (ae_Subsets e)"
  by (simp add: toEndpoints_def)

lemma ea_IP_toEndpointAddress [simp]: "ea_IP (toEndpointAddress a) = aa_IP a"
  by (simp add: toEndpointAddress_def Let_def split: option.splits)

lemma ea_Hostname_toEndpointAddress [simp]: "ea_Hostname (toEndpointAddress a) = aa_Hostname a"
  by (simp add: toEndpointAddress_def Let_def split: option.splits)

section \<open>Properties\<close>

text \<open>
  Converting a service keeps every external address, in order: first the addresses of the
  spec, then one per ingress point of the load balancer (its IP, or its host name where it has
  no IP); the index is the key of its name and namespace, and the port list is never empty,
  whether or not the API object is cleaned up.
\<close>

theorem toService_result:
  "svc_ExternalIPs (fst (toService skip svc)) =
     as_ExternalIPs svc @
     map (\<lambda>lb. if ing_IP lb \<noteq> '''' then ing_IP lb else ing_Hostname lb) (as_Ingress svc) \<and>
   svc_Index (fst (toService skip svc)) = ServiceKey (as_Name svc) (as_Namespace svc) \<and>
   svc_Ports (fst (toService skip svc)) \<noteq> [] \<and>
   snd (toService skip svc) = (if skip then svc else zero_api_Service)"
  by (simp add: toService_def toService_ExternalIPs_eq toService_Ports_eq)

text \<open>
  The IP index of converted endpoints holds exactly the addresses of their subsets, and every
  subset keeps its addresses in order and has at least one port.
\<close>

theorem toEndpoints_result:
  "set (ep_IndexIP (fst (toEndpoints skip e))) =
     {ea_IP a | a sub. sub \<in> set (ep_Subsets (fst (toEndpoints skip e))) \<and> a \<in> set (sub_Addresses sub)} \<and>
   map (map ea_IP \<circ> sub_Addresses) (ep_Subsets (fst (toEndpoints skip e))) =
     map (map aa_IP \<circ> asub_Addresses) (ae_Subsets e) \<and>
   [] \<notin> sub_Ports ` set (ep_Subsets (fst (toEndpoints skip e)))"
proof -
  have "set (ep_IndexIP (fst (toEndpoints skip e))) =
      {ea_IP a | a sub. sub \<in> set (map toEndpointSubset (ae_Subsets e)) \<and> a \<in> set (sub_Addresses sub)}"
    by (auto simp: toEndpoints_def toEndpoints_IndexIP_eq toEndpointSubset_eq) force
  then show ?thesis
    by (auto simp: ep_Subsets_toEndpoints toEndpointSubset_eq split: if_splits)
qed

text \<open>
  The deep copies of services, endpoints and pods equal their originals, and the copy without
  subsets differs from its original only in having none.
\<close>

theorem DeepCopyObject_identity:
  "Service_DeepCopyObject s = s \<and> Endpoints_DeepCopyObject e = e \<and> Pod_DeepCopyObject p = p \<and>
   CopyWithoutSubsets e = e\<lparr>ep_Subsets := []\<rparr>"
  by (cases s; cases e; cases p)
    (simp add: Service_DeepCopyObject_def Endpoints_DeepCopyObject_def Pod_DeepCopyObject_def
       CopyWithoutSubsets_def)

text \<open>
  A terminating pod is reported as such only when cleanup is skipped.  With cleanup the
  timestamp is read from the object \<open>toPod\<close> has just overwritten, so the conversion succeeds for
  every pod, terminating or not.
\<close>

theorem ToPod_terminating:
  "fst (ToPod True (ApiPod p)) =
     (Some (ObjPod (fst (toPod True p))),
      if ap_DeletionTimestamp p \<in> {None, Some 0} then None else Some errPodTerminating) \<and>
   fst (ToPod False (ApiPod p)) = (Some (ObjPod (fst (toPod False p))), None)"
  by (auto simp: ToPod_def toPod_def zero_api_Pod_def split: option.splits)

end
