(* ===== verification/Extern.thy ===== *)
theory Extern
  imports GoLib
begin

text \<open>
  The third-party packages the plugin calls, as parameters: \<open>miekg/dns\<close> and CoreDNS's \<open>dnsutil\<close>,
  \<open>etcd/msg\<close>, \<open>request\<close> and \<open>plugin\<close>.  Their data types carry the fields the plugin reads or
  writes; their functions are the fields of two records that the definitions take as an argument.
  What a theorem needs to know of them is a named hypothesis over those records, and the last
  section gives concrete functions that satisfy the hypotheses, for evaluation on examples.
\<close>

section \<open>Data\<close>

text \<open>\<open>msg.Service\<close>, without the fields the plugin never sets.\<close>

record msg_Service =
  ms_Host :: string
  ms_Port :: int
  ms_Priority :: int
  ms_Weight :: int
  ms_Text :: string
  ms_TTL :: uint32
  ms_Key :: string

definition zero_msg_Service :: msg_Service where
  "zero_msg_Service =
     \<lparr>ms_Host = '''', ms_Port = 0, ms_Priority = 0, ms_Weight = 0, ms_Text = '''', ms_TTL = 0,
      ms_Key = ''''\<rparr>"

text \<open>
  \<open>request.Request\<close>: the accessors \<open>Name\<close> (lower-cased), \<open>QName\<close>, \<open>QType\<close> and \<open>IP\<close> (source
  address) of the wrapped message and writer, and the field \<open>Zone\<close>.
\<close>

record Request =
  rq_Name :: string
  rq_QName :: string
  rq_QType :: uint16
  rq_IP :: string
  rq_Zone :: string

record RR_Header =
  hdr_Name :: string
  hdr_Rrtype :: uint16
  hdr_Class :: uint16
  hdr_Ttl :: uint32

text \<open>Resource records: the two kinds the plugin builds itself, and any other with its data.\<close>

datatype RR =
    is_RR_A: RR_A (rr_hdr: RR_Header) (rr_ip: IP)
  | RR_AAAA (rr_hdr: RR_Header) (rr_ip: IP)
  | RR_Other (rr_hdr: RR_Header) string

record dns_Msg =
  m_Id :: nat
  m_Authoritative :: bool
  m_Answer :: "RR list"
  m_Extra :: "RR list"

section \<open>Names and services\<close>

text \<open>
  \<open>TrimZone\<close> is \<open>dnsutil.TrimZone\<close> without its error, which every caller drops (the string is
  then empty).  \<open>HostType\<close> is the first result of \<open>msg.Service.HostType\<close>, \<open>Matches\<close> is
  \<open>plugin.Zones.Matches\<close>.
\<close>

record dns_lib =
  TrimZone :: "string \<Rightarrow> string \<Rightarrow> string"
  SplitDomainName :: "string \<Rightarrow> string list"
  IsReverse :: "string \<Rightarrow> int"
  ExtractAddressFromReverse :: "string \<Rightarrow> string"
  Matches :: "string list \<Rightarrow> string \<Rightarrow> string"
  msg_Path :: "string \<Rightarrow> string \<Rightarrow> string"
  msg_Domain :: "string \<Rightarrow> string"
  HostType :: "msg_Service \<Rightarrow> uint16"

text \<open>A label: not empty, without a dot or an escape.\<close>

definition plain_label :: "string \<Rightarrow> bool" where
  "plain_label l = (l \<noteq> [] \<and> CHR ''.'' \<notin> set l \<and> CHR 0x5C \<notin> set l)"

text \<open>
  The labels of a syntactically valid name in presentation format (RFC 1035, section 5.1): not
  empty, every dot inside escaped by a backslash.  A valid name is such labels, each with a dot
  after it, or the root; it is what unpacking a query message gives.
\<close>

fun label_text :: "string \<Rightarrow> bool" where
  "label_text [] = True"
| "label_text [c] = (c \<noteq> CHR ''.'' \<and> c \<noteq> CHR 0x5C)"
| "label_text (c # d # s) =
     (if c = CHR 0x5C then label_text s else c \<noteq> CHR ''.'' \<and> label_text (d # s))"

definition domain_label :: "string \<Rightarrow> bool" where
  "domain_label l \<longleftrightarrow> l \<noteq> [] \<and> label_text l"

definition valid_name :: "string \<Rightarrow> bool" where
  "valid_name q \<longleftrightarrow> (\<exists>ls. list_all domain_label ls \<and> q = Join ls ''.'' @ ''.'')"

text \<open>
  Documented behaviour of \<open>dns.SplitDomainName\<close> on a syntactically valid name: it is split into
  its labels.  Of other names nothing is said; \<open>.www.miek.nl.\<close> has an empty first label, for
  instance.
\<close>

definition split_law :: "dns_lib \<Rightarrow> bool" where
  "split_law x \<longleftrightarrow> (\<forall>ls. list_all domain_label ls \<longrightarrow> SplitDomainName x (Join ls ''.'') = ls)"

text \<open>
  Documented behaviour of \<open>dnsutil.TrimZone\<close>: it removes the labels of the zone from the end of
  a name and returns the rest without a trailing dot, or the empty string and an error when the
  zone is too long.  For any zone, a valid name is therefore cut between two of its labels
  (\<open>trim_cuts\<close>); for a name in the zone, which is not the root, just before the zone
  (\<open>trim_law\<close>).
\<close>

definition trim_cuts :: "dns_lib \<Rightarrow> bool" where
  "trim_cuts x \<longleftrightarrow>
     (\<forall>ls zone. list_all domain_label ls \<longrightarrow>
        (\<exists>n. TrimZone x (Join ls ''.'' @ ''.'') zone = Join (take n ls) ''.''))"

definition trim_law :: "dns_lib \<Rightarrow> string \<Rightarrow> bool" where
  "trim_law x zone \<longleftrightarrow>
     (\<forall>ls. ls \<noteq> [] \<and> list_all plain_label ls \<longrightarrow>
           TrimZone x (Join ls ''.'' @ ''.'' @ zone) zone = Join ls ''.'')"

text \<open>Documented behaviour of \<open>plugin.Zones.Matches\<close>: the result is empty or a suffix of the name
  as long as one of the zones.\<close>

definition matches_law :: "dns_lib \<Rightarrow> bool" where
  "matches_law x \<longleftrightarrow>
     (\<forall>zs q. Matches x zs q = '''' \<or>
             Matches x zs q \<in> set zs \<and> length (Matches x zs q) \<le> length q)"

lemma label_text_plain: "CHR ''.'' \<notin> set l \<Longrightarrow> CHR 0x5C \<notin> set l \<Longrightarrow> label_text l"
  by (induction l rule: label_text.induct) auto

lemma plain_domain_label: "plain_label l \<Longrightarrow> domain_label l"
  by (auto simp: plain_label_def domain_label_def label_text_plain)

lemma plain_domain_labels: "list_all plain_label ls \<Longrightarrow> list_all domain_label ls"
  by (simp add: list_all_iff plain_domain_label)

lemma split_plain:
  "split_law x \<Longrightarrow> list_all plain_label ls \<Longrightarrow> SplitDomainName x (Join ls ''.'') = ls"
  by (simp add: split_law_def plain_domain_labels)

text \<open>Every label that parsing a valid name looks at is not empty.\<close>

lemma split_trimmed:
  assumes "split_law x" and "trim_cuts x" and "valid_name q"
  shows "'''' \<notin> set (SplitDomainName x (TrimZone x q zone))"
proof -
  from assms(3) obtain ls where ls: "list_all domain_label ls" "q = Join ls ''.'' @ ''.''"
    by (auto simp: valid_name_def)
  with assms(2) obtain n where "TrimZone x q zone = Join (take n ls) ''.''"
    by (metis trim_cuts_def)
  moreover from ls(1) have "list_all domain_label (take n ls)"
    by (auto simp: list_all_iff dest: in_set_takeD)
  ultimately show ?thesis
    using assms(1) by (auto simp: split_law_def list_all_iff domain_label_def)
qed

section \<open>The plugin package\<close>

text \<open>
  \<open>plugin.ServiceBackend\<close>: what the record generators of package \<open>plugin\<close> call back.  A backend
  method may panic.
\<close>

type_synonym svc_result = "(msg_Service list \<times> go_err option) go"

record ServiceBackend =
  sb_Services :: "Request \<Rightarrow> bool \<Rightarrow> svc_result"
  sb_Reverse :: "Request \<Rightarrow> bool \<Rightarrow> svc_result"
  sb_Lookup :: "Request \<Rightarrow> string \<Rightarrow> uint16 \<Rightarrow> (dns_Msg option \<times> go_err option) go"
  sb_Records :: "Request \<Rightarrow> bool \<Rightarrow> svc_result"
  sb_IsNameError :: "go_err option \<Rightarrow> bool"
  sb_Serial :: "Request \<Rightarrow> uint32"
  sb_MinTTL :: "Request \<Rightarrow> uint32"

text \<open>
  What handling a query does: the messages written to the client, in order, and the returned
  response code and error.
\<close>

record reply =
  rp_Rcode :: int
  rp_Err :: "go_err option"
  rp_Written :: "dns_Msg list"

type_synonym rr_result = "(RR list \<times> go_err option) go"
type_synonym rr_extra_result = "(RR list \<times> RR list \<times> go_err option) go"

record plugin_lib =
  plugin_A :: "ServiceBackend \<Rightarrow> string \<Rightarrow> Request \<Rightarrow> rr_result"
  plugin_AAAA :: "ServiceBackend \<Rightarrow> string \<Rightarrow> Request \<Rightarrow> rr_result"
  plugin_TXT :: "ServiceBackend \<Rightarrow> string \<Rightarrow> Request \<Rightarrow> rr_result"
  plugin_CNAME :: "ServiceBackend \<Rightarrow> string \<Rightarrow> Request \<Rightarrow> rr_result"
  plugin_PTR :: "ServiceBackend \<Rightarrow> string \<Rightarrow> Request \<Rightarrow> rr_result"
  plugin_MX :: "ServiceBackend \<Rightarrow> string \<Rightarrow> Request \<Rightarrow> rr_extra_result"
  plugin_SRV :: "ServiceBackend \<Rightarrow> string \<Rightarrow> Request \<Rightarrow> rr_extra_result"
  plugin_SOA :: "ServiceBackend \<Rightarrow> string \<Rightarrow> Request \<Rightarrow> rr_result"
  plugin_NS :: "ServiceBackend \<Rightarrow> string \<Rightarrow> Request \<Rightarrow> rr_extra_result"
  BackendError :: "ServiceBackend \<Rightarrow> string \<Rightarrow> int \<Rightarrow> Request \<Rightarrow> reply go"
  NextOrFailure :: "string \<Rightarrow> Request \<Rightarrow> reply go"
  Fall_Through :: "string \<Rightarrow> bool"
  Upstream_Lookup :: "Request \<Rightarrow> string \<Rightarrow> uint16 \<Rightarrow> (dns_Msg option \<times> go_err option) go"
  NewWithQuestion :: "Request \<Rightarrow> string \<Rightarrow> uint16 \<Rightarrow> Request"
  SetReply :: "Request \<Rightarrow> dns_Msg"

section \<open>Concrete functions for examples\<close>

text \<open>Splitting at the dots that are not escaped; an empty label before a dot is kept.\<close>

fun split_labels :: "string \<Rightarrow> string \<Rightarrow> string list" where
  "split_labels acc [] = (if acc = [] then [] else [acc])"
| "split_labels acc (c # s) =
     (if c = CHR ''.'' then acc # split_labels [] s
      else if c = CHR 0x5C \<and> s \<noteq> [] then split_labels (acc @ [c, hd s]) (tl s)
      else split_labels (acc @ [c]) s)"

definition ex_SplitDomainName :: "string \<Rightarrow> string list" where
  "ex_SplitDomainName s = (if s = ''.'' then [] else split_labels [] s)"

definition ex_TrimZone :: "string \<Rightarrow> string \<Rightarrow> string" where
  "ex_TrimZone q z =
     (let ls = ex_SplitDomainName q; zs = ex_SplitDomainName z; n = length ls - length zs in
      if length zs \<le> length ls \<and> drop n ls = zs then Join (take n ls) ''.'' else [])"

definition ex_Matches :: "string list \<Rightarrow> string \<Rightarrow> string" where
  "ex_Matches zs q =
     (case filter (\<lambda>z. length z \<le> length q \<and> drop (length q - length z) q = z) zs of
        [] \<Rightarrow> [] | z # _ \<Rightarrow> z)"

definition ex_HostType :: "msg_Service \<Rightarrow> uint16" where
  "ex_HostType s =
     (case ParseIP (ms_Host s) of
        None \<Rightarrow> if ms_Text s = [] then TypeCNAME else TypeTXT
      | Some ip \<Rightarrow> if To4 ip \<noteq> [] then TypeA else TypeAAAA)"

definition ex_lib :: dns_lib where
  "ex_lib =
     \<lparr>TrimZone = ex_TrimZone, SplitDomainName = ex_SplitDomainName, IsReverse = (\<lambda>_. 0),
      ExtractAddressFromReverse = (\<lambda>_. []), Matches = ex_Matches,
      msg_Path = (\<lambda>s p. ''/'' @ p @ ''/'' @ Join (rev (ex_SplitDomainName s)) ''/''),
      msg_Domain = (\<lambda>s. s), HostType = ex_HostType\<rparr>"

lemma split_labels_text: "label_text l \<Longrightarrow> split_labels acc (l @ s) = split_labels (acc @ l) s"
  by (induction l arbitrary: acc rule: label_text.induct) (auto split: if_splits)

lemma split_labels_label:
  "domain_label l \<Longrightarrow> split_labels [] l = [l]"
  "domain_label l \<Longrightarrow> split_labels [] (l @ CHR ''.'' # s) = l # split_labels [] s"
  using split_labels_text [of l "[]" "[]"] split_labels_text [of l "[]" "CHR ''.'' # s"]
  by (simp_all add: domain_label_def)

lemma split_labels_Join: "list_all domain_label ls \<Longrightarrow> split_labels [] (Join ls ''.'') = ls"
  by (induction ls "''.''" rule: Join.induct) (simp_all add: split_labels_label)

lemma split_labels_Join_dot:
  "ls \<noteq> [] \<Longrightarrow> list_all domain_label ls \<Longrightarrow> split_labels [] (Join ls ''.'' @ ''.'') = ls"
  by (induction ls "''.''" rule: Join.induct) (simp_all add: split_labels_label)

lemma Join_domain_labels:
  "list_all domain_label ls \<Longrightarrow> Join ls ''.'' \<noteq> ''.''"
  using split_labels_Join [of ls] by (auto simp: domain_label_def)

lemma Join_append:
  "ls \<noteq> [] \<Longrightarrow> zs \<noteq> [] \<Longrightarrow> Join (ls @ zs) d = Join ls d @ d @ Join zs d"
  by (induction ls d rule: Join.induct) (auto simp: neq_Nil_conv)

lemma ex_Split_Join: "list_all domain_label ls \<Longrightarrow> ex_SplitDomainName (Join ls ''.'') = ls"
  by (simp add: ex_SplitDomainName_def Join_domain_labels split_labels_Join)

lemma ex_Split_name:
  assumes "list_all domain_label ls"
  shows "ex_SplitDomainName (Join ls ''.'' @ ''.'') = ls"
proof (cases "ls = []")
  case False
  then have "Join ls ''.'' \<noteq> ''''"
    using split_labels_Join [OF assms] by auto
  with False assms show ?thesis
    by (simp add: ex_SplitDomainName_def split_labels_Join_dot)
qed (simp add: ex_SplitDomainName_def)

lemma ex_split_law: "split_law ex_lib"
  by (simp add: split_law_def ex_lib_def ex_Split_Join)

lemma ex_trim_cuts: "trim_cuts ex_lib"
proof -
  have "\<exists>n. ex_TrimZone (Join ls ''.'' @ ''.'') zone = Join (take n ls) ''.''"
    if "list_all domain_label ls" for ls zone
    by (simp add: ex_TrimZone_def ex_Split_name [OF that] Let_def) (metis Join.simps(1) take0)
  then show ?thesis
    by (simp add: trim_cuts_def ex_lib_def)
qed

lemma ex_trim_law:
  assumes "zs \<noteq> []" and "list_all domain_label zs" and "zone = Join zs ''.'' @ ''.''"
  shows "trim_law ex_lib zone"
proof -
  have "ex_TrimZone (Join ls ''.'' @ ''.'' @ zone) zone = Join ls ''.''"
    if "ls \<noteq> []" "list_all plain_label ls" for ls
  proof -
    have "list_all domain_label (ls @ zs)"
      using that(2) assms(2) by (simp add: plain_domain_labels)
    from ex_Split_name [OF this] that(1) assms(1,3)
    have "ex_SplitDomainName (Join ls ''.'' @ ''.'' @ zone) = ls @ zs"
      by (simp add: Join_append)
    with assms(2,3) show ?thesis
      by (simp add: ex_TrimZone_def ex_Split_name)
  qed
  then show ?thesis
    by (simp add: trim_law_def ex_lib_def)
qed

lemma ex_trim_cluster: "trim_law ex_lib ''cluster.local.''"
  by (rule ex_trim_law [of "[''cluster'', ''local'']"]) (simp_all add: domain_label_def)

lemma ex_trim_inter: "trim_law ex_lib ''inter.webs.tests.''"
  by (rule ex_trim_law [of "[''inter'', ''webs'', ''tests'']"]) (simp_all add: domain_label_def)

text \<open>Names given by their labels are valid.\<close>

lemma valid_nameI: "list_all domain_label ls \<Longrightarrow> q = Join ls ''.'' @ ''.'' \<Longrightarrow> valid_name q"
  by (auto simp: valid_name_def)

lemmas ex_lib_simps =
  ex_lib_def ex_TrimZone_def ex_SplitDomainName_def

lemma ex_matches_law: "matches_law ex_lib"
proof -
  have "ex_Matches zs q = '''' \<or> ex_Matches zs q \<in> set zs \<and> length (ex_Matches zs q) \<le> length q"
    for zs q
  proof (cases "filter (\<lambda>z. length z \<le> length q \<and> drop (length q - length z) q = z) zs")
    case Nil
    then show ?thesis by (simp add: ex_Matches_def)
  next
    case (Cons z zs')
    then have "z \<in> set zs \<and> length z \<le> length q"
      by (metis (mono_tags, lifting) filter_eq_ConsD in_set_conv_decomp)
    with Cons show ?thesis by (simp add: ex_Matches_def)
  qed
  then show ?thesis by (simp add: matches_law_def ex_lib_def)
qed

end
