(* ===== verification/Parse.thy ===== *)
theory Parse
  imports Extern
begin

text \<open>
  \<open>src/parse.go\<close>: how a query name is taken apart.  \<open>parseRequest\<close> is the code's index walk from
  the right end of the labels; \<open>parse_labels\<close> is what the comment above it says, read as patterns,
  and the two agree.
\<close>

abbreviation kindSvc :: string where "kindSvc \<equiv> ''svc''"
abbreviation kindPod :: string where "kindPod \<equiv> ''pod''"

record recordRequest =
  rr_port :: string
  rr_protocol :: string
  rr_endpoint :: string
  rr_service :: string
  rr_namespace :: string
  rr_podOrSvc :: string

definition zero_recordRequest :: recordRequest where
  "zero_recordRequest =
     \<lparr>rr_port = '''', rr_protocol = '''', rr_endpoint = '''', rr_service = '''',
      rr_namespace = '''', rr_podOrSvc = ''''\<rparr>"

definition stripUnderscore :: "string \<Rightarrow> string go" where
  "stripUnderscore s =
     (case s of
        [] \<Rightarrow> Panic IndexOutOfRange
      | c # r \<Rightarrow> if c \<noteq> CHR ''_'' then Ret s else Ret r)"

text \<open>The walk over the labels, once the zone is cut off and the apex cases are out of the way.\<close>

definition parseRequest_walk :: "string list \<Rightarrow> (recordRequest \<times> go_err option) go" where
  "parseRequest_walk segs =
     (let r = zero_recordRequest\<lparr>rr_port := ''*'', rr_protocol := ''*''\<rparr>;
          last = int (length segs) - 1 in
      if last < 0 then Ret (r, None)
      else
        let r = r\<lparr>rr_podOrSvc := segs ! nat last\<rparr> in
        if rr_podOrSvc r \<noteq> kindPod \<and> rr_podOrSvc r \<noteq> kindSvc
        then Ret (r, Some errInvalidRequest)
        else
          let last = last - 1 in
          if last < 0 then Ret (r, None)
          else
            let r = r\<lparr>rr_namespace := segs ! nat last\<rparr>; last = last - 1 in
            if last < 0 then Ret (r, None)
            else
              let r = r\<lparr>rr_service := segs ! nat last\<rparr>; last = last - 1 in
              if last < 0 then Ret (r, None)
              else if last = 0 then Ret (r\<lparr>rr_endpoint := segs ! nat last\<rparr>, None)
              else if last = 1 then
                go_bind (stripUnderscore (segs ! nat last)) (\<lambda>protocol.
                go_bind (stripUnderscore (segs ! nat (last - 1))) (\<lambda>port.
                  Ret (r\<lparr>rr_protocol := protocol, rr_port := port\<rparr>, None)))
              else Ret (r, Some errInvalidRequest))"

definition parseRequest ::
  "dns_lib \<Rightarrow> string \<Rightarrow> string \<Rightarrow> (recordRequest \<times> go_err option) go" where
  "parseRequest x name zone =
     (let base = TrimZone x name zone in
      if base = '''' \<or> base = kindSvc \<or> base = kindPod then Ret (zero_recordRequest, None)
      else parseRequest_walk (SplitDomainName x base))"

definition recordRequest_String :: "recordRequest \<Rightarrow> string" where
  "recordRequest_String r =
     rr_port r @ ''.'' @ rr_protocol r @ ''.'' @ rr_endpoint r @ ''.'' @ rr_service r
       @ ''.'' @ rr_namespace r @ ''.'' @ rr_podOrSvc r"

section \<open>The label patterns\<close>

definition star_request :: recordRequest where
  "star_request = zero_recordRequest\<lparr>rr_port := ''*'', rr_protocol := ''*''\<rparr>"

text \<open>Removing one leading underscore, on a non-empty label.\<close>

definition strip1 :: "string \<Rightarrow> string" where
  "strip1 s = (if hd s = CHR ''_'' then tl s else s)"

text \<open>The labels right to left: kind, namespace, service, then an endpoint or protocol and port.\<close>

definition parse_labels :: "string list \<Rightarrow> recordRequest \<times> go_err option" where
  "parse_labels segs =
     (case rev segs of
        [] \<Rightarrow> (star_request, None)
      | k # rest \<Rightarrow>
          let r = star_request\<lparr>rr_podOrSvc := k\<rparr> in
          if k \<notin> {kindPod, kindSvc} then (r, Some errInvalidRequest)
          else case rest of
                 [] \<Rightarrow> (r, None)
               | [ns] \<Rightarrow> (r\<lparr>rr_namespace := ns\<rparr>, None)
               | [ns, s] \<Rightarrow> (r\<lparr>rr_namespace := ns, rr_service := s\<rparr>, None)
               | [ns, s, e] \<Rightarrow> (r\<lparr>rr_namespace := ns, rr_service := s, rr_endpoint := e\<rparr>, None)
               | [ns, s, proto, port] \<Rightarrow>
                   (r\<lparr>rr_namespace := ns, rr_service := s, rr_protocol := strip1 proto,
                      rr_port := strip1 port\<rparr>, None)
               | ns # s # _ \<Rightarrow> (r\<lparr>rr_namespace := ns, rr_service := s\<rparr>, Some errInvalidRequest))"

lemma stripUnderscore_eq: "s \<noteq> [] \<Longrightarrow> stripUnderscore s = Ret (strip1 s)"
  by (cases s) (auto simp: stripUnderscore_def strip1_def)

lemmas stripUnderscore_eqs = stripUnderscore_eq stripUnderscore_eq [OF not_sym]

lemma zero_request_star:
  "zero_recordRequest\<lparr>rr_port := ''*'', rr_protocol := ''*''\<rparr> = star_request"
  by (simp add: star_request_def)

lemma rev_cases5:
  obtains "segs = []" | k where "segs = [k]" | ns k where "segs = [ns, k]"
    | s ns k where "segs = [s, ns, k]" | e s ns k where "segs = [e, s, ns, k]"
    | pt pr s ns k where "segs = [pt, pr, s, ns, k]"
    | u v w xs s ns k where "segs = xs @ [u, v, w, s, ns, k]"
proof -
  consider "rev segs = []" | k where "rev segs = [k]" | ns k where "rev segs = [k, ns]"
    | s ns k where "rev segs = [k, ns, s]" | e s ns k where "rev segs = [k, ns, s, e]"
    | pt pr s ns k where "rev segs = [k, ns, s, pr, pt]"
    | u v w xs s ns k where "rev segs = k # ns # s # w # v # u # xs"
    by (metis list.exhaust)
  then show thesis
    by cases (simp_all add: rev_eq_Cons_iff that)
qed

lemma parseRequest_walk_eq:
  assumes "'''' \<notin> set segs"
  shows "parseRequest_walk segs = Ret (parse_labels segs)"
  using assms
  by (cases segs rule: rev_cases5)
    (simp_all add: parseRequest_walk_def parse_labels_def stripUnderscore_eqs zero_request_star
       nth_append nat_add_distrib Let_def)

text \<open>The walk panics exactly on an empty port or protocol label.\<close>

lemma parseRequest_walk_panics:
  "panics (parseRequest_walk segs) \<longleftrightarrow>
   length segs = 5 \<and> segs ! 4 \<in> {kindPod, kindSvc} \<and> (segs ! 0 = '''' \<or> segs ! 1 = '''')"
  by (cases segs rule: rev_cases5)
    (auto simp: parseRequest_walk_def stripUnderscore_def nth_append nat_add_distrib Let_def
       numeral_eq_Suc split: list.splits)

lemma parseRequest_labels:
  "TrimZone x name zone \<notin> {'''', kindSvc, kindPod} \<Longrightarrow>
   '''' \<notin> set (SplitDomainName x (TrimZone x name zone)) \<Longrightarrow>
   parseRequest x name zone = Ret (parse_labels (SplitDomainName x (TrimZone x name zone)))"
  by (simp add: parseRequest_def parseRequest_walk_eq)

lemma parseRequest_apex:
  "TrimZone x name zone \<in> {'''', kindSvc, kindPod} \<Longrightarrow>
   parseRequest x name zone = Ret (zero_recordRequest, None)"
  by (auto simp: parseRequest_def Let_def)

section \<open>Printing a request back\<close>

text \<open>The name that asks for a request: its labels, left to right.\<close>

definition request_labels :: "recordRequest \<Rightarrow> string list" where
  "request_labels r =
     (if rr_endpoint r \<noteq> '''' then [rr_endpoint r, rr_service r, rr_namespace r, rr_podOrSvc r]
      else if rr_port r = ''*'' \<and> rr_protocol r = ''*''
           then [rr_service r, rr_namespace r, rr_podOrSvc r]
      else [''_'' @ rr_port r, ''_'' @ rr_protocol r, rr_service r, rr_namespace r, rr_podOrSvc r])"

text \<open>
  The requests a name can ask for: a kind, plain labels, and not both an endpoint and a port.
\<close>

definition valid_request :: "recordRequest \<Rightarrow> bool" where
  "valid_request r \<longleftrightarrow>
     rr_podOrSvc r \<in> {kindPod, kindSvc} \<and> list_all plain_label (request_labels r) \<and>
     (rr_endpoint r \<noteq> '''' \<longrightarrow> rr_port r = ''*'' \<and> rr_protocol r = ''*'')"

lemma plain_label_kinds [simp]: "plain_label kindSvc" "plain_label kindPod"
  by (simp_all add: plain_label_def)

lemma recordRequest_eqI:
  "rr_port r = rr_port s \<Longrightarrow> rr_protocol r = rr_protocol s \<Longrightarrow> rr_endpoint r = rr_endpoint s \<Longrightarrow>
   rr_service r = rr_service s \<Longrightarrow> rr_namespace r = rr_namespace s \<Longrightarrow>
   rr_podOrSvc r = rr_podOrSvc s \<Longrightarrow> r = (s :: recordRequest)"
  by simp

lemma parse_request_labels: "valid_request r \<Longrightarrow> parse_labels (request_labels r) = (r, None)"
  by (auto simp: valid_request_def request_labels_def parse_labels_def star_request_def
        zero_recordRequest_def strip1_def Let_def intro!: recordRequest_eqI split: if_splits)

lemma Join_request_labels_not_kind:
  "valid_request r \<Longrightarrow> Join (request_labels r) ''.'' \<notin> {'''', kindSvc, kindPod}"
  by (auto simp: valid_request_def request_labels_def append_eq_Cons_conv)

section \<open>Properties\<close>

text \<open>
  C13: the index walk of \<open>parseRequest\<close>.  For every syntactically valid query name and every zone,
  it computes the reading of the labels by patterns that the comment above it documents, including
  for names that are too long or of another kind, and it never indexes out of range.  This takes
  from the libraries that \<open>TrimZone\<close> cuts a name between two labels and that \<open>SplitDomainName\<close>
  gives the labels of a valid name; of the walk alone, over any labels, it is stated exactly when it
  panics: when \<open>stripUnderscore\<close> meets an empty port or protocol label.
\<close>

theorem parseRequest_correct:
  "(split_law x \<and> trim_cuts x \<and> valid_name name \<longrightarrow>
      parseRequest x name zone =
        Ret (if TrimZone x name zone \<in> {'''', kindSvc, kindPod} then (zero_recordRequest, None)
             else parse_labels (SplitDomainName x (TrimZone x name zone)))) \<and>
   (panics (parseRequest_walk segs) \<longleftrightarrow>
      length segs = 5 \<and> segs ! 4 \<in> {kindPod, kindSvc} \<and> (segs ! 0 = '''' \<or> segs ! 1 = ''''))"
  using parseRequest_apex [of x name zone] parseRequest_labels [of x name zone]
    split_trimmed [of x name zone] parseRequest_walk_panics [of segs]
  by auto

theorem parseRequest_correct_witness:
  "split_law ex_lib \<and> trim_cuts ex_lib \<and> valid_name ''a.b.c.d.svc.cluster.local.'' \<and>
   parseRequest ex_lib ''a.b.c.d.svc.cluster.local.'' ''cluster.local.'' =
     Ret (parse_labels [''a'', ''b'', ''c'', ''d'', ''svc'']) \<and>
   panics (parseRequest_walk ['''', ''_tcp'', ''c'', ''d'', ''svc''])"
proof -
  have v: "valid_name ''a.b.c.d.svc.cluster.local.''"
    by (rule valid_nameI [of "[''a'', ''b'', ''c'', ''d'', ''svc'', ''cluster'', ''local'']"])
      (simp_all add: domain_label_def)
  have "TrimZone ex_lib ''a.b.c.d.svc.cluster.local.'' ''cluster.local.'' = ''a.b.c.d.svc''"
    and "SplitDomainName ex_lib ''a.b.c.d.svc'' = [''a'', ''b'', ''c'', ''d'', ''svc'']"
    by (simp_all add: ex_lib_simps)
  then show ?thesis
    using parseRequest_correct
      [of ex_lib "''a.b.c.d.svc.cluster.local.''" "''cluster.local.''"
          "['''', ''_tcp'', ''c'', ''d'', ''svc'']"]
    by (simp add: v ex_split_law ex_trim_cuts)
qed

lemma parseRequest_request:
  assumes "split_law x" and "trim_law x zone" and "valid_request r"
  shows "parseRequest x (Join (request_labels r) ''.'' @ ''.'' @ zone) zone = Ret (r, None)"
proof -
  let ?base = "Join (request_labels r) ''.''"
  from assms(3) have ls: "request_labels r \<noteq> []" "list_all plain_label (request_labels r)"
    by (auto simp: valid_request_def request_labels_def)
  with assms(2) have trim: "TrimZone x (?base @ ''.'' @ zone) zone = ?base"
    by (simp add: trim_law_def)
  moreover from assms(1) ls have split: "SplitDomainName x ?base = request_labels r"
    by (simp add: split_plain)
  moreover from ls(2) split have "'''' \<notin> set (SplitDomainName x ?base)"
    by (auto simp: list_all_iff plain_label_def)
  ultimately show ?thesis
    using parseRequest_labels [of x "?base @ ''.'' @ zone" zone] assms(3)
      Join_request_labels_not_kind [OF assms(3)]
    by (simp add: parse_request_labels)
qed

text \<open>
  C14: round trip.  Every valid request (a service, an endpoint of a service, or a service with a
  port and a protocol, of either kind) is parsed back from the name that asks for it in a zone.
\<close>

theorem parseRequest_roundtrip:
  assumes "split_law x" and "trim_law x zone" and "valid_request r"
  shows "parseRequest x (Join (request_labels r) ''.'' @ ''.'' @ zone) zone = Ret (r, None)"
  by (rule parseRequest_request [OF assms])

definition example_request :: recordRequest where
  "example_request =
     \<lparr>rr_port = ''http'', rr_protocol = ''tcp'', rr_endpoint = '''', rr_service = ''webs'',
      rr_namespace = ''mynamespace'', rr_podOrSvc = ''svc''\<rparr>"

theorem parseRequest_roundtrip_witness:
  "split_law ex_lib \<and> trim_law ex_lib ''inter.webs.tests.'' \<and> valid_request example_request \<and>
   parseRequest ex_lib ''_http._tcp.webs.mynamespace.svc.inter.webs.tests.'' ''inter.webs.tests.'' =
     Ret (example_request, None) \<and>
   recordRequest_String example_request = ''http.tcp..webs.mynamespace.svc''"
proof -
  have v: "valid_request example_request"
    by (simp add: valid_request_def example_request_def request_labels_def plain_label_def)
  from parseRequest_roundtrip [OF ex_split_law ex_trim_inter v] show ?thesis
    by (simp add: v ex_split_law ex_trim_inter)
      (simp add: example_request_def request_labels_def recordRequest_String_def)
qed

end
