(* ===== verification/Controller.thy ===== *)
theory Controller
  imports Objects
begin

text \<open>
  \<open>src/controller.go\<close>: the controller that owns the four object caches.  An informer's store
  (\<open>cache.Indexer\<close> of client-go) is seen through the two operations the controller calls, as a
  snapshot; a cache that was not configured is a nil interface, and calling it panics.

  \<open>dnsController\<close> is the interface the DNS plugin programs against; \<open>dnsControl_api\<close> is the
  controller behind it.
\<close>

section \<open>Stores and the controller's state\<close>

record indexer =
  ix_List :: "obj list"
  ix_ByIndex :: "string \<Rightarrow> string \<Rightarrow> go_err + obj list"

record dnsControl =
  dc_modified :: int
  dc_svcLister :: indexer
  dc_podLister :: "indexer option"
  dc_epLister :: "indexer option"
  dc_nsLister :: "obj list"
  dc_svcSynced :: bool
  dc_podSynced :: "bool option"
  dc_epSynced :: "bool option"
  dc_nsSynced :: bool
  dc_shutdown :: bool
  dc_stopClosed :: bool

text \<open>The options of \<open>dnsControlOpts\<close> that decide which caches exist and how they answer.\<close>

record dnsControlOpts =
  opt_initPodCache :: bool
  opt_initEndpointsCache :: bool
  opt_ignoreEmptyService :: bool

text \<open>What the informer constructors return: one store per kind, none of them synchronised yet.\<close>

record informers =
  inf_svc :: indexer
  inf_pod :: indexer
  inf_ep :: indexer
  inf_ns :: "obj list"

definition newdnsController :: "informers \<Rightarrow> dnsControlOpts \<Rightarrow> dnsControl" where
  "newdnsController infs opts =
     \<lparr>dc_modified = 0,
      dc_svcLister = inf_svc infs,
      dc_podLister = (if opt_initPodCache opts then Some (inf_pod infs) else None),
      dc_epLister = (if opt_initEndpointsCache opts then Some (inf_ep infs) else None),
      dc_nsLister = inf_ns infs,
      dc_svcSynced = False,
      dc_podSynced = (if opt_initPodCache opts then Some False else None),
      dc_epSynced = (if opt_initEndpointsCache opts then Some False else None),
      dc_nsSynced = False,
      dc_shutdown = False,
      dc_stopClosed = False\<rparr>"

section \<open>Index functions\<close>

abbreviation podIPIndex :: string where "podIPIndex \<equiv> ''PodIP''"
abbreviation svcNameNamespaceIndex :: string where "svcNameNamespaceIndex \<equiv> ''NameNamespace''"
abbreviation svcIPIndex :: string where "svcIPIndex \<equiv> ''ServiceIP''"
abbreviation epNameNamespaceIndex :: string where
  "epNameNamespaceIndex \<equiv> ''EndpointNameNamespace''"
abbreviation epIPIndex :: string where "epIPIndex \<equiv> ''EndpointsIP''"

definition errObj :: go_err where
  "errObj = OtherErr ''obj was not of the correct type''"

definition podIPIndexFunc :: "obj \<Rightarrow> go_err + string list" where
  "podIPIndexFunc ob = (case ob of ObjPod p \<Rightarrow> Inr [pod_PodIP p] | _ \<Rightarrow> Inl errObj)"

definition svcIPIndexFunc :: "obj \<Rightarrow> go_err + string list" where
  "svcIPIndexFunc ob =
     (case ob of
        ObjService svc \<Rightarrow>
          if length (svc_ExternalIPs svc) = 0 then Inr [svc_ClusterIP svc]
          else Inr ([svc_ClusterIP svc] @ svc_ExternalIPs svc)
      | _ \<Rightarrow> Inl errObj)"

definition svcNameNamespaceIndexFunc :: "obj \<Rightarrow> go_err + string list" where
  "svcNameNamespaceIndexFunc ob = (case ob of ObjService s \<Rightarrow> Inr [svc_Index s] | _ \<Rightarrow> Inl errObj)"

definition epNameNamespaceIndexFunc :: "obj \<Rightarrow> go_err + string list" where
  "epNameNamespaceIndexFunc ob = (case ob of ObjEndpoints s \<Rightarrow> Inr [ep_Index s] | _ \<Rightarrow> Inl errObj)"

definition epIPIndexFunc :: "obj \<Rightarrow> go_err + string list" where
  "epIPIndexFunc ob = (case ob of ObjEndpoints ep \<Rightarrow> Inr (ep_IndexIP ep) | _ \<Rightarrow> Inl errObj)"

section \<open>Lookups\<close>

text \<open>The loop every lookup ends with: keep the objects of the expected type, in order.\<close>

fun typed_loop :: "(obj \<Rightarrow> 'o option) \<Rightarrow> 'o list \<Rightarrow> obj list \<Rightarrow> 'o list" where
  "typed_loop cast acc [] = acc"
| "typed_loop cast acc (ob # os) =
     (case cast ob of None \<Rightarrow> typed_loop cast acc os | Some s \<Rightarrow> typed_loop cast (acc @ [s]) os)"

definition cast_Service :: "obj \<Rightarrow> Service option" where
  "cast_Service ob = (case ob of ObjService s \<Rightarrow> Some s | _ \<Rightarrow> None)"

definition cast_Endpoints :: "obj \<Rightarrow> Endpoints option" where
  "cast_Endpoints ob = (case ob of ObjEndpoints e \<Rightarrow> Some e | _ \<Rightarrow> None)"

definition cast_Pod :: "obj \<Rightarrow> Pod option" where
  "cast_Pod ob = (case ob of ObjPod p \<Rightarrow> Some p | _ \<Rightarrow> None)"

definition ServiceList :: "dnsControl \<Rightarrow> Service list go" where
  "ServiceList dns = Ret (typed_loop cast_Service [] (ix_List (dc_svcLister dns)))"

definition EndpointsList :: "dnsControl \<Rightarrow> Endpoints list go" where
  "EndpointsList dns =
     (case dc_epLister dns of
        None \<Rightarrow> Panic NilDereference
      | Some ix \<Rightarrow> Ret (typed_loop cast_Endpoints [] (ix_List ix)))"

definition PodIndex :: "dnsControl \<Rightarrow> string \<Rightarrow> Pod list go" where
  "PodIndex dns ip =
     (case dc_podLister dns of
        None \<Rightarrow> Panic NilDereference
      | Some ix \<Rightarrow>
          (case ix_ByIndex ix podIPIndex ip of
             Inl err \<Rightarrow> Ret []
           | Inr os \<Rightarrow> Ret (typed_loop cast_Pod [] os)))"

definition SvcIndex :: "dnsControl \<Rightarrow> string \<Rightarrow> Service list go" where
  "SvcIndex dns idx =
     (case ix_ByIndex (dc_svcLister dns) svcNameNamespaceIndex idx of
        Inl err \<Rightarrow> Ret []
      | Inr os \<Rightarrow> Ret (typed_loop cast_Service [] os))"

definition SvcIndexReverse :: "dnsControl \<Rightarrow> string \<Rightarrow> Service list go" where
  "SvcIndexReverse dns ip =
     (case ix_ByIndex (dc_svcLister dns) svcIPIndex ip of
        Inl err \<Rightarrow> Ret []
      | Inr os \<Rightarrow> Ret (typed_loop cast_Service [] os))"

definition EpIndex :: "dnsControl \<Rightarrow> string \<Rightarrow> Endpoints list go" where
  "EpIndex dns idx =
     (case dc_epLister dns of
        None \<Rightarrow> Panic NilDereference
      | Some ix \<Rightarrow>
          (case ix_ByIndex ix epNameNamespaceIndex idx of
             Inl err \<Rightarrow> Ret []
           | Inr os \<Rightarrow> Ret (typed_loop cast_Endpoints [] os)))"

definition EpIndexReverse :: "dnsControl \<Rightarrow> string \<Rightarrow> Endpoints list go" where
  "EpIndexReverse dns ip =
     (case dc_epLister dns of
        None \<Rightarrow> Panic NilDereference
      | Some ix \<Rightarrow>
          (case ix_ByIndex ix epIPIndex ip of
             Inl err \<Rightarrow> Ret []
           | Inr os \<Rightarrow> Ret (typed_loop cast_Endpoints [] os)))"

text \<open>An \<open>api.Namespace\<close> is its name.\<close>

fun GetNamespaceByName_loop :: "string \<Rightarrow> obj list \<Rightarrow> go_err + string" where
  "GetNamespaceByName_loop name [] = Inl (OtherErr ''namespace not found'')"
| "GetNamespaceByName_loop name (ob # os) =
     (case ob of
        ObjNamespace ns \<Rightarrow> if name = ns then Inr ns else GetNamespaceByName_loop name os
      | _ \<Rightarrow> GetNamespaceByName_loop name os)"

definition GetNamespaceByName :: "dnsControl \<Rightarrow> string \<Rightarrow> go_err + string" where
  "GetNamespaceByName dns name = GetNamespaceByName_loop name (dc_nsLister dns)"

definition HasSynced :: "dnsControl \<Rightarrow> bool" where
  "HasSynced dns =
     (let a = dc_svcSynced dns;
          b = (case dc_epSynced dns of None \<Rightarrow> True | Some s \<Rightarrow> s);
          c = (case dc_podSynced dns of None \<Rightarrow> True | Some s \<Rightarrow> s);
          d = dc_nsSynced dns
      in a \<and> b \<and> c \<and> d)"

definition Modified :: "dnsControl \<Rightarrow> int" where
  "Modified dns = dc_modified dns"

section \<open>Changes\<close>

text \<open>The clock reading, in seconds since the epoch, is an argument.\<close>

definition updateModifed :: "int \<Rightarrow> dnsControl \<Rightarrow> dnsControl" where
  "updateModifed now dns = dns\<lparr>dc_modified := now\<rparr>"

text \<open>The loops over addresses and ports index both slices, which have the same length here.\<close>

fun addresses_loop :: "EndpointAddress list \<Rightarrow> EndpointAddress list \<Rightarrow> nat \<Rightarrow> nat \<Rightarrow> bool" where
  "addresses_loop as bs i 0 = True"
| "addresses_loop as bs i (Suc n) =
     (if ea_IP (as ! i) \<noteq> ea_IP (bs ! i) then False
      else if ea_Hostname (as ! i) \<noteq> ea_Hostname (bs ! i) then False
      else addresses_loop as bs (Suc i) n)"

fun ports_loop :: "EndpointPort list \<Rightarrow> EndpointPort list \<Rightarrow> nat \<Rightarrow> nat \<Rightarrow> bool" where
  "ports_loop as bs i 0 = True"
| "ports_loop as bs i (Suc n) =
     (if epp_Name (as ! i) \<noteq> epp_Name (bs ! i) then False
      else if epp_Port (as ! i) \<noteq> epp_Port (bs ! i) then False
      else if epp_Protocol (as ! i) \<noteq> epp_Protocol (bs ! i) then False
      else ports_loop as bs (Suc i) n)"

definition subsetsEquivalent :: "EndpointSubset \<Rightarrow> EndpointSubset \<Rightarrow> bool" where
  "subsetsEquivalent sa sb =
     (if length (sub_Addresses sa) \<noteq> length (sub_Addresses sb) then False
      else if length (sub_Ports sa) \<noteq> length (sub_Ports sb) then False
      else if \<not> addresses_loop (sub_Addresses sa) (sub_Addresses sb) 0 (length (sub_Addresses sa))
           then False
      else ports_loop (sub_Ports sa) (sub_Ports sb) 0 (length (sub_Ports sa)))"

fun subsets_loop :: "EndpointSubset list \<Rightarrow> EndpointSubset list \<Rightarrow> nat \<Rightarrow> nat \<Rightarrow> bool" where
  "subsets_loop as bs i 0 = True"
| "subsets_loop as bs i (Suc n) =
     (if \<not> subsetsEquivalent (as ! i) (bs ! i) then False else subsets_loop as bs (Suc i) n)"

text \<open>Both arguments are pointers and may be nil.\<close>

definition endpointsEquivalent :: "Endpoints option \<Rightarrow> Endpoints option \<Rightarrow> bool" where
  "endpointsEquivalent a b =
     (case (a, b) of
        (Some a, Some b) \<Rightarrow>
          if length (ep_Subsets a) \<noteq> length (ep_Subsets b) then False
          else subsets_loop (ep_Subsets a) (ep_Subsets b) 0 (length (ep_Subsets a))
      | _ \<Rightarrow> False)"

text \<open>\<open>o.(meta.Object).GetResourceVersion()\<close> on what a cache can hold.\<close>

definition resource_version :: "obj \<Rightarrow> string go" where
  "resource_version ob =
     (case ob of
        ObjService s \<Rightarrow> Ret (svc_Version s)
      | ObjEndpoints e \<Rightarrow> Ret (ep_Version e)
      | ObjPod p \<Rightarrow> Ret (pod_Version p)
      | _ \<Rightarrow> Panic FailedTypeAssertion)"

definition detectChanges ::
  "int \<Rightarrow> obj option \<Rightarrow> obj option \<Rightarrow> dnsControl \<Rightarrow> dnsControl go" where
  "detectChanges now oldObj newObj dns =
     go_bind
       (case (oldObj, newObj) of
          (Some ob, Some n) \<Rightarrow>
            go_bind (resource_version ob) (\<lambda>v. go_bind (resource_version n) (\<lambda>w. Ret (v = w)))
        | _ \<Rightarrow> Ret False)
       (\<lambda>same.
          if same then Ret dns
          else case (case newObj of Some n \<Rightarrow> Some n | None \<Rightarrow> oldObj) of
                 Some (ObjService _) \<Rightarrow> Ret (updateModifed now dns)
               | Some (ObjPod _) \<Rightarrow> Ret (updateModifed now dns)
               | Some (ObjEndpoints _) \<Rightarrow>
                   (case (oldObj, newObj) of
                      (Some (ObjEndpoints a), Some (ObjEndpoints b)) \<Rightarrow>
                        if \<not> endpointsEquivalent (Some a) (Some b)
                        then Ret (updateModifed now dns) else Ret dns
                    | _ \<Rightarrow> Panic FailedTypeAssertion)
               | _ \<Rightarrow> Ret dns)"

definition dnsControl_Add :: "int \<Rightarrow> obj \<Rightarrow> dnsControl \<Rightarrow> dnsControl" where
  "dnsControl_Add now ob dns = updateModifed now dns"

definition dnsControl_Delete :: "int \<Rightarrow> obj \<Rightarrow> dnsControl \<Rightarrow> dnsControl" where
  "dnsControl_Delete now ob dns = updateModifed now dns"

definition dnsControl_Update :: "int \<Rightarrow> obj \<Rightarrow> obj \<Rightarrow> dnsControl \<Rightarrow> dnsControl go" where
  "dnsControl_Update now oldObj newObj dns = detectChanges now (Some oldObj) (Some newObj) dns"

section \<open>Stopping\<close>

definition Stop :: "dnsControl \<Rightarrow> dnsControl \<times> go_err option go" where
  "Stop dns =
     (if \<not> dc_shutdown dns then
        (if dc_stopClosed dns then (dns, Panic CloseOfClosedChannel)
         else (dns\<lparr>dc_stopClosed := True, dc_shutdown := True\<rparr>, Ret None))
      else (dns, Ret (Some (OtherErr ''shutdown already in progress''))))"

section \<open>The interface the plugin sees\<close>

record dnsController =
  api_ServiceList :: "Service list go"
  api_EndpointsList :: "Endpoints list go"
  api_SvcIndex :: "string \<Rightarrow> Service list go"
  api_SvcIndexReverse :: "string \<Rightarrow> Service list go"
  api_PodIndex :: "string \<Rightarrow> Pod list go"
  api_EpIndex :: "string \<Rightarrow> Endpoints list go"
  api_EpIndexReverse :: "string \<Rightarrow> Endpoints list go"
  api_GetNamespaceByName :: "string \<Rightarrow> go_err + string"
  api_HasSynced :: bool
  api_Modified :: int

definition dnsControl_api :: "dnsControl \<Rightarrow> dnsController" where
  "dnsControl_api dns =
     \<lparr>api_ServiceList = ServiceList dns,
      api_EndpointsList = EndpointsList dns,
      api_SvcIndex = SvcIndex dns,
      api_SvcIndexReverse = SvcIndexReverse dns,
      api_PodIndex = PodIndex dns,
      api_EpIndex = EpIndex dns,
      api_EpIndexReverse = EpIndexReverse dns,
      api_GetNamespaceByName = GetNamespaceByName dns,
      api_HasSynced = HasSynced dns,
      api_Modified = Modified dns\<rparr>"

section \<open>Comparing endpoints\<close>

lemma addresses_loop_iff:
  "addresses_loop as bs i n \<longleftrightarrow>
     (\<forall>j < n. ea_IP (as ! (i + j)) = ea_IP (bs ! (i + j)) \<and>
              ea_Hostname (as ! (i + j)) = ea_Hostname (bs ! (i + j)))"
  by (induction as bs i n rule: addresses_loop.induct) (auto simp: All_less_Suc2)

lemma ports_loop_iff:
  "ports_loop as bs i n \<longleftrightarrow> (\<forall>j < n. as ! (i + j) = (bs ! (i + j) :: EndpointPort))"
  by (induction as bs i n rule: ports_loop.induct) (auto simp: All_less_Suc2)

lemma subsets_loop_iff:
  "subsets_loop as bs i n \<longleftrightarrow> (\<forall>j < n. subsetsEquivalent (as ! (i + j)) (bs ! (i + j)))"
  by (induction as bs i n rule: subsets_loop.induct) (auto simp: All_less_Suc2)

text \<open>What a DNS answer can show of an address: its IP and its host name.\<close>

definition dns_view :: "EndpointSubset \<Rightarrow> (string \<times> string) list \<times> EndpointPort list" where
  "dns_view s = (map (\<lambda>a. (ea_IP a, ea_Hostname a)) (sub_Addresses s), sub_Ports s)"

lemma subsetsEquivalent_iff: "subsetsEquivalent sa sb \<longleftrightarrow> dns_view sa = dns_view sb"
  by (auto simp: subsetsEquivalent_def dns_view_def addresses_loop_iff ports_loop_iff
        list_eq_iff_nth_eq)

interpretation subset_eq: equivalence subsetsEquivalent
  by unfold_locales (auto simp: subsetsEquivalent_iff)

lemma endpointsEquivalent_iff:
  "endpointsEquivalent (Some a) (Some b) \<longleftrightarrow>
     list_all2 subsetsEquivalent (ep_Subsets a) (ep_Subsets b)"
  by (auto simp: endpointsEquivalent_def subsets_loop_iff list_all2_conv_all_nth)

interpretation endpoints_eq: equivalence "\<lambda>a b. endpointsEquivalent (Some a) (Some b)"
  by unfold_locales
    (auto simp: endpointsEquivalent_iff intro: subset_eq.lists_refl subset_eq.lists_sym
       subset_eq.lists_trans)

lemma list_all2_subsets_map:
  "list_all2 subsetsEquivalent as bs \<longleftrightarrow> map dns_view as = map dns_view bs"
  by (auto simp: list_all2_conv_all_nth subsetsEquivalent_iff list_eq_iff_nth_eq)

section \<open>Lookups over lawful stores\<close>

lemma typed_loop_eq: "typed_loop cast acc os = acc @ List.map_filter cast os"
  by (induction cast acc os rule: typed_loop.induct) (auto split: option.splits)

text \<open>
  Documented behaviour of a client-go indexer built with named index functions: looking a value up
  in an index returns the stored objects whose index function yields that value, in some order.
\<close>

definition lawful_store :: "(string \<times> (obj \<Rightarrow> go_err + string list)) list \<Rightarrow> indexer \<Rightarrow> bool" where
  "lawful_store idx ix \<longleftrightarrow>
     (\<forall>(n, f) \<in> set idx. \<forall>v. \<exists>os. ix_ByIndex ix n v = Inr os \<and>
        set os = {ob \<in> set (ix_List ix). \<exists>vs. f ob = Inr vs \<and> v \<in> set vs})"

definition svc_indexers :: "(string \<times> (obj \<Rightarrow> go_err + string list)) list" where
  "svc_indexers =
     [(svcNameNamespaceIndex, svcNameNamespaceIndexFunc), (svcIPIndex, svcIPIndexFunc)]"

definition pod_indexers :: "(string \<times> (obj \<Rightarrow> go_err + string list)) list" where
  "pod_indexers = [(podIPIndex, podIPIndexFunc)]"

definition ep_indexers :: "(string \<times> (obj \<Rightarrow> go_err + string list)) list" where
  "ep_indexers = [(epNameNamespaceIndex, epNameNamespaceIndexFunc), (epIPIndex, epIPIndexFunc)]"

lemmas index_func_defs =
  podIPIndexFunc_def svcIPIndexFunc_def svcNameNamespaceIndexFunc_def epNameNamespaceIndexFunc_def
  epIPIndexFunc_def cast_Service_def cast_Endpoints_def cast_Pod_def

text \<open>
  The contract of the interface \<open>dnsController\<close>: what the cache holds, and that each index lookup
  returns exactly the cached objects with that key.
\<close>

locale controller_contract =
  fixes api :: dnsController
    and svcs :: "Service set"
    and eps :: "Endpoints set"
    and nss :: "string set"
  assumes services: "\<exists>ss. api_ServiceList api = Ret ss \<and> set ss = svcs"
    and endpoints: "\<exists>es. api_EndpointsList api = Ret es \<and> set es = eps"
    and by_name: "\<exists>ss. api_SvcIndex api k = Ret ss \<and> set ss = {s \<in> svcs. svc_Index s = k}"
    and by_ip: "\<exists>ss. api_SvcIndexReverse api ip = Ret ss \<and>
                  set ss = {s \<in> svcs. ip \<in> insert (svc_ClusterIP s) (set (svc_ExternalIPs s))}"
    and ep_by_name: "\<exists>es. api_EpIndex api k = Ret es \<and> set es = {e \<in> eps. ep_Index e = k}"
    and ep_by_ip: "\<exists>es. api_EpIndexReverse api ip = Ret es \<and>
                     set es = {e \<in> eps. ip \<in> set (ep_IndexIP e)}"
    and namespaces: "api_GetNamespaceByName api ns = Inr m \<longleftrightarrow> m = ns \<and> ns \<in> nss"
begin

lemma lookup_no_panic:
  "\<not> panics (api_SvcIndex api k) \<and> \<not> panics (api_EpIndex api k) \<and>
   \<not> panics (api_SvcIndexReverse api k) \<and> \<not> panics (api_EpIndexReverse api k) \<and>
   \<not> panics (api_ServiceList api) \<and> \<not> panics (api_EndpointsList api)"
  using by_name [of k] ep_by_name [of k] by_ip [of k] ep_by_ip [of k] services endpoints by auto

lemma index_within_list:
  "api_SvcIndex api k = Ret ss \<Longrightarrow> api_ServiceList api = Ret all \<Longrightarrow>
   set ss = {s \<in> set all. svc_Index s = k}"
  using by_name [of k] services by auto

end

text \<open>
  A weaker contract: the lookups return at all, those of pods only when pods are cached.
\<close>

locale total_controller =
  fixes api :: dnsController and pod_cache :: bool
  assumes ServiceList_returns: "\<exists>v. api_ServiceList api = Ret v"
    and EndpointsList_returns: "\<exists>v. api_EndpointsList api = Ret v"
    and SvcIndex_returns: "\<exists>v. api_SvcIndex api i = Ret v"
    and SvcIndexReverse_returns: "\<exists>v. api_SvcIndexReverse api i = Ret v"
    and EpIndex_returns: "\<exists>v. api_EpIndex api i = Ret v"
    and EpIndexReverse_returns: "\<exists>v. api_EpIndexReverse api i = Ret v"
    and PodIndex_returns: "pod_cache \<Longrightarrow> \<exists>v. api_PodIndex api i = Ret v"

sublocale controller_contract \<subseteq> returning: total_controller api False
  by unfold_locales (use services endpoints by_name by_ip ep_by_name ep_by_ip in blast)+

definition cached_services :: "dnsControl \<Rightarrow> Service set" where
  "cached_services c = {s. ObjService s \<in> set (ix_List (dc_svcLister c))}"

definition cached_pods :: "dnsControl \<Rightarrow> Pod set" where
  "cached_pods c = {p. \<exists>ix. dc_podLister c = Some ix \<and> ObjPod p \<in> set (ix_List ix)}"

definition cached_endpoints :: "dnsControl \<Rightarrow> Endpoints set" where
  "cached_endpoints c =
     {e. \<exists>ix. dc_epLister c = Some ix \<and> ObjEndpoints e \<in> set (ix_List ix)}"

definition cached_namespaces :: "dnsControl \<Rightarrow> string set" where
  "cached_namespaces c = {n. ObjNamespace n \<in> set (dc_nsLister c)}"

locale lawful_control =
  fixes c :: dnsControl
  assumes svc_store: "lawful_store svc_indexers (dc_svcLister c)"
    and ep_store: "\<exists>ix. dc_epLister c = Some ix \<and> lawful_store ep_indexers ix"

lemma GetNamespaceByName_loop_iff:
  "GetNamespaceByName_loop n os = Inr m \<longleftrightarrow> m = n \<and> ObjNamespace n \<in> set os"
  by (induction n os rule: GetNamespaceByName_loop.induct) (auto split: obj.splits)

lemma lawful_storeD:
  "lawful_store idx ix \<Longrightarrow> (n, f) \<in> set idx \<Longrightarrow>
   \<exists>os. ix_ByIndex ix n v = Inr os \<and>
        set os = {ob \<in> set (ix_List ix). \<exists>vs. f ob = Inr vs \<and> v \<in> set vs}"
  by (auto simp: lawful_store_def)

lemma cast_iff:
  "cast_Service ob = Some s \<longleftrightarrow> ob = ObjService s"
  "cast_Endpoints ob = Some e \<longleftrightarrow> ob = ObjEndpoints e"
  "cast_Pod ob = Some p \<longleftrightarrow> ob = ObjPod p"
  by (cases ob; auto simp: cast_Service_def cast_Endpoints_def cast_Pod_def)+

lemma cast_set:
  "set (List.map_filter cast_Service os) = {s. ObjService s \<in> set os}"
  "set (List.map_filter cast_Endpoints os) = {e. ObjEndpoints e \<in> set os}"
  "set (List.map_filter cast_Pod os) = {p. ObjPod p \<in> set os}"
  by (auto simp: set_map_filter cast_iff)

sublocale lawful_control \<subseteq>
  controller_contract "dnsControl_api c" "cached_services c" "cached_endpoints c"
    "cached_namespaces c"
proof
  obtain ix where ix: "dc_epLister c = Some ix" "lawful_store ep_indexers ix"
    using ep_store by blast
  show "\<exists>ss. api_ServiceList (dnsControl_api c) = Ret ss \<and> set ss = cached_services c"
    by (simp add: dnsControl_api_def ServiceList_def typed_loop_eq cast_set cached_services_def)
  show "\<exists>es. api_EndpointsList (dnsControl_api c) = Ret es \<and> set es = cached_endpoints c"
    by (simp add: dnsControl_api_def EndpointsList_def typed_loop_eq cast_set
          cached_endpoints_def ix)
  show "\<exists>ss. api_SvcIndex (dnsControl_api c) k = Ret ss \<and>
          set ss = {s \<in> cached_services c. svc_Index s = k}" for k
    using lawful_storeD [OF svc_store, of svcNameNamespaceIndex svcNameNamespaceIndexFunc k]
    by (auto simp: dnsControl_api_def SvcIndex_def typed_loop_eq cast_set cached_services_def
          svc_indexers_def svcNameNamespaceIndexFunc_def)
  show "\<exists>ss. api_SvcIndexReverse (dnsControl_api c) ip = Ret ss \<and>
          set ss = {s \<in> cached_services c. ip \<in> insert (svc_ClusterIP s) (set (svc_ExternalIPs s))}"
    for ip
    using lawful_storeD [OF svc_store, of svcIPIndex svcIPIndexFunc ip]
    by (auto simp: dnsControl_api_def SvcIndexReverse_def typed_loop_eq cast_set
          cached_services_def svc_indexers_def svcIPIndexFunc_def split: if_splits)
  show "\<exists>es. api_EpIndex (dnsControl_api c) k = Ret es \<and>
          set es = {e \<in> cached_endpoints c. ep_Index e = k}" for k
    using lawful_storeD [OF ix(2), of epNameNamespaceIndex epNameNamespaceIndexFunc k]
    by (auto simp: dnsControl_api_def EpIndex_def typed_loop_eq cast_set cached_endpoints_def ix
          ep_indexers_def epNameNamespaceIndexFunc_def)
  show "\<exists>es. api_EpIndexReverse (dnsControl_api c) ip = Ret es \<and>
          set es = {e \<in> cached_endpoints c. ip \<in> set (ep_IndexIP e)}" for ip
    using lawful_storeD [OF ix(2), of epIPIndex epIPIndexFunc ip]
    by (auto simp: dnsControl_api_def EpIndexReverse_def typed_loop_eq cast_set
          cached_endpoints_def ix ep_indexers_def epIPIndexFunc_def)
  show "api_GetNamespaceByName (dnsControl_api c) ns = Inr m \<longleftrightarrow>
          m = ns \<and> ns \<in> cached_namespaces c" for ns m
    by (simp add: dnsControl_api_def GetNamespaceByName_def GetNamespaceByName_loop_iff
          cached_namespaces_def)
qed

context lawful_control
begin

lemma lookups_exact:
  "\<exists>ss rs es qs.
    SvcIndex c k = Ret ss \<and> set ss = {s \<in> cached_services c. svc_Index s = k} \<and>
    SvcIndexReverse c k = Ret rs \<and>
      set rs = {s \<in> cached_services c. k \<in> insert (svc_ClusterIP s) (set (svc_ExternalIPs s))} \<and>
    EpIndex c k = Ret es \<and> set es = {e \<in> cached_endpoints c. ep_Index e = k} \<and>
    EpIndexReverse c k = Ret qs \<and> set qs = {e \<in> cached_endpoints c. k \<in> set (ep_IndexIP e)}"
  using by_name [of k] by_ip [of k] ep_by_name [of k] ep_by_ip [of k]
  by (simp add: dnsControl_api_def)

end

text \<open>
  A store that holds a list of objects and looks them up with its index functions, and the
  controller built over such stores: for any cache contents the contract holds.
\<close>

definition store_of :: "(string \<times> (obj \<Rightarrow> go_err + string list)) list \<Rightarrow> obj list \<Rightarrow> indexer" where
  "store_of idx objs =
     \<lparr>ix_List = objs,
      ix_ByIndex = (\<lambda>n v. case map_of idx n of
          None \<Rightarrow> Inl (OtherErr ''Index with name does not exist'')
        | Some f \<Rightarrow> Inr (filter (\<lambda>ob. case f ob of Inl _ \<Rightarrow> False | Inr vs \<Rightarrow> v \<in> set vs) objs))\<rparr>"

lemma case_sum_Inr_iff:
  "(case s of Inl _ \<Rightarrow> False | Inr v \<Rightarrow> P v) \<longleftrightarrow> (\<exists>v. s = Inr v \<and> P v)"
  by (cases s) auto

lemma store_of_lawful: "distinct (map fst idx) \<Longrightarrow> lawful_store idx (store_of idx objs)"
  by (auto simp: lawful_store_def store_of_def case_sum_Inr_iff)

definition stores :: "obj list \<Rightarrow> obj list \<Rightarrow> obj list \<Rightarrow> obj list \<Rightarrow> informers" where
  "stores svcs pods eps nss =
     \<lparr>inf_svc = store_of svc_indexers svcs, inf_pod = store_of pod_indexers pods,
      inf_ep = store_of ep_indexers eps, inf_ns = nss\<rparr>"

interpretation stored: lawful_control
  "newdnsController (stores svcs pods eps nss) (opts\<lparr>opt_initEndpointsCache := True\<rparr>)"
  for svcs pods eps nss opts
  by unfold_locales
    (simp_all add: newdnsController_def stores_def store_of_lawful svc_indexers_def ep_indexers_def)

lemma newdnsController_total:
  assumes "opt_initEndpointsCache opts"
  shows "total_controller (dnsControl_api (newdnsController infs opts)) (opt_initPodCache opts)"
  using assms
  by unfold_locales
    (simp_all add: dnsControl_api_def newdnsController_def EndpointsList_def EpIndex_def ServiceList_def
      SvcIndex_def PodIndex_def SvcIndexReverse_def EpIndexReverse_def split: sum.splits)

interpretation caching: total_controller
  "dnsControl_api (newdnsController infs (opts\<lparr>opt_initEndpointsCache := True\<rparr>))" "opt_initPodCache opts"
  for infs opts
  using newdnsController_total [of "opts\<lparr>opt_initEndpointsCache := True\<rparr>"] by simp

section \<open>The controller's life cycle\<close>

text \<open>
  What happens to a controller: cache events, each with the clock reading, and calls of \<open>Stop\<close>.
\<close>

datatype control_event =
    EvAdd int obj
  | EvUpdate int obj obj
  | EvDelete int obj
  | EvStop

fun control_step :: "control_event \<Rightarrow> dnsControl \<Rightarrow> dnsControl" where
  "control_step (EvAdd now ob) dns = dnsControl_Add now ob dns"
| "control_step (EvUpdate now oldOb newOb) dns =
     (case dnsControl_Update now oldOb newOb dns of Ret dns' \<Rightarrow> dns' | Panic _ \<Rightarrow> dns)"
| "control_step (EvDelete now ob) dns = dnsControl_Delete now ob dns"
| "control_step EvStop dns = fst (Stop dns)"

text \<open>The stop channel is closed exactly when shutdown has begun.\<close>

definition stop_inv :: "dnsControl \<Rightarrow> bool" where
  "stop_inv dns \<longleftrightarrow> dc_stopClosed dns = dc_shutdown dns"

lemma detectChanges_Ret_cases:
  "detectChanges now a b dns = Ret dns' \<Longrightarrow> dns' = dns \<or> dns' = dns\<lparr>dc_modified := now\<rparr>"
  by (auto simp: detectChanges_def updateModifed_def go_bind_eq_Ret
        split: option.splits obj.splits if_splits)

lemma control_step_shutdown [frame_simps]:
  "e \<noteq> EvStop \<Longrightarrow> dc_shutdown (control_step e dns) = dc_shutdown dns"
  "e \<noteq> EvStop \<Longrightarrow> dc_stopClosed (control_step e dns) = dc_stopClosed dns"
  by (cases e; auto simp: dnsControl_Add_def dnsControl_Delete_def dnsControl_Update_def
        updateModifed_def split: go.splits dest!: detectChanges_Ret_cases)+

interpretation control: invariant_machine control_step stop_inv
proof
  fix s e assume "stop_inv s"
  then show "stop_inv (control_step e s)"
    by (cases "e = EvStop") (auto simp: stop_inv_def frame_simps Stop_def)
qed

lemma stop_inv_new: "stop_inv (newdnsController infs opts)"
  by (simp add: stop_inv_def newdnsController_def)

lemma shutdown_run:
  "stop_inv dns \<Longrightarrow> dc_shutdown (fold control_step es dns) \<longleftrightarrow> dc_shutdown dns \<or> EvStop \<in> set es"
proof (induction es arbitrary: dns)
  case (Cons e es)
  have "dc_shutdown (control_step e dns) \<longleftrightarrow> dc_shutdown dns \<or> e = EvStop"
    using Cons.prems by (cases "e = EvStop") (auto simp: frame_simps Stop_def stop_inv_def)
  with Cons show ?case by (auto simp: control.step_keeps)
qed simp

section \<open>Properties\<close>

text \<open>
  Two endpoints objects are equivalent exactly when they agree on the subsets in order, with the
  same addresses and host names and the same ports.  Node names and the names of target references
  are not compared, although the latter give the host names of endpoints without one when the option
  \<open>endpoint_pod_names\<close> is set.  Nothing is equivalent to a nil pointer.
\<close>

theorem endpointsEquivalent_same_answers:
  "(endpointsEquivalent (Some a) (Some b) \<longleftrightarrow>
      map dns_view (ep_Subsets a) = map dns_view (ep_Subsets b)) \<and>
   \<not> endpointsEquivalent None b' \<and> \<not> endpointsEquivalent a' None"
  by (simp add: endpointsEquivalent_iff list_all2_subsets_map)
    (simp add: endpointsEquivalent_def split: option.splits)

text \<open>
  An update event moves the modification time exactly when the resource versions differ and,
  for endpoints, the answers differ too; it never panics on two objects of one kind.
\<close>

theorem Update_modified:
  "dnsControl_Update now (ObjEndpoints a) (ObjEndpoints b) dns =
     Ret (if ep_Version a = ep_Version b \<or>
             map dns_view (ep_Subsets a) = map dns_view (ep_Subsets b)
          then dns else dns\<lparr>dc_modified := now\<rparr>) \<and>
   dnsControl_Update now (ObjService s) (ObjService t) dns =
     Ret (if svc_Version s = svc_Version t then dns else dns\<lparr>dc_modified := now\<rparr>) \<and>
   dnsControl_Update now (ObjPod p) (ObjPod q) dns =
     Ret (if pod_Version p = pod_Version q then dns else dns\<lparr>dc_modified := now\<rparr>)"
  by (auto simp: dnsControl_Update_def detectChanges_def resource_version_def updateModifed_def
        endpointsEquivalent_iff list_all2_subsets_map)

text \<open>
  C35: over any run of a new controller, \<open>Stop\<close> closes the stop channel at the first call and only
  then; the first call succeeds, every later one reports that shutdown is in progress, and none
  panics by closing the channel twice.
\<close>

theorem Stop_once:
  "snd (Stop (fold control_step es (newdnsController infs opts))) =
     Ret (if EvStop \<in> set es then Some (OtherErr ''shutdown already in progress'') else None) \<and>
   dc_stopClosed (fold control_step es (newdnsController infs opts)) = (EvStop \<in> set es)"
proof -
  let ?d = "fold control_step es (newdnsController infs opts)"
  have "stop_inv ?d" by (rule control.run_keeps [OF stop_inv_new])
  moreover have "dc_shutdown ?d = (EvStop \<in> set es)"
    using shutdown_run [OF stop_inv_new] by (simp add: newdnsController_def)
  ultimately show ?thesis by (auto simp: Stop_def stop_inv_def)
qed

lemma PodIndex_exact:
  assumes "dc_podLister c = Some ix" "lawful_store pod_indexers ix"
  shows "\<exists>ps. PodIndex c ip = Ret ps \<and> set ps = {p \<in> cached_pods c. pod_PodIP p = ip}"
  using lawful_storeD [OF assms(2), of podIPIndex podIPIndexFunc ip]
  by (auto simp: PodIndex_def cached_pods_def assms(1) typed_loop_eq cast_set pod_indexers_def
        podIPIndexFunc_def)

text \<open>
  C12: over lawful stores each of the five index lookups returns exactly the cached objects with
  that key: services and endpoints by name and namespace, services by any of their own or external
  addresses, endpoints by any of their addresses, and, where the controller has a pod cache, pods by
  their address; objects of another type are skipped.
\<close>

theorem index_lookups_exact:
  assumes "lawful_store svc_indexers (dc_svcLister c)"
    and "dc_epLister c = Some ix" and "lawful_store ep_indexers ix"
  shows "\<exists>ss rs es qs.
    SvcIndex c k = Ret ss \<and> set ss = {s \<in> cached_services c. svc_Index s = k} \<and>
    SvcIndexReverse c k = Ret rs \<and>
      set rs = {s \<in> cached_services c. k \<in> insert (svc_ClusterIP s) (set (svc_ExternalIPs s))} \<and>
    EpIndex c k = Ret es \<and> set es = {e \<in> cached_endpoints c. ep_Index e = k} \<and>
    EpIndexReverse c k = Ret qs \<and> set qs = {e \<in> cached_endpoints c. k \<in> set (ep_IndexIP e)} \<and>
    (\<forall>px. dc_podLister c = Some px \<and> lawful_store pod_indexers px \<longrightarrow>
       (\<exists>ps. PodIndex c k = Ret ps \<and> set ps = {p \<in> cached_pods c. pod_PodIP p = k}))"
proof -
  have "lawful_control c" using assms by unfold_locales auto
  from lawful_control.lookups_exact [OF this, of k] PodIndex_exact [of c _ k]
  show ?thesis by blast
qed

definition example_service :: Service where
  "example_service =
     \<lparr>svc_Version = ''1'', svc_Name = ''svc1'', svc_Namespace = ''testns'',
      svc_Index = ''svc1.testns'', svc_ClusterIP = ''10.0.0.1'', svc_Type = ServiceTypeClusterIP,
      svc_ExternalName = [],
      svc_Ports = [\<lparr>sp_Name = ''http'', sp_Protocol = ''tcp'', sp_Port = 80\<rparr>],
      svc_ExternalIPs = [''1.2.3.4'']\<rparr>"

definition example_control :: dnsControl where
  "example_control =
     newdnsController
       (stores [ObjOther ''x'', ObjService example_service] [] [] [ObjNamespace ''testns''])
       \<lparr>opt_initPodCache = False, opt_initEndpointsCache = True, opt_ignoreEmptyService = False\<rparr>"

definition full_pod :: Pod where
  "full_pod = \<lparr>pod_Version = ''1'', pod_PodIP = ''10.1.2.3'', pod_Name = ''p'', pod_Namespace = ''testns''\<rparr>"

text \<open>The same with a pod cache.\<close>

definition full_control :: dnsControl where
  "full_control =
     newdnsController
       (stores [ObjOther ''x'', ObjService example_service] [ObjPod full_pod] [] [ObjNamespace ''testns''])
       \<lparr>opt_initPodCache = True, opt_initEndpointsCache = True, opt_ignoreEmptyService = False\<rparr>"

lemma full_control_stores:
  "dc_svcLister full_control = store_of svc_indexers [ObjOther ''x'', ObjService example_service]"
  "dc_epLister full_control = Some (store_of ep_indexers [])"
  "dc_podLister full_control = Some (store_of pod_indexers [ObjPod full_pod])"
  by (simp_all add: full_control_def newdnsController_def stores_def)

lemma full_control_lawful:
  "lawful_store svc_indexers (dc_svcLister full_control)"
  "lawful_store ep_indexers (store_of ep_indexers [])"
  "lawful_store pod_indexers (store_of pod_indexers [ObjPod full_pod])"
  by (simp_all add: full_control_stores store_of_lawful svc_indexers_def ep_indexers_def
        pod_indexers_def)

theorem index_lookups_exact_witness:
  "(\<exists>ss. SvcIndex full_control ''svc1.testns'' = Ret ss \<and> set ss = {example_service}) \<and>
   (\<exists>rs. SvcIndexReverse full_control ''1.2.3.4'' = Ret rs \<and> set rs = {example_service}) \<and>
   (\<exists>ps. PodIndex full_control ''10.1.2.3'' = Ret ps \<and> set ps = {full_pod})"
proof -
  have "{s \<in> cached_services full_control. svc_Index s = ''svc1.testns''} = {example_service}"
    "{s \<in> cached_services full_control. ''1.2.3.4'' \<in> insert (svc_ClusterIP s) (set (svc_ExternalIPs s))}
       = {example_service}"
    "{p \<in> cached_pods full_control. pod_PodIP p = ''10.1.2.3''} = {full_pod}"
    by (auto simp: cached_services_def cached_pods_def full_control_stores store_of_def
          example_service_def full_pod_def)
  with index_lookups_exact [OF full_control_lawful(1) full_control_stores(2) full_control_lawful(2),
      of "''svc1.testns''"]
    index_lookups_exact [OF full_control_lawful(1) full_control_stores(2) full_control_lawful(2),
      of "''1.2.3.4''"]
    index_lookups_exact [OF full_control_lawful(1) full_control_stores(2) full_control_lawful(2),
      of "''10.1.2.3''"]
    full_control_stores(3) full_control_lawful(3)
  show ?thesis by auto
qed

text \<open>
  With the option \<open>noendpoints\<close> there is no endpoints store, and each of the three endpoint
  lookups dereferences a nil interface; without verified pods so does \<open>PodIndex\<close>.
\<close>

theorem missing_store_panics:
  "(panics (EpIndex (newdnsController infs opts) k) \<longleftrightarrow> \<not> opt_initEndpointsCache opts) \<and>
   (panics (EpIndexReverse (newdnsController infs opts) k) \<longleftrightarrow> \<not> opt_initEndpointsCache opts) \<and>
   (panics (EndpointsList (newdnsController infs opts)) \<longleftrightarrow> \<not> opt_initEndpointsCache opts) \<and>
   (panics (PodIndex (newdnsController infs opts) ip) \<longleftrightarrow> \<not> opt_initPodCache opts)"
  by (simp add: newdnsController_def EpIndex_def EpIndexReverse_def EndpointsList_def PodIndex_def
        split: sum.splits)

end
