(* ===== verification/Chaos.thy ===== *)
theory Chaos
  imports Objects Extern
begin

text \<open>
  \<open>src/chaos.go\<close>: which pods are under chaos, how a query is matched against them, and the forged
  answers.

  \<open>PodInfo\<close> values are shared: the two maps of the registry hold pointers to them, and
  \<open>getChaosPod\<close> writes through one.  The registry state therefore has a store from addresses to
  \<open>PodInfo\<close> values, and the maps hold addresses.  The Kubernetes API client, the clock, the random
  source and the pattern trie are arguments.
\<close>

section \<open>Data\<close>

abbreviation ScopeInner :: string where "ScopeInner \<equiv> ''inner''"
abbreviation ScopeOuter :: string where "ScopeOuter \<equiv> ''outer''"
abbreviation ScopeAll :: string where "ScopeAll \<equiv> ''all''"
abbreviation ActionError :: string where "ActionError \<equiv> ''error''"
abbreviation ActionRandom :: string where "ActionRandom \<equiv> ''random''"

text \<open>
  The pattern trie of \<open>tidb-tools\<close>: an empty trie, insertion of a pattern with the rule \<open>true\<close>
  (which can fail), and the rules that match a name; a rule comes back as an interface value.
\<close>

datatype iface = IBool bool | IOther

record 'sel trie_lib =
  NewTrieSelector :: 'sel
  trie_Insert :: "'sel \<Rightarrow> string \<Rightarrow> string \<Rightarrow> bool \<Rightarrow> go_err + 'sel"
  trie_Match :: "'sel \<Rightarrow> string \<Rightarrow> string \<Rightarrow> iface list"

text \<open>Times are nanoseconds; a nil selector is \<open>None\<close>.\<close>

record 'sel PodInfo =
  pi_Namespace :: string
  pi_Name :: string
  pi_Action :: string
  pi_Scope :: string
  pi_Selector :: "'sel option"
  pi_IP :: string
  pi_LastUpdateTime :: int

record pb_Pod =
  pp_Namespace :: string
  pp_Name :: string

record SetDNSChaosRequest =
  req_Name :: string
  req_Pods :: "pb_Pod list"
  req_Action :: string
  req_Scope :: string
  req_Selector :: string
  req_Patterns :: "string list"

type_synonym addr = nat
type_synonym pod_table = "(string, (string, addr) fmap) fmap"

record 'sel registry =
  chaosMap :: "(string, SetDNSChaosRequest) fmap"
  podMap :: pod_table
  ipPodMap :: "(string, addr) fmap"
  pod_heap :: "(addr, 'sel PodInfo) fmap"
  heap_next :: addr

definition empty_registry :: "'sel registry" where
  "empty_registry =
     \<lparr>chaosMap = fmempty, podMap = fmempty, ipPodMap = fmempty, pod_heap = fmempty,
      heap_next = 0\<rparr>"

text \<open>
  The Kubernetes client at the moment of a call: \<open>Pods(namespace)\<close> is an interface that may be
  nil, and \<open>Get\<close> returns a pointer and an error.
\<close>

type_synonym pod_client = "string \<Rightarrow> (string \<Rightarrow> api_Pod option \<times> go_err option) option"

section \<open>Operations\<close>

definition IsOverdue :: "int \<Rightarrow> 'sel PodInfo \<Rightarrow> bool" where
  "IsOverdue now p = (if now - pi_LastUpdateTime p > 1000000000 * 10 then True else False)"

definition getPodFromCluster ::
  "pod_client \<Rightarrow> string \<Rightarrow> string \<Rightarrow> api_Pod option \<times> go_err option" where
  "getPodFromCluster client namespace name =
     (case client namespace of None \<Rightarrow> (None, None) | Some get \<Rightarrow> get name)"

text \<open>
  The clock is read twice: for the age of the entry and, after the answer of the API server, for
  its new time stamp.  An address always has a value in a well-formed registry.
\<close>

definition getChaosPod ::
  "pod_client \<Rightarrow> int \<Rightarrow> int \<Rightarrow> string \<Rightarrow> 'sel registry \<Rightarrow>
   'sel registry \<times> (addr option \<times> go_err option) go" where
  "getChaosPod client now now' ip k =
     (case fmlookup (ipPodMap k) ip of
        None \<Rightarrow> (k, Ret (None, None))
      | Some a \<Rightarrow>
         (case fmlookup (pod_heap k) a of
            None \<Rightarrow> (k, Panic NilDereference)
          | Some podInfo \<Rightarrow>
              if IsOverdue now podInfo then
                (case getPodFromCluster client (pi_Namespace podInfo) (pi_Name podInfo) of
                   (v1Pod, Some err) \<Rightarrow> (k, Ret (None, Some err))
                 | (None, None) \<Rightarrow> (k, Panic NilDereference)
                 | (Some v1Pod, None) \<Rightarrow>
                     if ap_PodIP v1Pod \<noteq> pi_IP podInfo then
                       (let podInfo = podInfo\<lparr>pi_IP := ap_PodIP v1Pod,
                                              pi_LastUpdateTime := now'\<rparr>;
                            k = k\<lparr>pod_heap := fmupd a podInfo (pod_heap k)\<rparr>;
                            k = k\<lparr>ipPodMap := fmdrop (pi_IP podInfo) (ipPodMap k)\<rparr>;
                            k = k\<lparr>ipPodMap := fmupd (ap_PodIP v1Pod) a (ipPodMap k)\<rparr>
                        in (k, Ret (Some a, None)))
                     else (k, Ret (Some a, None)))
              else (k, Ret (Some a, None))))"

definition needChaos :: "'sel trie_lib \<Rightarrow> 'sel PodInfo option \<Rightarrow> string \<Rightarrow> bool go" where
  "needChaos trie podInfo name =
     (case podInfo of
        None \<Rightarrow> Ret False
      | Some p \<Rightarrow>
          if pi_Scope p = ScopeAll then Ret True
          else case pi_Selector p of
                 None \<Rightarrow> Panic NilDereference
               | Some sel \<Rightarrow>
                   let rules = trie_Match trie sel name '''' in
                   (case rules of
                      [] \<Rightarrow> Ret False
                    | rule # _ \<Rightarrow> (case rule of IBool m \<Rightarrow> Ret m | IOther \<Rightarrow> Ret False)))"

text \<open>\<open>rand.Intn(n)\<close> is a draw reduced below \<open>n\<close>; the draws are a parameter.\<close>

definition Intn :: "nat \<Rightarrow> nat \<Rightarrow> nat" where
  "Intn n draw = draw mod n"

fun random_bytes :: "(nat \<Rightarrow> nat) \<Rightarrow> nat \<Rightarrow> nat \<Rightarrow> byte list \<Rightarrow> byte list" where
  "random_bytes draws i 0 nums = nums"
| "random_bytes draws i (Suc n) nums =
     random_bytes draws (Suc i) n (nums @ [of_nat (Intn 255 (draws i))])"

definition getRandomIPv4 :: "(nat \<Rightarrow> nat) \<Rightarrow> IP" where
  "getRandomIPv4 draws =
     (let nums = random_bytes draws 0 4 [] in IPv4 (nums ! 0) (nums ! 1) (nums ! 2) (nums ! 3))"

text \<open>A nil \<open>dns.RR\<close>, as \<open>make\<close> fills a slice of them.\<close>

definition nil_RR :: RR where
  "nil_RR = RR_Other \<lparr>hdr_Name = [], hdr_Rrtype = 0, hdr_Class = 0, hdr_Ttl = 0\<rparr> ''nil''"

definition chaos_a :: "string \<Rightarrow> uint32 \<Rightarrow> IP list \<Rightarrow> RR list" where
  "chaos_a zone ttl ips =
     range_fill
       (\<lambda>ip. RR_A \<lparr>hdr_Name = zone, hdr_Rrtype = TypeA, hdr_Class = ClassINET, hdr_Ttl = ttl\<rparr> ip)
       (replicate (length ips) nil_RR) ips"

definition chaos_aaaa :: "string \<Rightarrow> uint32 \<Rightarrow> IP list \<Rightarrow> RR list" where
  "chaos_aaaa zone ttl ips =
     range_fill
       (\<lambda>ip. RR_AAAA \<lparr>hdr_Name = zone, hdr_Rrtype = TypeAAAA, hdr_Class = ClassINET,
                       hdr_Ttl = ttl\<rparr> ip)
       (replicate (length ips) nil_RR) ips"

definition fixed_IPv6 :: IP where
  "fixed_IPv6 = [0x20, 0x1, 0xd, 0xb8, 0, 0, 0, 0, 0, 0, 0x1, 0x23, 0, 0x12, 0, 0x1]"

definition chaosDNS :: "plugin_lib \<Rightarrow> (nat \<Rightarrow> nat) \<Rightarrow> Request \<Rightarrow> 'sel PodInfo \<Rightarrow> reply" where
  "chaosDNS pl draws state podInfo =
     (if pi_Action podInfo = ActionError
      then \<lparr>rp_Rcode = RcodeServerFailure, rp_Err = Some (OtherErr ''dns chaos error''),
            rp_Written = []\<rparr>
      else
        let qname = rq_Name state;
            answers = (if rq_QType state = TypeA then chaos_a qname 10 [getRandomIPv4 draws]
                       else if rq_QType state = TypeAAAA then chaos_aaaa qname 10 [fixed_IPv6]
                       else []) in
        if length answers = 0
        then \<lparr>rp_Rcode = RcodeServerFailure, rp_Err = None, rp_Written = []\<rparr>
        else
          let m = (SetReply pl state)\<lparr>m_Authoritative := True, m_Answer := answers\<rparr>
          in \<lparr>rp_Rcode = RcodeSuccess, rp_Err = None, rp_Written = [m]\<rparr>)"

section \<open>Two-level pod table\<close>

definition pod_lookup :: "pod_table \<Rightarrow> string \<times> string \<Rightarrow> addr option" where
  "pod_lookup t = (\<lambda>(ns, n). case fmlookup t ns of None \<Rightarrow> None | Some m \<Rightarrow> fmlookup m n)"

text \<open>
  \<open>if \_, ok := m[ns]; !ok \{ m[ns] = make(...) \}\<close>, then \<open>m[ns][n] = a\<close>; and the guarded
  \<open>delete(m[ns], n)\<close>.
\<close>

definition pod_ensure_ns :: "string \<Rightarrow> pod_table \<Rightarrow> pod_table" where
  "pod_ensure_ns ns t = (if fmlookup t ns = None then fmupd ns fmempty t else t)"

definition pod_put :: "string \<times> string \<Rightarrow> addr \<Rightarrow> pod_table \<Rightarrow> pod_table" where
  "pod_put = (\<lambda>(ns, n) a t.
     (let t = pod_ensure_ns ns t in
      case fmlookup t ns of None \<Rightarrow> t | Some m \<Rightarrow> fmupd ns (fmupd n a m) t))"

definition pod_delete :: "string \<times> string \<Rightarrow> pod_table \<Rightarrow> pod_table" where
  "pod_delete = (\<lambda>(ns, n) t.
     case fmlookup t ns of None \<Rightarrow> t | Some m \<Rightarrow> fmupd ns (fmdrop n m) t)"

interpretation pods: table pod_lookup pod_put pod_delete
proof
  fix k k' :: "string \<times> string" and v t
  show "pod_lookup (pod_put k v t) k' = (if k' = k then Some v else pod_lookup t k')"
    by (auto simp: pod_lookup_def pod_put_def pod_ensure_ns_def Let_def
          split: prod.splits option.splits if_splits)
  show "pod_lookup (pod_delete k t) k' = (if k' = k then None else pod_lookup t k')"
    by (auto simp: pod_lookup_def pod_delete_def split: prod.splits option.splits if_splits)
qed

interpretation ips: table fmlookup fmupd fmdrop
  by unfold_locales auto

lemma pod_lookup_ensure_ns [simp, registry_simps]:
  "pod_lookup (pod_ensure_ns ns t) k = pod_lookup t k"
  by (auto simp: pod_lookup_def pod_ensure_ns_def split: prod.splits option.splits)

lemmas pod_table_simps [simp, registry_simps] = pods.lookup_put pods.lookup_del

section \<open>Well-formed registries\<close>

text \<open>
  The type invariant: addresses are allocated, and the pod table files a value under its own
  namespace and name.
\<close>

definition registry_wf :: "'sel registry \<Rightarrow> bool" where
  "registry_wf k \<longleftrightarrow>
     (\<forall>ip a. fmlookup (ipPodMap k) ip = Some a \<longrightarrow> fmlookup (pod_heap k) a \<noteq> None) \<and>
     (\<forall>ns n a. pod_lookup (podMap k) (ns, n) = Some a \<longrightarrow>
        (\<exists>p. fmlookup (pod_heap k) a = Some p \<and> pi_Namespace p = ns \<and> pi_Name p = n)) \<and>
     (\<forall>a. fmlookup (pod_heap k) a \<noteq> None \<longrightarrow> a < heap_next k)"

text \<open>
  Every address is up to date: what it leads to has that address, and is the registered entry of
  its pod.  A registered pod need not be reachable by an address: another pod may have been given
  the same one since.
\<close>

definition registry_synced :: "'sel registry \<Rightarrow> bool" where
  "registry_synced k \<longleftrightarrow>
     (\<forall>ip a. fmlookup (ipPodMap k) ip = Some a \<longrightarrow>
        (\<exists>p. fmlookup (pod_heap k) a = Some p \<and> pi_IP p = ip \<and>
             pod_lookup (podMap k) (pi_Namespace p, pi_Name p) = Some a))"

lemma empty_registry_wf: "registry_wf empty_registry"
  by (simp add: registry_wf_def empty_registry_def pod_lookup_def)

lemma empty_registry_synced: "registry_synced empty_registry"
  by (simp add: registry_synced_def empty_registry_def)

lemma registry_wf_fresh: "registry_wf k \<Longrightarrow> fmlookup (pod_heap k) (heap_next k) = None"
  by (auto simp: registry_wf_def)

lemma registry_wf_podD:
  "registry_wf k \<Longrightarrow> pod_lookup (podMap k) (ns, n) = Some a \<Longrightarrow>
   \<exists>p. fmlookup (pod_heap k) a = Some p \<and> pi_Namespace p = ns \<and> pi_Name p = n"
  by (auto simp: registry_wf_def)

lemma registry_wf_ipD:
  "registry_wf k \<Longrightarrow> fmlookup (ipPodMap k) ip = Some a \<Longrightarrow> \<exists>p. fmlookup (pod_heap k) a = Some p"
  by (auto simp: registry_wf_def)

lemma registry_wf_inj:
  "registry_wf k \<Longrightarrow> pod_lookup (podMap k) x = Some a \<Longrightarrow> pod_lookup (podMap k) y = Some a \<Longrightarrow> x = y"
  by (cases x; cases y) (metis option.inject registry_wf_podD)

lemma registry_wf_move:
  assumes "registry_wf k" "fmlookup (pod_heap k) a = Some p"
    and "pi_Namespace p' = pi_Namespace p" "pi_Name p' = pi_Name p"
  shows "registry_wf (k\<lparr>pod_heap := fmupd a p' (pod_heap k),
                        ipPodMap := fmupd ip a (fmdrop ip' (ipPodMap k))\<rparr>)"
  using assms unfolding registry_wf_def by (auto split: if_splits) (metis option.inject)+

lemma getChaosPod_wf: "registry_wf k \<Longrightarrow> registry_wf (fst (getChaosPod client now now' ip k))"
  by (auto simp: getChaosPod_def Let_def intro!: registry_wf_move split: option.splits prod.splits)

lemma getChaosPod_frame [frame_simps]:
  "podMap (fst (getChaosPod client now now' ip k)) = podMap k"
  "chaosMap (fst (getChaosPod client now now' ip k)) = chaosMap k"
  by (auto simp: getChaosPod_def Let_def split: option.splits prod.splits)

section \<open>Forged answers\<close>

lemma random_bytes_eq:
  "random_bytes draws i n nums = nums @ map (\<lambda>j. of_nat (Intn 255 (draws j))) [i ..< i + n]"
  by (induction n arbitrary: i nums) (auto simp: upt_conv_Cons simp del: upt_Suc)

lemma getRandomIPv4_eq:
  "getRandomIPv4 draws =
     IPv4 (of_nat (draws 0 mod 255)) (of_nat (draws 1 mod 255))
          (of_nat (draws 2 mod 255)) (of_nat (draws 3 mod 255))"
  by (simp add: getRandomIPv4_def random_bytes_eq Intn_def numeral_2_eq_2)

lemma To4_IPv4: "To4 (IPv4 b0 b1 b2 b3) = [b0, b1, b2, b3]"
  by (simp add: IPv4_def To4_def v4InV6Prefix_def numeral_eq_Suc)

lemma octet_bound: "unat (of_nat (n mod 255) :: byte) < 255"
proof -
  have "n mod 255 < 255" by simp
  then show ?thesis by (simp add: unat_of_nat take_bit_nat_eq_self)
qed

lemma chaos_answers:
  "chaos_a zone ttl [ip] =
     [RR_A \<lparr>hdr_Name = zone, hdr_Rrtype = TypeA, hdr_Class = ClassINET, hdr_Ttl = ttl\<rparr> ip]"
  "chaos_aaaa zone ttl [ip] =
     [RR_AAAA \<lparr>hdr_Name = zone, hdr_Rrtype = TypeAAAA, hdr_Class = ClassINET, hdr_Ttl = ttl\<rparr> ip]"
  by (simp_all add: chaos_a_def chaos_aaaa_def)

text \<open>
  C31: a query under chaos is refused with \<open>SERVFAIL\<close> and nothing is written, when the action is
  \<open>error\<close> or the query asks for neither A nor AAAA; otherwise, for every other action string,
  exactly one authoritative message is written with exactly one answer for the queried name, of
  the queried type and with a TTL of ten seconds.  A forged A answer is an IPv4 address none of
  whose octets is 255; the AAAA answer is always the same address.
\<close>

theorem chaosDNS_forges:
  "(let r = chaosDNS pl draws state p in
    if pi_Action p \<noteq> ActionError \<and> rq_QType state \<in> {TypeA, TypeAAAA}
    then rp_Rcode r = RcodeSuccess \<and> rp_Err r = None \<and>
         (\<exists>m rr. rp_Written r = [m] \<and> m_Authoritative m \<and> m_Answer m = [rr] \<and>
            m_Id m = m_Id (SetReply pl state) \<and>
            rr_hdr rr = \<lparr>hdr_Name = rq_Name state, hdr_Rrtype = rq_QType state, hdr_Class = ClassINET,
                         hdr_Ttl = 10\<rparr> \<and>
            (if rq_QType state = TypeA
             then is_RR_A rr \<and> length (To4 (rr_ip rr)) = 4 \<and> list_all (\<lambda>b. unat b < 255) (To4 (rr_ip rr))
             else rr = RR_AAAA (rr_hdr rr) fixed_IPv6))
    else rp_Rcode r = RcodeServerFailure \<and> rp_Written r = [] \<and>
         (rp_Err r = None \<longleftrightarrow> pi_Action p \<noteq> ActionError))"
  by (auto simp: chaosDNS_def Let_def chaos_answers getRandomIPv4_eq To4_IPv4 octet_bound)

text \<open>
  A query is forged exactly when its sender is registered and either the scope is \<open>all\<close> or
  the first rule the pattern trie finds for the queried name is true; deciding this crashes exactly
  for an entry with another scope that has no trie, which is what the Corefile directive creates
  for the scopes \<open>inner\<close> and \<open>outer\<close>.
\<close>

theorem needChaos_decides:
  "(needChaos trie podInfo name = Ret True \<longleftrightarrow>
      (\<exists>p. podInfo = Some p \<and>
           (pi_Scope p = ScopeAll \<or>
            (\<exists>sel rules. pi_Selector p = Some sel \<and> trie_Match trie sel name '''' = IBool True # rules)))) \<and>
   (panics (needChaos trie podInfo name) \<longleftrightarrow>
      (\<exists>p. podInfo = Some p \<and> pi_Scope p \<noteq> ScopeAll \<and> pi_Selector p = None))"
  by (auto simp: needChaos_def Let_def split: option.splits list.splits iface.splits)

end
