(* ===== verification/Grpc.thy ===== *)
theory Grpc
  imports Chaos
begin

text \<open>
  \<open>src/grpc_server.go\<close>: the service that sets and cancels chaos at run time, and the part of
  \<open>InitKubeCache\<close> (\<open>src/kubernetes.go\<close>) that looks up the pods named in the Corefile.

  An operation takes the registry and returns the registry it leaves, whatever it answers: an
  error return or a panic does not undo what was written before it.  Each lookup of a pod in the
  cluster has its own view of the cluster and of the clock, so a request reads a sequence of them.
\<close>

section \<open>Operations\<close>

record DNSChaosResponse =
  resp_Result :: bool
  resp_Msg :: string

record call_env =
  env_client :: pod_client
  env_now :: int

text \<open>The port the server listens on; \<open>listen\<close> is \<open>net.Listen\<close>'s error.\<close>

definition CreateGRPCServer :: "(int \<Rightarrow> go_err option) \<Rightarrow> int \<Rightarrow> go_err option" where
  "CreateGRPCServer listen grpcPort =
     (let grpcPort = (if grpcPort = 0 then 9288 else grpcPort) in listen grpcPort)"

fun build_selector :: "'sel trie_lib \<Rightarrow> 'sel \<Rightarrow> string list \<Rightarrow> go_err + 'sel" where
  "build_selector trie sel [] = Inr sel"
| "build_selector trie sel (pattern # ps) =
     (case trie_Insert trie sel pattern '''' True of
        Inl err \<Rightarrow> Inl err
      | Inr sel \<Rightarrow>
          if \<not> Contains pattern ''*'' then
            (case trie_Insert trie sel (pattern @ ''.'') '''' True of
               Inl err \<Rightarrow> Inl err
             | Inr sel \<Rightarrow> build_selector trie sel ps)
          else build_selector trie sel ps)"

definition pod_key :: "pb_Pod \<Rightarrow> string \<times> string" where
  "pod_key pod = (pp_Namespace pod, pp_Name pod)"

text \<open>
  \<open>delete(k.podMap[ns], name); delete(k.ipPodMap, podInfo.IP)\<close>, where the pod is registered.  A
  registered address without a value, on which this is the identity, does not occur in a well-formed
  registry.
\<close>

definition drop_pod :: "string \<times> string \<Rightarrow> 'sel registry \<Rightarrow> 'sel registry" where
  "drop_pod key k =
     (case pod_lookup (podMap k) key of
        None \<Rightarrow> k
      | Some a \<Rightarrow>
          (case fmlookup (pod_heap k) a of
             None \<Rightarrow> k
           | Some podInfo \<Rightarrow>
               k\<lparr>podMap := pod_delete key (podMap k),
                 ipPodMap := fmdrop (pi_IP podInfo) (ipPodMap k)\<rparr>))"

text \<open>
  \<open>SetDNSChaos\<close> first makes sure the namespace has a map, then removes the pod's previous entry.
\<close>

definition unregister :: "pb_Pod \<Rightarrow> 'sel registry \<Rightarrow> 'sel registry" where
  "unregister pod k =
     drop_pod (pod_key pod) (k\<lparr>podMap := pod_ensure_ns (pp_Namespace pod) (podMap k)\<rparr>)"

text \<open>A new \<open>PodInfo\<close> is allocated and entered in both maps.\<close>

definition add_pod :: "'sel PodInfo \<Rightarrow> 'sel registry \<Rightarrow> 'sel registry" where
  "add_pod podInfo k =
     (let a = heap_next k in
      k\<lparr>pod_heap := fmupd a podInfo (pod_heap k),
        heap_next := Suc a,
        podMap := pod_put (pi_Namespace podInfo, pi_Name podInfo) a (podMap k),
        ipPodMap := fmupd (pi_IP podInfo) a (ipPodMap k)\<rparr>)"

type_synonym rpc_result = "(DNSChaosResponse option \<times> go_err option) go"

definition ok_response :: rpc_result where
  "ok_response = Ret (Some \<lparr>resp_Result = True, resp_Msg = []\<rparr>, None)"

definition new_PodInfo ::
  "pb_Pod \<Rightarrow> string \<Rightarrow> string \<Rightarrow> 'sel \<Rightarrow> api_Pod \<Rightarrow> int \<Rightarrow> 'sel PodInfo" where
  "new_PodInfo pod action scope sel v1Pod now =
     \<lparr>pi_Namespace = pp_Namespace pod,
      pi_Name = pp_Name pod,
      pi_Action = action,
      pi_Scope = scope,
      pi_Selector = Some sel,
      pi_IP = ap_PodIP v1Pod,
      pi_LastUpdateTime = now\<rparr>"

fun set_pods ::
  "(nat \<Rightarrow> call_env) \<Rightarrow> nat \<Rightarrow> string \<Rightarrow> string \<Rightarrow> 'sel \<Rightarrow> pb_Pod list \<Rightarrow> 'sel registry \<Rightarrow>
   'sel registry \<times> rpc_result" where
  "set_pods env i action scope sel [] k = (k, ok_response)"
| "set_pods env i action scope sel (pod # pods) k =
     (case getPodFromCluster (env_client (env i)) (pp_Namespace pod) (pp_Name pod) of
        (v1Pod, Some err) \<Rightarrow> (k, Ret (None, Some err))
      | (v1Pod, None) \<Rightarrow>
          let k = unregister pod k in
          (case v1Pod of
             None \<Rightarrow> (k, Panic NilDereference)
           | Some v1Pod \<Rightarrow>
               set_pods env (Suc i) action scope sel pods
                 (add_pod (new_PodInfo pod action scope sel v1Pod (env_now (env i))) k)))"

definition SetDNSChaos ::
  "'sel trie_lib \<Rightarrow> (nat \<Rightarrow> call_env) \<Rightarrow> SetDNSChaosRequest \<Rightarrow> 'sel registry \<Rightarrow>
   'sel registry \<times> rpc_result" where
  "SetDNSChaos trie env req k =
     (let k = k\<lparr>chaosMap := fmupd (req_Name req) req (chaosMap k)\<rparr>;
          scope = (if length (req_Patterns req) = 0 then ScopeAll else '''') in
      case build_selector trie (NewTrieSelector trie) (req_Patterns req) of
        Inl err \<Rightarrow> (k, Ret (None, Some err))
      | Inr sel \<Rightarrow> set_pods env 0 (req_Action req) scope sel (req_Pods req) k)"

definition drop_empty_namespaces :: "pod_table \<Rightarrow> pod_table" where
  "drop_empty_namespaces t = fmfilter (\<lambda>ns. fmlookup t ns \<noteq> Some fmempty) t"

definition CancelDNSChaos :: "string \<Rightarrow> 'sel registry \<Rightarrow> 'sel registry \<times> rpc_result" where
  "CancelDNSChaos name k =
     (case fmlookup (chaosMap k) name of
        None \<Rightarrow> (k, ok_response)
      | Some req \<Rightarrow>
          let k = fold (\<lambda>pod. drop_pod (pod_key pod)) (req_Pods req) k;
              k = k\<lparr>podMap := drop_empty_namespaces (podMap k)\<rparr>;
              k = k\<lparr>chaosMap := fmdrop name (chaosMap k)\<rparr>
          in (k, ok_response))"

text \<open>
  The loop of \<open>InitKubeCache\<close> over the pods of the Corefile, in the order the map iteration
  happens to take; it stops at the first error.
\<close>

fun init_pods ::
  "(nat \<Rightarrow> call_env) \<Rightarrow> nat \<Rightarrow> addr list \<Rightarrow> 'sel registry \<Rightarrow> 'sel registry \<times> go_err option go" where
  "init_pods env i [] k = (k, Ret None)"
| "init_pods env i (a # as) k =
     (case fmlookup (pod_heap k) a of
        None \<Rightarrow> (k, Panic NilDereference)
      | Some podInfo \<Rightarrow>
          (case getPodFromCluster (env_client (env i)) (pi_Namespace podInfo) (pi_Name podInfo) of
             (pod, Some err) \<Rightarrow> (k, Ret (Some err))
           | (None, None) \<Rightarrow> (k, Panic NilDereference)
           | (Some pod, None) \<Rightarrow>
               init_pods env (Suc i) as
                 (k\<lparr>pod_heap := fmupd a (podInfo\<lparr>pi_IP := ap_PodIP pod,
                                                pi_LastUpdateTime := env_now (env i)\<rparr>) (pod_heap k),
                    ipPodMap := fmupd (ap_PodIP pod) a (ipPodMap k)\<rparr>)))"

section \<open>Every operation keeps the registry well formed\<close>

lemma drop_pod_wf: "registry_wf k \<Longrightarrow> registry_wf (drop_pod key k)"
  unfolding registry_wf_def drop_pod_def
  by (cases key) (auto split: option.splits if_splits)

lemma add_pod_wf: "registry_wf k \<Longrightarrow> registry_wf (add_pod p k)"
  unfolding registry_wf_def add_pod_def Let_def
  by (auto split: if_splits) (metis less_SucI less_irrefl option.distinct(1))+

lemma ensure_ns_wf:
  "registry_wf (k\<lparr>podMap := pod_ensure_ns ns (podMap k)\<rparr>) \<longleftrightarrow> registry_wf k"
  by (simp add: registry_wf_def)

lemma chaosMap_wf [simp]: "registry_wf (k\<lparr>chaosMap := m\<rparr>) \<longleftrightarrow> registry_wf k"
  by (simp add: registry_wf_def)

lemma pod_lookup_drop_empty [simp, registry_simps]:
  "pod_lookup (drop_empty_namespaces t) key = pod_lookup t key"
  by (auto simp: pod_lookup_def drop_empty_namespaces_def split: prod.splits option.splits)

lemma drop_empty_wf:
  "registry_wf (k\<lparr>podMap := drop_empty_namespaces (podMap k)\<rparr>) \<longleftrightarrow> registry_wf k"
  by (simp add: registry_wf_def)

text \<open>
  What holds of a registry through the pods of a request: it suffices that removing an old entry
  and putting a new one in its place keep it.
\<close>

lemma set_pods_preserves:
  assumes "\<And>pod k. P k \<Longrightarrow> P (unregister pod k)"
    and "\<And>pod v now k. P k \<Longrightarrow> P (add_pod (new_PodInfo pod act sc sel v now) (unregister pod k))"
    and "P k"
  shows "P (fst (set_pods env i act sc sel pods k))"
  using assms(3)
proof (induction pods arbitrary: i k)
  case (Cons pod pods)
  then show ?case
    using assms(1,2) by (auto simp: Let_def split: option.splits prod.splits)
qed simp

lemma unregister_wf: "registry_wf k \<Longrightarrow> registry_wf (unregister pod k)"
  by (simp add: unregister_def drop_pod_wf ensure_ns_wf)

lemma set_pods_wf: "registry_wf k \<Longrightarrow> registry_wf (fst (set_pods env i act sc sel pods k))"
  by (rule set_pods_preserves) (auto intro: unregister_wf add_pod_wf)

lemma SetDNSChaos_wf: "registry_wf k \<Longrightarrow> registry_wf (fst (SetDNSChaos trie env req k))"
  by (simp add: SetDNSChaos_def Let_def set_pods_wf split: sum.splits)

lemma fold_drop_pod_wf:
  "registry_wf k \<Longrightarrow> registry_wf (fold (\<lambda>pod. drop_pod (pod_key pod)) pods k)"
  by (induction pods arbitrary: k) (auto intro: drop_pod_wf)

lemma CancelDNSChaos_wf: "registry_wf k \<Longrightarrow> registry_wf (fst (CancelDNSChaos name k))"
  by (simp add: CancelDNSChaos_def Let_def fold_drop_pod_wf drop_empty_wf split: option.splits)

section \<open>Setting and cancelling keep the maps in step\<close>

lemma synced_addD:
  "registry_synced k \<Longrightarrow> fmlookup (ipPodMap k) ip = Some a \<Longrightarrow>
   \<exists>p. fmlookup (pod_heap k) a = Some p \<and> pi_IP p = ip \<and>
       pod_lookup (podMap k) (pi_Namespace p, pi_Name p) = Some a"
  by (auto simp: registry_synced_def)

lemma drop_pod_synced: "registry_synced k \<Longrightarrow> registry_synced (drop_pod key k)"
  unfolding registry_synced_def drop_pod_def
  by (auto split: option.splits) (metis option.inject)+

lemma ensure_ns_synced:
  "registry_synced (k\<lparr>podMap := pod_ensure_ns ns (podMap k)\<rparr>) \<longleftrightarrow> registry_synced k"
  by (simp add: registry_synced_def)

lemma unregister_synced: "registry_synced k \<Longrightarrow> registry_synced (unregister pod k)"
  by (simp add: unregister_def drop_pod_synced ensure_ns_synced)

lemma drop_pod_lookup:
  "registry_wf k \<Longrightarrow>
   pod_lookup (podMap (drop_pod key k)) key' = (if key' = key then None else pod_lookup (podMap k) key')"
  by (cases key) (auto simp: drop_pod_def dest: registry_wf_podD split: option.splits)

lemma drop_pod_frame [frame_simps, simp]:
  "pod_heap (drop_pod key k) = pod_heap k" "heap_next (drop_pod key k) = heap_next k"
  "chaosMap (drop_pod key k) = chaosMap k"
  by (simp_all add: drop_pod_def split: option.splits)

lemma unregister_frame [frame_simps, simp]:
  "pod_heap (unregister pod k) = pod_heap k" "heap_next (unregister pod k) = heap_next k"
  "chaosMap (unregister pod k) = chaosMap k"
  by (simp_all add: unregister_def)

lemma unregister_lookup:
  "registry_wf k \<Longrightarrow>
   pod_lookup (podMap (unregister pod k)) key =
     (if key = pod_key pod then None else pod_lookup (podMap k) key)"
  by (simp add: unregister_def drop_pod_lookup ensure_ns_wf)

text \<open>A new entry may replace another under its address, never under its name.\<close>

lemma add_pod_synced:
  assumes "registry_wf k" "registry_synced k"
    and "pod_lookup (podMap k) (pi_Namespace p, pi_Name p) = None"
  shows "registry_synced (add_pod p k)"
  unfolding registry_synced_def
proof (intro allI impI)
  fix ip a assume l: "fmlookup (ipPodMap (add_pod p k)) ip = Some a"
  show "\<exists>q. fmlookup (pod_heap (add_pod p k)) a = Some q \<and> pi_IP q = ip \<and>
          pod_lookup (podMap (add_pod p k)) (pi_Namespace q, pi_Name q) = Some a"
  proof (cases "ip = pi_IP p")
    case True
    with l show ?thesis by (auto simp: add_pod_def Let_def)
  next
    case False
    with l have l': "fmlookup (ipPodMap k) ip = Some a" by (simp add: add_pod_def Let_def)
    with assms(2) obtain q where q: "fmlookup (pod_heap k) a = Some q" "pi_IP q = ip"
        "pod_lookup (podMap k) (pi_Namespace q, pi_Name q) = Some a"
      using synced_addD by blast
    from q(1) registry_wf_fresh [OF assms(1)] have "a \<noteq> heap_next k" by auto
    moreover from q(3) assms(3) have "(pi_Namespace q, pi_Name q) \<noteq> (pi_Namespace p, pi_Name p)"
      by auto
    ultimately show ?thesis using q by (auto simp: add_pod_def Let_def)
  qed
qed

definition registry_ok :: "'sel registry \<Rightarrow> bool" where
  "registry_ok k \<longleftrightarrow> registry_wf k \<and> registry_synced k"

lemma set_pods_ok: "registry_ok k \<Longrightarrow> registry_ok (fst (set_pods env i act sc sel pods k))"
  by (rule set_pods_preserves)
    (auto simp: registry_ok_def unregister_wf unregister_synced new_PodInfo_def
       unregister_lookup pod_key_def intro!: add_pod_wf add_pod_synced)

lemma chaosMap_ok [simp]: "registry_ok (k\<lparr>chaosMap := m\<rparr>) \<longleftrightarrow> registry_ok k"
  by (simp add: registry_ok_def registry_synced_def)

lemma SetDNSChaos_ok: "registry_ok k \<Longrightarrow> registry_ok (fst (SetDNSChaos trie env req k))"
  by (simp add: SetDNSChaos_def Let_def set_pods_ok split: sum.splits)

lemma fold_drop_pod_ok:
  "registry_ok k \<Longrightarrow> registry_ok (fold (\<lambda>pod. drop_pod (pod_key pod)) pods k)"
  by (induction pods arbitrary: k) (auto simp: registry_ok_def intro: drop_pod_wf drop_pod_synced)

lemma drop_empty_ok:
  "registry_ok (k\<lparr>podMap := drop_empty_namespaces (podMap k)\<rparr>) \<longleftrightarrow> registry_ok k"
  by (simp add: registry_ok_def drop_empty_wf registry_synced_def)

lemma CancelDNSChaos_ok: "registry_ok k \<Longrightarrow> registry_ok (fst (CancelDNSChaos name k))"
  by (simp add: CancelDNSChaos_def Let_def fold_drop_pod_ok drop_empty_ok split: option.splits)

section \<open>The registry as a machine\<close>

datatype 'sel admin_event =
    AdSet "'sel trie_lib" "nat \<Rightarrow> call_env" SetDNSChaosRequest
  | AdCancel string

fun admin_step :: "'sel admin_event \<Rightarrow> 'sel registry \<Rightarrow> 'sel registry" where
  "admin_step (AdSet trie env req) k = fst (SetDNSChaos trie env req k)"
| "admin_step (AdCancel name) k = fst (CancelDNSChaos name k)"

interpretation admin: invariant_machine admin_step registry_ok
proof
  fix s :: "'a registry" and e
  assume "registry_ok s"
  then show "registry_ok (admin_step e s)"
    by (cases e) (auto intro: SetDNSChaos_ok CancelDNSChaos_ok)
qed

text \<open>With the queries, which refresh entries, only the type invariant is kept.\<close>

datatype 'sel chaos_event =
    EvAdmin "'sel admin_event"
  | EvQuery pod_client int int string

fun chaos_step :: "'sel chaos_event \<Rightarrow> 'sel registry \<Rightarrow> 'sel registry" where
  "chaos_step (EvAdmin e) k = admin_step e k"
| "chaos_step (EvQuery client now now' ip) k = fst (getChaosPod client now now' ip k)"

interpretation chaos: invariant_machine chaos_step registry_wf
proof
  fix s :: "'a registry" and e
  assume wf: "registry_wf s"
  show "registry_wf (chaos_step e s)"
  proof (cases e)
    case (EvAdmin ad)
    with wf show ?thesis by (cases ad) (auto intro: SetDNSChaos_wf CancelDNSChaos_wf)
  qed (use wf in \<open>auto intro: getChaosPod_wf\<close>)
qed

lemma empty_registry_ok: "registry_ok empty_registry"
  by (simp add: registry_ok_def empty_registry_wf empty_registry_synced)

section \<open>What a request registers\<close>

text \<open>What the cluster answers for the pods of a request, in order.\<close>

fun cluster_answers ::
  "(nat \<Rightarrow> call_env) \<Rightarrow> nat \<Rightarrow> pb_Pod list \<Rightarrow> (api_Pod option \<times> go_err option) list" where
  "cluster_answers env i [] = []"
| "cluster_answers env i (pod # pods) =
     getPodFromCluster (env_client (env i)) (pp_Namespace pod) (pp_Name pod)
       # cluster_answers env (Suc i) pods"

lemma length_cluster_answers [simp]: "length (cluster_answers env i pods) = length pods"
  by (induction pods arbitrary: i) auto

lemma cluster_answers_append:
  "cluster_answers env i (ps @ qs) = cluster_answers env i ps @ cluster_answers env (i + length ps) qs"
  by (induction ps arbitrary: i) auto

definition all_found :: "(api_Pod option \<times> go_err option) list \<Rightarrow> bool" where
  "all_found ans = list_all (\<lambda>(v, e). v \<noteq> None \<and> e = None) ans"

lemma all_found_simps [simp]:
  "all_found []" "all_found (x # xs) \<longleftrightarrow> fst x \<noteq> None \<and> snd x = None \<and> all_found xs"
  "all_found (xs @ ys) \<longleftrightarrow> all_found xs \<and> all_found ys"
  by (auto simp: all_found_def)

text \<open>The state after some pods have been registered, when all of them were found.\<close>

lemma set_pods_append:
  "all_found (cluster_answers env i ps) \<Longrightarrow>
   set_pods env i act sc sel (ps @ qs) k =
     set_pods env (i + length ps) act sc sel qs (fst (set_pods env i act sc sel ps k))"
  by (induction ps arbitrary: i k) (auto simp: Let_def split: option.splits prod.splits)

lemma set_pods_ok_response:
  "all_found (cluster_answers env i pods) \<Longrightarrow> snd (set_pods env i act sc sel pods k) = ok_response"
  by (induction pods arbitrary: i k) (auto simp: Let_def split: option.splits prod.splits)

lemma unregister_ip_kept:
  "fmlookup (ipPodMap k) ip = Some a \<Longrightarrow>
   (\<And>b p. pod_lookup (podMap k) (pod_key pod) = Some b \<Longrightarrow> fmlookup (pod_heap k) b = Some p \<Longrightarrow>
      pi_IP p \<noteq> ip) \<Longrightarrow>
   fmlookup (ipPodMap (unregister pod k)) ip = Some a"
  by (auto simp: unregister_def drop_pod_def split: option.splits)

lemma new_PodInfo_sel [simp]:
  "pi_Namespace (new_PodInfo pod act sc sel v now) = pp_Namespace pod"
  "pi_Name (new_PodInfo pod act sc sel v now) = pp_Name pod"
  "pi_IP (new_PodInfo pod act sc sel v now) = ap_PodIP v"
  "pi_Scope (new_PodInfo pod act sc sel v now) = sc"
  "pi_Action (new_PodInfo pod act sc sel v now) = act"
  by (simp_all add: new_PodInfo_def)

lemma add_pod_lookups [simp]:
  "pod_lookup (podMap (add_pod p k)) key =
     (if key = (pi_Namespace p, pi_Name p) then Some (heap_next k) else pod_lookup (podMap k) key)"
  "fmlookup (ipPodMap (add_pod p k)) ip =
     (if ip = pi_IP p then Some (heap_next k) else fmlookup (ipPodMap k) ip)"
  "fmlookup (pod_heap (add_pod p k)) a =
     (if a = heap_next k then Some p else fmlookup (pod_heap k) a)"
  "heap_next (add_pod p k) = Suc (heap_next k)" "chaosMap (add_pod p k) = chaosMap k"
  by (auto simp: add_pod_def Let_def)

lemma set_pods_chaosMap [simp]: "chaosMap (fst (set_pods env i act sc sel pods k)) = chaosMap k"
  by (rule set_pods_preserves [where P = "\<lambda>k'. chaosMap k' = chaosMap k"]) simp_all

text \<open>Registering other pods leaves an entry alone, unless one of them takes or gives up its address.\<close>

lemma set_pods_keeps_entry:
  assumes "registry_wf k" "all_found (cluster_answers env i pods)"
    and "fmlookup (ipPodMap k) ip = Some a" "pod_lookup (podMap k) key = Some a"
    and "fmlookup (pod_heap k) a = Some p"
    and "distinct (map pod_key pods)" "key \<notin> pod_key ` set pods"
    and "ip \<notin> {ap_PodIP v | v. (Some v, None) \<in> set (cluster_answers env i pods)}"
    and "\<And>q b r. q \<in> set pods \<Longrightarrow> pod_lookup (podMap k) (pod_key q) = Some b \<Longrightarrow>
           fmlookup (pod_heap k) b = Some r \<Longrightarrow> pi_IP r \<noteq> ip"
  shows "fmlookup (ipPodMap (fst (set_pods env i act sc sel pods k))) ip = Some a \<and>
         pod_lookup (podMap (fst (set_pods env i act sc sel pods k))) key = Some a \<and>
         fmlookup (pod_heap (fst (set_pods env i act sc sel pods k))) a = Some p"
  using assms
proof (induction pods arbitrary: i k)
  case (Cons q qs)
  obtain v where v: "getPodFromCluster (env_client (env i)) (pp_Namespace q) (pp_Name q) = (Some v, None)"
    using Cons.prems(2)
    by (cases "getPodFromCluster (env_client (env i)) (pp_Namespace q) (pp_Name q)") auto
  let ?k = "add_pod (new_PodInfo q act sc sel v (env_now (env i))) (unregister q k)"
  have keys: "(pp_Namespace q, pp_Name q) = pod_key q" by (simp add: pod_key_def)
  have wf: "registry_wf ?k" by (intro add_pod_wf unregister_wf Cons.prems(1))
  have fresh: "fmlookup (pod_heap k) (heap_next k) = None" by (rule registry_wf_fresh [OF Cons.prems(1)])
  have "fmlookup (ipPodMap (unregister q k)) ip = Some a"
    by (rule unregister_ip_kept [OF Cons.prems(3)]) (use Cons.prems(9) in auto)
  then have ip: "fmlookup (ipPodMap ?k) ip = Some a" using Cons.prems(8) v by auto
  have key: "pod_lookup (podMap ?k) key = Some a"
    using Cons.prems(4,7) by (auto simp: keys unregister_lookup [OF Cons.prems(1)])
  have heap: "fmlookup (pod_heap ?k) a = Some p" using Cons.prems(5) fresh by auto
  have old: "pi_IP r \<noteq> ip"
    if "q' \<in> set qs" "pod_lookup (podMap ?k) (pod_key q') = Some b"
      "fmlookup (pod_heap ?k) b = Some r" for q' b r
  proof -
    have "pod_key q' \<noteq> pod_key q" using that(1) Cons.prems(6) by (metis distinct.simps(2) image_eqI list.set_map list.simps(9))
    then have "pod_lookup (podMap k) (pod_key q') = Some b"
      using that(2) by (simp add: keys unregister_lookup [OF Cons.prems(1)])
    moreover from this have "b \<noteq> heap_next k"
      using fresh registry_wf_podD [OF Cons.prems(1)] by (cases "pod_key q'") fastforce
    ultimately show ?thesis using that(1,3) Cons.prems(9) [of q' b r] by simp
  qed
  have "fmlookup (ipPodMap (fst (set_pods env (Suc i) act sc sel qs ?k))) ip = Some a \<and>
        pod_lookup (podMap (fst (set_pods env (Suc i) act sc sel qs ?k))) key = Some a \<and>
        fmlookup (pod_heap (fst (set_pods env (Suc i) act sc sel qs ?k))) a = Some p"
    by (rule Cons.IH [OF wf _ ip key heap]) (use Cons.prems v old in auto)
  then show ?case using v by (simp add: Let_def)
qed simp

lemma set_pods_step:
  "getPodFromCluster (env_client (env i)) (pp_Namespace pod) (pp_Name pod) = (Some v, None) \<Longrightarrow>
   set_pods env i act sc sel (pod # pods) k =
     set_pods env (Suc i) act sc sel pods
       (add_pod (new_PodInfo pod act sc sel v (env_now (env i))) (unregister pod k))"
  by (simp add: Let_def)

text \<open>Pods that a request does not name keep their entries.\<close>

lemma set_pods_other:
  assumes "registry_wf k" "key \<notin> pod_key ` set pods"
  shows "pod_lookup (podMap (fst (set_pods env i act sc sel pods k))) key = pod_lookup (podMap k) key"
  using assms
proof (induction pods arbitrary: i k)
  case (Cons pod pods)
  have "registry_wf (unregister pod k)" by (rule unregister_wf [OF Cons.prems(1)])
  then have "registry_wf (add_pod p (unregister pod k))" for p by (rule add_pod_wf)
  with Cons show ?case
    by (auto simp: Let_def unregister_lookup pod_key_def split: option.splits prod.splits)
qed simp

lemma set_pods_heap_mono:
  assumes "registry_wf k" "fmlookup (pod_heap k) a = Some p"
  shows "fmlookup (pod_heap (fst (set_pods env i act sc sel pods k))) a = Some p"
proof -
  have "registry_wf (fst (set_pods env i act sc sel pods k)) \<and>
        fmlookup (pod_heap (fst (set_pods env i act sc sel pods k))) a = Some p"
    by (rule set_pods_preserves [where P = "\<lambda>k. registry_wf k \<and> fmlookup (pod_heap k) a = Some p"])
      (use assms in \<open>auto intro: unregister_wf add_pod_wf dest: registry_wf_fresh\<close>)
  then show ?thesis by simp
qed

lemma set_pods_registers:
  assumes wf: "registry_wf k" and found: "all_found (cluster_answers env 0 (ps @ pod # qs))"
    and here: "cluster_answers env 0 (ps @ pod # qs) ! length ps = (Some v, None)"
    and dist: "distinct (map pod_key (ps @ pod # qs))"
    and later: "ap_PodIP v \<notin> {ap_PodIP w | w. (Some w, None) \<in> set (cluster_answers env (Suc (length ps)) qs)}"
    and old: "\<And>q b r. q \<in> set qs \<Longrightarrow> pod_lookup (podMap k) (pod_key q) = Some b \<Longrightarrow>
                fmlookup (pod_heap k) b = Some r \<Longrightarrow> pi_IP r \<noteq> ap_PodIP v"
  shows "\<exists>a. fmlookup (ipPodMap (fst (set_pods env 0 act sc sel (ps @ pod # qs) k))) (ap_PodIP v) = Some a \<and>
             pod_lookup (podMap (fst (set_pods env 0 act sc sel (ps @ pod # qs) k))) (pod_key pod) = Some a \<and>
             fmlookup (pod_heap (fst (set_pods env 0 act sc sel (ps @ pod # qs) k))) a =
               Some (new_PodInfo pod act sc sel v (env_now (env (length ps))))"
proof -
  let ?k1 = "fst (set_pods env 0 act sc sel ps k)"
  let ?p = "new_PodInfo pod act sc sel v (env_now (env (length ps)))"
  let ?k2 = "add_pod ?p (unregister pod ?k1)"
  have f: "all_found (cluster_answers env 0 ps)" "all_found (cluster_answers env (Suc (length ps)) qs)"
    using found by (auto simp: cluster_answers_append)
  have v: "getPodFromCluster (env_client (env (length ps))) (pp_Namespace pod) (pp_Name pod) = (Some v, None)"
    using here by (simp add: cluster_answers_append nth_append)
  have wf1: "registry_wf ?k1" by (rule set_pods_wf [OF wf])
  have wf2: "registry_wf ?k2" by (intro add_pod_wf unregister_wf wf1)
  have old2: "pi_IP r \<noteq> ap_PodIP v"
    if q: "q \<in> set qs" "pod_lookup (podMap ?k2) (pod_key q) = Some b"
      "fmlookup (pod_heap ?k2) b = Some r" for q b r
  proof -
    have "pod_key q \<noteq> pod_key pod" "pod_key q \<notin> pod_key ` set ps"
      using imageI [OF q(1), of pod_key] dist by auto
    then have l: "pod_lookup (podMap k) (pod_key q) = Some b"
      using q(2) by (simp add: pod_key_def [symmetric] unregister_lookup [OF wf1] set_pods_other [OF wf])
    then obtain r' where "fmlookup (pod_heap k) b = Some r'"
      using registry_wf_podD [OF wf] unfolding pod_key_def by blast
    moreover from this have "fmlookup (pod_heap ?k1) b = Some r'" by (rule set_pods_heap_mono [OF wf])
    moreover from this have "b \<noteq> heap_next ?k1" using registry_wf_fresh [OF wf1] by auto
    ultimately show ?thesis using q(1,3) l old [of q b r'] by simp
  qed
  have "set_pods env 0 act sc sel (ps @ pod # qs) k = set_pods env (Suc (length ps)) act sc sel qs ?k2"
    by (simp add: set_pods_append [OF f(1)] v)
  moreover have "fmlookup (ipPodMap ?k2) (ap_PodIP v) = Some (heap_next ?k1)"
    "pod_lookup (podMap ?k2) (pod_key pod) = Some (heap_next ?k1)"
    "fmlookup (pod_heap ?k2) (heap_next ?k1) = Some ?p"
    by (simp_all add: pod_key_def)
  moreover have "distinct (map pod_key qs)" "pod_key pod \<notin> pod_key ` set qs" using dist by auto
  ultimately show ?thesis
    using set_pods_keeps_entry [OF wf2 f(2), of "ap_PodIP v" "heap_next ?k1" "pod_key pod" ?p act sc sel]
      later old2 by auto
qed

section \<open>What cancelling removes\<close>

lemma fold_drop_pod_frame [simp]:
  "pod_heap (fold (\<lambda>pod. drop_pod (pod_key pod)) pods k) = pod_heap k"
  "heap_next (fold (\<lambda>pod. drop_pod (pod_key pod)) pods k) = heap_next k"
  "chaosMap (fold (\<lambda>pod. drop_pod (pod_key pod)) pods k) = chaosMap k"
  by (induction pods arbitrary: k) auto

lemma fold_drop_pod_lookup:
  "registry_wf k \<Longrightarrow>
   pod_lookup (podMap (fold (\<lambda>pod. drop_pod (pod_key pod)) pods k)) key =
     (if key \<in> pod_key ` set pods then None else pod_lookup (podMap k) key)"
  by (induction pods arbitrary: k) (auto simp: drop_pod_lookup drop_pod_wf)

text \<open>Dropping pods only ever removes addresses, and only those the dropped entries carry.\<close>

lemma drop_pod_ip_le: "fmlookup (ipPodMap (drop_pod key k)) ip = Some a \<Longrightarrow> fmlookup (ipPodMap k) ip = Some a"
  by (auto simp: drop_pod_def split: option.splits if_splits)

lemma fold_drop_pod_ip_le:
  "fmlookup (ipPodMap (fold (\<lambda>pod. drop_pod (pod_key pod)) pods k)) ip = Some a \<Longrightarrow>
   fmlookup (ipPodMap k) ip = Some a"
  by (induction pods arbitrary: k) (auto dest: drop_pod_ip_le)

lemma drop_pod_ip_kept:
  "(\<And>b p. pod_lookup (podMap k) key = Some b \<Longrightarrow> fmlookup (pod_heap k) b = Some p \<Longrightarrow> pi_IP p \<noteq> ip) \<Longrightarrow>
   fmlookup (ipPodMap (drop_pod key k)) ip = fmlookup (ipPodMap k) ip"
  by (auto simp: drop_pod_def split: option.splits)

lemma fold_drop_pod_ip_kept:
  assumes "registry_wf k"
    and "\<And>pod b p. pod \<in> set pods \<Longrightarrow> pod_lookup (podMap k) (pod_key pod) = Some b \<Longrightarrow>
           fmlookup (pod_heap k) b = Some p \<Longrightarrow> pi_IP p \<noteq> ip"
  shows "fmlookup (ipPodMap (fold (\<lambda>pod. drop_pod (pod_key pod)) pods k)) ip = fmlookup (ipPodMap k) ip"
  using assms
proof (induction pods arbitrary: k)
  case (Cons pod pods)
  have "fmlookup (ipPodMap (drop_pod (pod_key pod) k)) ip = fmlookup (ipPodMap k) ip"
    by (rule drop_pod_ip_kept) (use Cons.prems(2) in auto)
  moreover have "fmlookup (ipPodMap (fold (\<lambda>pod. drop_pod (pod_key pod)) pods (drop_pod (pod_key pod) k))) ip
      = fmlookup (ipPodMap (drop_pod (pod_key pod) k)) ip"
    by (rule Cons.IH) (use Cons.prems in \<open>auto simp: drop_pod_lookup drop_pod_wf split: if_splits\<close>)
  ultimately show ?case by simp
qed simp

text \<open>The address that the entry of one of these pods carries.\<close>

definition carried :: "'sel registry \<Rightarrow> pb_Pod list \<Rightarrow> string \<Rightarrow> bool" where
  "carried k pods ip \<longleftrightarrow>
     (\<exists>pod \<in> set pods. \<exists>b p. pod_lookup (podMap k) (pod_key pod) = Some b \<and>
        fmlookup (pod_heap k) b = Some p \<and> pi_IP p = ip)"

lemma drop_pod_ip_removed:
  "pod_lookup (podMap k) key = Some b \<Longrightarrow> fmlookup (pod_heap k) b = Some p \<Longrightarrow>
   fmlookup (ipPodMap (drop_pod key k)) (pi_IP p) = None"
  by (simp add: drop_pod_def)

lemma fold_drop_pod_ip_removed:
  "registry_wf k \<Longrightarrow> carried k pods ip \<Longrightarrow>
   fmlookup (ipPodMap (fold (\<lambda>pod. drop_pod (pod_key pod)) pods k)) ip = None"
proof (induction pods arbitrary: k)
  case (Cons pod pods)
  let ?k = "drop_pod (pod_key pod) k"
  show ?case
  proof (cases "carried k [pod] ip")
    case True
    then have "fmlookup (ipPodMap ?k) ip = None" by (auto simp: carried_def drop_pod_ip_removed)
    then show ?thesis using fold_drop_pod_ip_le [of pods ?k ip] by (simp, metis option.exhaust)
  next
    case False
    with Cons.prems(2) obtain q b p where q: "q \<in> set pods" "pod_lookup (podMap k) (pod_key q) = Some b"
        "fmlookup (pod_heap k) b = Some p" "pi_IP p = ip"
      by (auto simp: carried_def)
    moreover have "pod_key q \<noteq> pod_key pod" using False q(2-4) by (auto simp: carried_def)
    ultimately have "pod_lookup (podMap ?k) (pod_key q) = Some b" "fmlookup (pod_heap ?k) b = Some p"
      by (simp_all add: drop_pod_lookup [OF Cons.prems(1)])
    with q have "carried ?k pods ip" unfolding carried_def by blast
    with Cons.IH [of ?k] Cons.prems(1) show ?thesis by (simp add: drop_pod_wf)
  qed
qed (simp add: carried_def)

lemma fold_drop_pod_ip:
  assumes "registry_wf k"
  shows "fmlookup (ipPodMap (fold (\<lambda>pod. drop_pod (pod_key pod)) pods k)) ip =
     (if carried k pods ip then None else fmlookup (ipPodMap k) ip)"
  using fold_drop_pod_ip_removed [OF assms, of pods ip] fold_drop_pod_ip_kept [OF assms, of pods ip]
  by (auto simp: carried_def)

definition no_empty_namespace :: "pod_table \<Rightarrow> bool" where
  "no_empty_namespace t \<longleftrightarrow> (\<forall>ns. fmlookup t ns \<noteq> Some fmempty)"

lemma drop_empty_no_empty: "no_empty_namespace (drop_empty_namespaces t)"
  by (simp add: no_empty_namespace_def drop_empty_namespaces_def)


lemma CancelDNSChaos_eq:
  assumes "fmlookup (chaosMap k) name = Some req"
  shows "podMap (fst (CancelDNSChaos name k)) =
           drop_empty_namespaces (podMap (fold (\<lambda>pod. drop_pod (pod_key pod)) (req_Pods req) k))"
    and "ipPodMap (fst (CancelDNSChaos name k)) =
           ipPodMap (fold (\<lambda>pod. drop_pod (pod_key pod)) (req_Pods req) k)"
    and "chaosMap (fst (CancelDNSChaos name k)) = fmdrop name (chaosMap k)"
    and "pod_heap (fst (CancelDNSChaos name k)) = pod_heap k"
    and "snd (CancelDNSChaos name k) = ok_response"
  using assms by (simp_all add: CancelDNSChaos_def Let_def)

lemma CancelDNSChaos_ips:
  assumes wf: "registry_wf k" and sync: "registry_synced k"
    and set: "fmlookup (chaosMap k) name = Some req"
    and ip: "fmlookup (ipPodMap (fst (CancelDNSChaos name k))) ip = Some a"
  shows "fmlookup (ipPodMap k) ip = Some a \<and>
         (\<exists>p. fmlookup (pod_heap k) a = Some p \<and> pi_IP p = ip \<and>
              (pi_Namespace p, pi_Name p) \<notin> pod_key ` set (req_Pods req))"
proof -
  note eqs [simp] = CancelDNSChaos_eq [OF set]
  have "registry_synced (fst (CancelDNSChaos name k))"
    using CancelDNSChaos_ok [of k name] wf sync by (simp add: registry_ok_def)
  from synced_addD [OF this ip] obtain p where p: "fmlookup (pod_heap k) a = Some p" "pi_IP p = ip"
      "pod_lookup (podMap (fst (CancelDNSChaos name k))) (pi_Namespace p, pi_Name p) = Some a"
    by auto
  from p(3) have "(pi_Namespace p, pi_Name p) \<notin> pod_key ` set (req_Pods req)"
    by (auto simp: fold_drop_pod_lookup [OF wf] split: if_splits)
  moreover from ip have "fmlookup (ipPodMap k) ip = Some a" using fold_drop_pod_ip_le by simp
  ultimately show ?thesis using p by blast
qed

text \<open>
  C7: cancelling a chaos that was set always succeeds, over any well-formed registry; it forgets the
  chaos, removes exactly the pods the request named and the namespaces this empties, removes exactly
  the addresses that the entries of these pods carry, and leaves all other pods and addresses alone.
  When every address leads to the entry that carries it, no address is left that leads to one of
  these pods; after a pod has moved this is not so, and its old address stays.
\<close>

theorem CancelDNSChaos_removes:
  assumes "registry_wf k" and "fmlookup (chaosMap k) name = Some req"
  shows "snd (CancelDNSChaos name k) = ok_response \<and>
         chaosMap (fst (CancelDNSChaos name k)) = fmdrop name (chaosMap k) \<and>
         pod_heap (fst (CancelDNSChaos name k)) = pod_heap k \<and>
         no_empty_namespace (podMap (fst (CancelDNSChaos name k))) \<and>
         (\<forall>key. pod_lookup (podMap (fst (CancelDNSChaos name k))) key =
            (if key \<in> pod_key ` set (req_Pods req) then None else pod_lookup (podMap k) key)) \<and>
         (\<forall>ip. fmlookup (ipPodMap (fst (CancelDNSChaos name k))) ip =
            (if carried k (req_Pods req) ip then None else fmlookup (ipPodMap k) ip)) \<and>
         (registry_synced k \<longrightarrow>
            (\<forall>ip a. fmlookup (ipPodMap (fst (CancelDNSChaos name k))) ip = Some a \<longrightarrow>
               (\<exists>p. fmlookup (pod_heap k) a = Some p \<and> pi_IP p = ip \<and>
                    (pi_Namespace p, pi_Name p) \<notin> pod_key ` set (req_Pods req))))"
proof -
  have "registry_synced k \<longrightarrow>
      (\<forall>ip a. fmlookup (ipPodMap (fst (CancelDNSChaos name k))) ip = Some a \<longrightarrow>
         (\<exists>p. fmlookup (pod_heap k) a = Some p \<and> pi_IP p = ip \<and>
              (pi_Namespace p, pi_Name p) \<notin> pod_key ` set (req_Pods req)))"
    using CancelDNSChaos_ips [OF assms(1) _ assms(2)] by blast
  then show ?thesis
    by (simp add: CancelDNSChaos_eq [OF assms(2)] fold_drop_pod_lookup [OF assms(1)] drop_empty_no_empty
        fold_drop_pod_ip [OF assms(1)])
qed

section \<open>Set, then cancel\<close>






text \<open>The addresses the cluster gave for the pods of a request.\<close>

definition answered_ips :: "(api_Pod option \<times> go_err option) list \<Rightarrow> string set" where
  "answered_ips ans = {ap_PodIP v | v. (Some v, None) \<in> set ans}"



lemma SetDNSChaos_chaosMap [simp]:
  "chaosMap (fst (SetDNSChaos trie env req k)) = fmupd (req_Name req) req (chaosMap k)"
  by (simp add: SetDNSChaos_def Let_def split: sum.splits)



section \<open>A successful request and a failing one\<close>

lemma SetDNSChaos_selector_ok:
  "build_selector trie (NewTrieSelector trie) (req_Patterns req) = Inr sel \<Longrightarrow>
   SetDNSChaos trie env req k =
     set_pods env 0 (req_Action req) (if req_Patterns req = [] then ScopeAll else '''') sel (req_Pods req)
       (k\<lparr>chaosMap := fmupd (req_Name req) req (chaosMap k)\<rparr>)"
  by (simp add: SetDNSChaos_def Let_def)

lemma getChaosPod_fresh:
  "fmlookup (ipPodMap k) ip = Some a \<Longrightarrow> fmlookup (pod_heap k) a = Some p \<Longrightarrow> \<not> IsOverdue now p \<Longrightarrow>
   getChaosPod client now now' ip k = (k, Ret (Some a, None))"
  by (simp add: getChaosPod_def)

lemma SetDNSChaos_entry:
  assumes "registry_wf k"
    and "build_selector trie (NewTrieSelector trie) (req_Patterns req) = Inr sel"
    and "req_Pods req = ps @ pod # qs"
    and "all_found (cluster_answers env 0 (req_Pods req))"
    and "cluster_answers env 0 (req_Pods req) ! length ps = (Some v, None)"
    and "distinct (map pod_key (req_Pods req))"
    and "ap_PodIP v \<notin> answered_ips (cluster_answers env (Suc (length ps)) qs)"
    and "\<And>q b r. q \<in> set qs \<Longrightarrow> pod_lookup (podMap k) (pod_key q) = Some b \<Longrightarrow>
           fmlookup (pod_heap k) b = Some r \<Longrightarrow> pi_IP r \<noteq> ap_PodIP v"
  shows "\<exists>a. fmlookup (ipPodMap (fst (SetDNSChaos trie env req k))) (ap_PodIP v) = Some a \<and>
           pod_lookup (podMap (fst (SetDNSChaos trie env req k))) (pod_key pod) = Some a \<and>
           fmlookup (pod_heap (fst (SetDNSChaos trie env req k))) a =
             Some (new_PodInfo pod (req_Action req) (if req_Patterns req = [] then ScopeAll else '''') sel v
                     (env_now (env (length ps))))"
  unfolding SetDNSChaos_selector_ok [OF assms(2)] assms(3)
  by (rule set_pods_registers) (use assms in \<open>auto simp: answered_ips_def\<close>)

text \<open>
  C6: a request whose pods the cluster knows succeeds, is remembered under its name, and enters
  each of its pods in both maps with the action of the request, the pattern trie built from it and
  the scope \<open>all\<close> exactly when it has no patterns; a query that comes from the address of such a
  pod in the next ten seconds is matched to that entry, without asking the API server.  The
  address must not be given up or taken over by a pod that the request names later.
\<close>

theorem SetDNSChaos_registers:
  assumes "registry_wf k"
    and "build_selector trie (NewTrieSelector trie) (req_Patterns req) = Inr sel"
    and "req_Pods req = ps @ pod # qs"
    and "all_found (cluster_answers env 0 (req_Pods req))"
    and "cluster_answers env 0 (req_Pods req) ! length ps = (Some v, None)"
    and "distinct (map pod_key (req_Pods req))"
    and "ap_PodIP v \<notin> answered_ips (cluster_answers env (Suc (length ps)) qs)"
    and "\<And>q b r. q \<in> set qs \<Longrightarrow> pod_lookup (podMap k) (pod_key q) = Some b \<Longrightarrow>
           fmlookup (pod_heap k) b = Some r \<Longrightarrow> pi_IP r \<noteq> ap_PodIP v"
  shows "let (k', res) = SetDNSChaos trie env req k;
             scope = (if req_Patterns req = [] then ScopeAll else '''');
             now = env_now (env (length ps)) in
         res = ok_response \<and> fmlookup (chaosMap k') (req_Name req) = Some req \<and>
         (\<exists>a. fmlookup (ipPodMap k') (ap_PodIP v) = Some a \<and>
              pod_lookup (podMap k') (pod_key pod) = Some a \<and>
              fmlookup (pod_heap k') a = Some (new_PodInfo pod (req_Action req) scope sel v now) \<and>
              (\<forall>client t t'. t - now \<le> 10000000000 \<longrightarrow>
                 getChaosPod client t t' (ap_PodIP v) k' = (k', Ret (Some a, None))))"
proof -
  let ?k0 = "k\<lparr>chaosMap := fmupd (req_Name req) req (chaosMap k)\<rparr>"
  let ?sc = "if req_Patterns req = [] then ScopeAll else ''''"
  let ?now = "env_now (env (length ps))"
  let ?p = "new_PodInfo pod (req_Action req) ?sc sel v ?now"
  let ?k = "fst (SetDNSChaos trie env req k)"
  note eq = SetDNSChaos_selector_ok [OF assms(2)]
  obtain a where a: "fmlookup (ipPodMap ?k) (ap_PodIP v) = Some a"
      "pod_lookup (podMap ?k) (pod_key pod) = Some a" "fmlookup (pod_heap ?k) a = Some ?p"
    using SetDNSChaos_entry [OF assms(1-7)] assms(8) by blast
  have "getChaosPod client t t' (ap_PodIP v) ?k = (?k, Ret (Some a, None))"
    if "t - ?now \<le> 10000000000" for client t t'
    by (rule getChaosPod_fresh [OF a(1,3)]) (use that in \<open>simp add: IsOverdue_def new_PodInfo_def\<close>)
  moreover have "snd (SetDNSChaos trie env req k) = ok_response"
    unfolding eq by (rule set_pods_ok_response [OF assms(4)])
  moreover have "chaosMap ?k = fmupd (req_Name req) req (chaosMap k)" by simp
  ultimately show ?thesis using a by (auto simp: Let_def split_beta)
qed

text \<open>The first answer of the cluster that stops a request.\<close>

definition request_outcome :: "(api_Pod option \<times> go_err option) list \<Rightarrow> rpc_result" where
  "request_outcome ans =
     (case filter (\<lambda>(v, e). v = None \<or> e \<noteq> None) ans of
        [] \<Rightarrow> ok_response
      | (_, Some err) # _ \<Rightarrow> Ret (None, Some err)
      | (_, None) # _ \<Rightarrow> Panic NilDereference)"

lemma set_pods_outcome:
  "snd (set_pods env i act sc sel pods k) = request_outcome (cluster_answers env i pods)"
  by (induction pods arbitrary: i k)
    (auto simp: request_outcome_def Let_def split: option.splits prod.splits)

text \<open>
  What the caller of \<open>SetDNSChaos\<close> gets: the error of the first pattern the trie refuses;
  else the error of the first pod the API server refuses; a crash when a pod client is missing
  before that; and success otherwise.  Whatever it is, the request is now remembered under its
  name.
\<close>

theorem SetDNSChaos_outcome:
  "snd (SetDNSChaos trie env req k) =
     (case build_selector trie (NewTrieSelector trie) (req_Patterns req) of
        Inl err \<Rightarrow> Ret (None, Some err)
      | Inr sel \<Rightarrow> request_outcome (cluster_answers env 0 (req_Pods req))) \<and>
   chaosMap (fst (SetDNSChaos trie env req k)) = fmupd (req_Name req) req (chaosMap k)"
  by (simp add: SetDNSChaos_def Let_def set_pods_outcome split: sum.splits)

text \<open>Registering pods does not look at the requests.\<close>

lemma unregister_chaosMap_commute:
  "unregister pod (k\<lparr>chaosMap := m\<rparr>) = (unregister pod k)\<lparr>chaosMap := m\<rparr>"
  by (cases k) (simp add: unregister_def drop_pod_def split: option.splits)

lemma add_pod_chaosMap_commute: "add_pod p (k\<lparr>chaosMap := m\<rparr>) = (add_pod p k)\<lparr>chaosMap := m\<rparr>"
  by (cases k) (simp add: add_pod_def Let_def)

lemma set_pods_chaosMap_commute:
  "set_pods env i act sc sel pods (k\<lparr>chaosMap := m\<rparr>) =
     ((fst (set_pods env i act sc sel pods k))\<lparr>chaosMap := m\<rparr>, snd (set_pods env i act sc sel pods k))"
  by (induction pods arbitrary: i k)
    (auto simp: Let_def unregister_chaosMap_commute add_pod_chaosMap_commute
       split: option.splits prod.splits)

text \<open>
  A request that fails at one of its pods is not undone: the registry is the one that the
  request cut off before that pod would leave, except that the whole request is remembered, so
  that chaos stays in force on the first pods after an error was reported.
\<close>

theorem SetDNSChaos_partial:
  assumes "req_Pods req = ps @ pod # qs" and "all_found (cluster_answers env 0 ps)"
    and "getPodFromCluster (env_client (env (length ps))) (pp_Namespace pod) (pp_Name pod) = (v, Some err)"
    and "build_selector trie (NewTrieSelector trie) (req_Patterns req) = Inr sel"
  shows "SetDNSChaos trie env req k =
           ((fst (SetDNSChaos trie env (req\<lparr>req_Pods := ps\<rparr>) k))
              \<lparr>chaosMap := fmupd (req_Name req) req (chaosMap k)\<rparr>,
            Ret (None, Some err))"
proof -
  show ?thesis
    using assms by (simp add: SetDNSChaos_def Let_def set_pods_append set_pods_chaosMap_commute)
qed

section \<open>Runs of the service\<close>

lemma getChaosPod_returns:
  assumes "registry_wf k"
  shows "(\<exists>r. snd (getChaosPod client now now' ip k) = Ret r) \<or>
         (\<exists>ns n. getPodFromCluster client ns n = (None, None))"
  using registry_wf_ipD [OF assms, of ip]
  by (auto simp: getChaosPod_def Let_def split: option.splits prod.splits)

text \<open>
  C32: after any sequence of set, cancel and lookup calls, in any order, with any answers of the
  API server and however the single calls ended, every address in the maps leads to an allocated
  entry and the pod table files entries under their own names; so looking up the sender of a query
  returns, unless the API client has no pod interface.  As long as pods keep their addresses, that
  is in any sequence of set and cancel calls, an address leads to the entry that carries this
  address, and this entry is the one registered for its pod.
\<close>

theorem registry_runs:
  "registry_wf (fold chaos_step es empty_registry) \<and>
   ((\<exists>r. snd (getChaosPod client now now' ip (fold chaos_step es empty_registry)) = Ret r) \<or>
    (\<exists>ns n. getPodFromCluster client ns n = (None, None))) \<and>
   registry_synced (fold admin_step as empty_registry)"
  using chaos.run_keeps [OF empty_registry_wf] getChaosPod_returns admin.run_keeps [OF empty_registry_ok, of as]
  by (simp add: registry_ok_def) blast

lemma getChaosPod_moved:
  assumes "fmlookup (ipPodMap k) ip = Some a" "fmlookup (pod_heap k) a = Some p" "IsOverdue now p"
    and "getPodFromCluster client (pi_Namespace p) (pi_Name p) = (Some v, None)"
    and "ap_PodIP v \<noteq> pi_IP p"
  shows "getChaosPod client now now' ip k =
           (k\<lparr>pod_heap := fmupd a (p\<lparr>pi_IP := ap_PodIP v, pi_LastUpdateTime := now'\<rparr>) (pod_heap k),
              ipPodMap := fmupd (ap_PodIP v) a (ipPodMap k)\<rparr>, Ret (Some a, None))"
proof -
  have "fmupd x a (fmdrop x m) = fmupd x a m" for x and m :: "(string, addr) fmap"
    by (rule fmap_ext) auto
  then show ?thesis using assms by (simp add: getChaosPod_def Let_def)
qed

text \<open>
  C37: when the pod behind an overdue entry has a new address, the lookup files the entry under
  the new address but deletes nothing: the old address keeps leading to it, even after the chaos
  that names the pod is cancelled.  A workload that is later given the old address is treated as
  the pod under chaos.
\<close>

theorem moved_pod_stays:
  assumes "registry_wf k" "fmlookup (chaosMap k) name = Some req"
    and "pod_key ` set (req_Pods req) = {(pi_Namespace p, pi_Name p)}"
    and "pod_lookup (podMap k) (pi_Namespace p, pi_Name p) = Some a"
    and "fmlookup (ipPodMap k) (pi_IP p) = Some a" "fmlookup (pod_heap k) a = Some p" "IsOverdue now p"
    and "getPodFromCluster client (pi_Namespace p) (pi_Name p) = (Some v, None)"
    and "ap_PodIP v \<noteq> pi_IP p"
  shows "let k' = fst (getChaosPod client now now' (pi_IP p) k);
             k'' = fst (CancelDNSChaos name k') in
         fmlookup (ipPodMap k') (pi_IP p) = Some a \<and> fmlookup (ipPodMap k') (ap_PodIP v) = Some a \<and>
         pod_lookup (podMap k'') (pi_Namespace p, pi_Name p) = None \<and>
         fmlookup (ipPodMap k'') (pi_IP p) = Some a"
proof -
  let ?k = "fst (getChaosPod client now now' (pi_IP p) k)"
  note eq = getChaosPod_moved [OF assms(5-9), of now']
  have wf: "registry_wf ?k" by (rule getChaosPod_wf [OF assms(1)])
  have set: "fmlookup (chaosMap ?k) name = Some req" using assms(2) by (simp add: eq)
  have "fmlookup (ipPodMap (fold (\<lambda>pod. drop_pod (pod_key pod)) (req_Pods req) ?k)) (pi_IP p) =
        fmlookup (ipPodMap ?k) (pi_IP p)"
  proof (rule fold_drop_pod_ip_kept [OF wf])
    fix pod b q assume "pod \<in> set (req_Pods req)" "pod_lookup (podMap ?k) (pod_key pod) = Some b"
      "fmlookup (pod_heap ?k) b = Some q"
    moreover have "pod_key pod = (pi_Namespace p, pi_Name p)" using calculation(1) assms(3) by blast
    ultimately show "pi_IP q \<noteq> pi_IP p" using assms(4,9) by (auto simp: eq)
  qed
  then have "fmlookup (ipPodMap (fst (CancelDNSChaos name ?k))) (pi_IP p) = Some a"
    using assms(5,9) by (simp add: CancelDNSChaos_eq [OF set]) (simp add: eq)
  moreover have "pod_lookup (podMap (fst (CancelDNSChaos name ?k))) (pi_Namespace p, pi_Name p) = None"
    using assms(3) by (simp add: CancelDNSChaos_eq [OF set] fold_drop_pod_lookup [OF wf])
  moreover have "fmlookup (ipPodMap ?k) (pi_IP p) = Some a \<and> fmlookup (ipPodMap ?k) (ap_PodIP v) = Some a"
    using assms(5,9) by (simp add: eq)
  ultimately show ?thesis by (simp add: Let_def)
qed

section \<open>Examples\<close>

text \<open>A trie that keeps its patterns in a list, and a cluster with two pods.\<close>

definition ex_trie :: "string list trie_lib" where
  "ex_trie =
     \<lparr>NewTrieSelector = [],
      trie_Insert = (\<lambda>sel p _ _. if p = '''' then Inl (OtherErr ''empty pattern'') else Inr (p # sel)),
      trie_Match = (\<lambda>sel name _. if name \<in> set sel then [IBool True] else [])\<rparr>"

definition ex_api_pod :: "string \<Rightarrow> string \<Rightarrow> api_Pod" where
  "ex_api_pod name ip = zero_api_Pod\<lparr>ap_Name := name, ap_Namespace := ''default'', ap_PodIP := ip\<rparr>"

definition ex_client :: pod_client where
  "ex_client ns = Some (\<lambda>name.
     if name = ''a'' then (Some (ex_api_pod name ''10.0.0.1''), None)
     else if name = ''b'' then (Some (ex_api_pod name ''10.0.0.2''), None)
     else (None, Some (OtherErr ''not found'')))"

definition moved_client :: pod_client where
  "moved_client ns = Some (\<lambda>name. (Some (ex_api_pod name ''10.0.0.9''), None))"

definition ex_env :: "nat \<Rightarrow> call_env" where
  "ex_env i = \<lparr>env_client = ex_client, env_now = 0\<rparr>"

definition ex_pod :: "string \<Rightarrow> pb_Pod" where
  "ex_pod name = \<lparr>pp_Namespace = ''default'', pp_Name = name\<rparr>"

definition ex_req :: "string list \<Rightarrow> SetDNSChaosRequest" where
  "ex_req names =
     \<lparr>req_Name = ''c'', req_Pods = map ex_pod names, req_Action = ActionRandom, req_Scope = '''',
      req_Selector = '''', req_Patterns = [''x.com'']\<rparr>"

definition ex_registry :: "string list registry" where
  "ex_registry = fst (SetDNSChaos ex_trie ex_env (ex_req [''a'', ''b'']) empty_registry)"

lemmas ex_simps = ex_req_def ex_pod_def ex_env_def ex_client_def ex_api_pod_def ex_trie_def
  Contains_single getPodFromCluster_def pod_key_def zero_api_Pod_def moved_client_def

lemma ex_selector:
  "build_selector ex_trie (NewTrieSelector ex_trie) (req_Patterns (ex_req names)) =
     Inr [''x.com.'', ''x.com'']"
  by (simp add: ex_req_def ex_trie_def Contains_single)

lemma ex_registry_ok: "registry_wf ex_registry" "registry_synced ex_registry"
  using SetDNSChaos_ok [OF empty_registry_ok, of ex_trie ex_env "ex_req [''a'', ''b'']"]
  by (simp_all add: ex_registry_def registry_ok_def)

lemma ex_registry_chaos: "fmlookup (chaosMap ex_registry) ''c'' = Some (ex_req [''a'', ''b''])"
  by (simp add: ex_registry_def) (simp add: ex_req_def)

theorem CancelDNSChaos_removes_witness:
  "no_empty_namespace (podMap (fst (CancelDNSChaos ''c'' ex_registry))) \<and>
   pod_lookup (podMap (fst (CancelDNSChaos ''c'' ex_registry))) (''default'', ''a'') = None \<and>
   {ip. \<exists>a p. fmlookup (ipPodMap (fst (CancelDNSChaos ''c'' ex_registry))) ip = Some a \<and>
          fmlookup (pod_heap ex_registry) a = Some p \<and> (pi_Namespace p, pi_Name p) = (''default'', ''a'')} = {}"
  using CancelDNSChaos_removes [OF ex_registry_ok(1) ex_registry_chaos] ex_registry_ok(2)
  by (fastforce simp: ex_simps)


theorem SetDNSChaos_registers_witness:
  "\<exists>a. fmlookup (ipPodMap ex_registry) ''10.0.0.1'' = Some a \<and>
       pod_lookup (podMap ex_registry) (''default'', ''a'') = Some a \<and>
       getChaosPod ex_client 5 6 ''10.0.0.1'' ex_registry = (ex_registry, Ret (Some a, None))"
proof -
  have pods: "req_Pods (ex_req [''a'', ''b'']) = [] @ ex_pod ''a'' # [ex_pod ''b'']"
    by (simp add: ex_req_def)
  have "all_found (cluster_answers ex_env 0 (req_Pods (ex_req [''a'', ''b''])))"
    and "cluster_answers ex_env 0 (req_Pods (ex_req [''a'', ''b''])) ! length [] =
           (Some (ex_api_pod ''a'' ''10.0.0.1''), None)"
    and "distinct (map pod_key (req_Pods (ex_req [''a'', ''b''])))"
    and "ap_PodIP (ex_api_pod ''a'' ''10.0.0.1'') \<notin>
           answered_ips (cluster_answers ex_env (Suc (length [])) [ex_pod ''b''])"
    by (simp_all add: ex_simps answered_ips_def)
  note reg = SetDNSChaos_registers [OF empty_registry_wf ex_selector pods this]
  have ip: "ap_PodIP (ex_api_pod ''a'' ''10.0.0.1'') = ''10.0.0.1''"
    and key: "pod_key (ex_pod ''a'') = (''default'', ''a'')" and now: "env_now (ex_env i) = 0" for i
    by (simp_all add: ex_simps)
  from reg obtain a where
    "fmlookup (ipPodMap ex_registry) ''10.0.0.1'' = Some a"
    "pod_lookup (podMap ex_registry) (''default'', ''a'') = Some a"
    "\<forall>client t t'. t \<le> 10000000000 \<longrightarrow>
       getChaosPod client t t' ''10.0.0.1'' ex_registry = (ex_registry, Ret (Some a, None))"
    unfolding ex_registry_def by (auto simp: Let_def split_beta ip key now empty_registry_def pod_lookup_def)
  then show ?thesis by auto
qed

theorem SetDNSChaos_partial_witness:
  "snd (SetDNSChaos ex_trie ex_env (ex_req [''a'', ''zz'', ''b'']) empty_registry) =
     Ret (None, Some (OtherErr ''not found''))"
proof -
  have "req_Pods (ex_req [''a'', ''zz'', ''b'']) = [ex_pod ''a''] @ ex_pod ''zz'' # [ex_pod ''b'']"
    by (simp add: ex_req_def)
  from SetDNSChaos_partial [OF this, of ex_env None "OtherErr ''not found''" ex_trie, OF _ _ ex_selector]
  show ?thesis by (simp add: ex_simps)
qed

definition ex_moved :: "string list registry" where
  "ex_moved = fst (SetDNSChaos ex_trie ex_env (ex_req [''a'']) empty_registry)"

definition ex_moved_pod :: "string list PodInfo" where
  "ex_moved_pod =
     new_PodInfo (ex_pod ''a'') ActionRandom '''' [''x.com.'', ''x.com''] (ex_api_pod ''a'' ''10.0.0.1'') 0"

lemma ex_moved_eq:
  "ex_moved =
     add_pod ex_moved_pod
       (unregister (ex_pod ''a'')
          (empty_registry\<lparr>chaosMap := fmupd ''c'' (ex_req [''a'']) fmempty\<rparr>))"
  unfolding ex_moved_def SetDNSChaos_selector_ok [OF ex_selector]
  by (simp add: ex_simps ex_moved_pod_def empty_registry_def)

theorem moved_pod_stays_witness:
  "fmlookup (ipPodMap (fst (CancelDNSChaos ''c''
     (fst (getChaosPod moved_client 10000000001 7 ''10.0.0.1'' ex_moved))))) ''10.0.0.1'' = Some 0"
proof -
  have sel: "pi_Namespace ex_moved_pod = ''default''" "pi_Name ex_moved_pod = ''a''"
    "pi_IP ex_moved_pod = ''10.0.0.1''" "pi_LastUpdateTime ex_moved_pod = 0"
    by (simp_all add: ex_moved_pod_def new_PodInfo_def ex_simps)
  have "registry_wf ex_moved" unfolding ex_moved_def by (rule SetDNSChaos_wf [OF empty_registry_wf])
  moreover have "fmlookup (chaosMap ex_moved) ''c'' = Some (ex_req [''a''])"
    "pod_lookup (podMap ex_moved) (pi_Namespace ex_moved_pod, pi_Name ex_moved_pod) = Some 0"
    "fmlookup (ipPodMap ex_moved) (pi_IP ex_moved_pod) = Some 0"
    "fmlookup (pod_heap ex_moved) 0 = Some ex_moved_pod"
    by (simp_all add: ex_moved_eq empty_registry_def)
  moreover have "pod_key ` set (req_Pods (ex_req [''a''])) = {(pi_Namespace ex_moved_pod, pi_Name ex_moved_pod)}"
    "IsOverdue 10000000001 ex_moved_pod"
    "getPodFromCluster moved_client (pi_Namespace ex_moved_pod) (pi_Name ex_moved_pod) =
       (Some (ex_api_pod ''a'' ''10.0.0.9''), None)"
    "ap_PodIP (ex_api_pod ''a'' ''10.0.0.9'') \<noteq> pi_IP ex_moved_pod"
    by (simp_all add: sel IsOverdue_def ex_simps)
  ultimately show ?thesis
    using moved_pod_stays [of ex_moved "''c''" "ex_req [''a'']" ex_moved_pod 0 10000000001 moved_client
        "ex_api_pod ''a'' ''10.0.0.9''" 7] by (simp add: sel Let_def)
qed

end
