(* ===== verification/Backend.thy ===== *)
theory Backend
  imports Controller Parse
begin

text \<open>
  \<open>src/namespace.go\<close> and the record lookup of \<open>src/kubernetes.go\<close>: which namespaces the plugin
  answers for, and how a parsed query is turned into the services, endpoints and pods that answer
  it.  Lookups go through the interface \<open>dnsController\<close>, whose methods may panic.
\<close>

section \<open>The plugin's configuration\<close>

text \<open>
  The fields of the struct \<open>Kubernetes\<close> that configure lookups.  Its chaos maps are the registry of
  theory \<open>Chaos\<close>.
\<close>

record Kubernetes =
  k_Zones :: "string list"
  k_APIConn :: dnsController
  k_Namespaces :: "string fset"
  k_podMode :: string
  k_endpointNameMode :: bool
  k_ttl :: uint32
  k_opts :: dnsControlOpts
  k_primaryZoneIndex :: int
  k_localIPs :: "IP list"
  k_autoPathSearch :: "string list"
  k_TransferTo :: "string list"

abbreviation podModeDisabled :: string where "podModeDisabled \<equiv> ''disabled''"
abbreviation podModeVerified :: string where "podModeVerified \<equiv> ''verified''"
abbreviation podModeInsecure :: string where "podModeInsecure \<equiv> ''insecure''"
abbreviation coredns :: string where "coredns \<equiv> ''c''"

section \<open>Namespaces and wildcards\<close>

definition filteredNamespaceExists :: "Kubernetes \<Rightarrow> string \<Rightarrow> bool" where
  "filteredNamespaceExists k namespace =
     (case api_GetNamespaceByName (k_APIConn k) namespace of
        Inl err \<Rightarrow> False
      | Inr name \<Rightarrow> name = namespace)"

definition configuredNamespace :: "Kubernetes \<Rightarrow> string \<Rightarrow> bool" where
  "configuredNamespace k namespace =
     (let ok = namespace |\<in>| k_Namespaces k in
      if fcard (k_Namespaces k) > 0 \<and> \<not> ok then False else True)"

definition namespaceExposed :: "Kubernetes \<Rightarrow> string \<Rightarrow> bool" where
  "namespaceExposed k namespace =
     (configuredNamespace k namespace \<and> filteredNamespaceExists k namespace)"

definition wildcard :: "string \<Rightarrow> bool" where
  "wildcard s = (s = ''*'' \<or> s = ''any'')"

definition match :: "string \<Rightarrow> string \<Rightarrow> bool" where
  "match a b = (if wildcard a then True else if wildcard b then True else EqualFold a b)"

definition endpointHostname :: "EndpointAddress \<Rightarrow> bool \<Rightarrow> string" where
  "endpointHostname addr endpointNameMode =
     (if ea_Hostname addr \<noteq> '''' then ea_Hostname addr
      else if endpointNameMode \<and> ea_TargetRefName addr \<noteq> '''' then ea_TargetRefName addr
      else if Contains (ea_IP addr) ''.'' then ReplaceByte (ea_IP addr) CHR ''.'' CHR ''-''
      else if Contains (ea_IP addr) '':'' then ReplaceByte (ea_IP addr) CHR '':'' CHR ''-''
      else '''')"

section \<open>Pods\<close>

definition pod_name_ip :: "string \<Rightarrow> string" where
  "pod_name_ip podname =
     (if CountByte podname CHR ''-'' = 3 \<and> \<not> Contains podname ''--''
      then ReplaceByte podname CHR ''-'' CHR ''.''
      else ReplaceByte podname CHR ''-'' CHR '':'')"

definition pod_service :: "Kubernetes \<Rightarrow> string \<Rightarrow> string \<Rightarrow> string \<Rightarrow> string \<Rightarrow> msg_Service" where
  "pod_service k zonePath namespace podname ip =
     zero_msg_Service\<lparr>ms_Key := Join [zonePath, kindPod, namespace, podname] ''/'',
                      ms_Host := ip, ms_TTL := k_ttl k\<rparr>"

text \<open>The loop over the pods that the cache has under the address.\<close>

fun findPods_loop ::
  "Kubernetes \<Rightarrow> string \<Rightarrow> string \<Rightarrow> string \<Rightarrow> string \<Rightarrow> Pod list \<Rightarrow> msg_Service list \<Rightarrow>
   go_err option \<Rightarrow> msg_Service list \<times> go_err option" where
  "findPods_loop k zonePath namespace podname ip [] pods err = (pods, err)"
| "findPods_loop k zonePath namespace podname ip (p # ps) pods err =
     (if wildcard namespace \<and> \<not> namespaceExposed k (pod_Namespace p)
      then findPods_loop k zonePath namespace podname ip ps pods err
      else if ip = pod_PodIP p \<and> match namespace (pod_Namespace p)
      then findPods_loop k zonePath namespace podname ip ps
             (pods @ [pod_service k zonePath namespace podname ip]) None
      else findPods_loop k zonePath namespace podname ip ps pods err)"

definition findPods :: "dns_lib \<Rightarrow> Kubernetes \<Rightarrow> recordRequest \<Rightarrow> string \<Rightarrow> svc_result" where
  "findPods x k r zone =
     (if k_podMode k = podModeDisabled then Ret ([], Some errNoItems)
      else
        let namespace = rr_namespace r in
        if \<not> wildcard namespace \<and> \<not> namespaceExposed k namespace then Ret ([], Some errNoItems)
        else
          let podname = rr_service r in
          if podname = '''' then
            (if namespaceExposed k namespace \<or> wildcard namespace then Ret ([], None)
             else Ret ([], Some errNoItems))
          else
            let zonePath = msg_Path x zone coredns;
                ip = pod_name_ip podname in
            if k_podMode k = podModeInsecure then
              (if \<not> wildcard namespace \<and> \<not> namespaceExposed k namespace
               then Ret ([], Some errNoItems)
               else if ParseIP ip = None then Ret ([], Some errNoItems)
               else Ret ([pod_service k zonePath namespace podname ip], None))
            else
              let err = (if wildcard podname \<and> \<not> wildcard namespace
                         then (if namespaceExposed k namespace then None else Some errNoItems)
                         else Some errNoItems) in
              go_bind (api_PodIndex (k_APIConn k) ip)
                (\<lambda>ps. Ret (findPods_loop k zonePath namespace podname ip ps [] err)))"

section \<open>Services\<close>

type_synonym svc_acc = "msg_Service list \<times> go_err option"

text \<open>The four nested loops over the endpoints of a service, innermost first.\<close>

fun ep_ports_loop ::
  "Kubernetes \<Rightarrow> recordRequest \<Rightarrow> string \<Rightarrow> Service \<Rightarrow> EndpointAddress \<Rightarrow> EndpointPort list \<Rightarrow>
   svc_acc \<Rightarrow> svc_acc" where
  "ep_ports_loop k r zonePath svc addr [] acc = acc"
| "ep_ports_loop k r zonePath svc addr (p # ps) acc =
     (if \<not> (match (rr_port r) (epp_Name p) \<and> match (rr_protocol r) (epp_Protocol p))
      then ep_ports_loop k r zonePath svc addr ps acc
      else
        let s = zero_msg_Service\<lparr>ms_Host := ea_IP addr, ms_Port := sint (epp_Port p), ms_TTL := k_ttl k\<rparr>;
            s = s\<lparr>ms_Key := Join [zonePath, kindSvc, svc_Namespace svc, svc_Name svc,
                                 endpointHostname addr (k_endpointNameMode k)] ''/''\<rparr>
        in ep_ports_loop k r zonePath svc addr ps (fst acc @ [s], None))"

fun ep_addresses_loop ::
  "Kubernetes \<Rightarrow> recordRequest \<Rightarrow> string \<Rightarrow> Service \<Rightarrow> EndpointPort list \<Rightarrow> EndpointAddress list \<Rightarrow>
   svc_acc \<Rightarrow> svc_acc" where
  "ep_addresses_loop k r zonePath svc ports [] acc = acc"
| "ep_addresses_loop k r zonePath svc ports (addr # as) acc =
     (if rr_endpoint r \<noteq> '''' \<and>
         \<not> match (rr_endpoint r) (endpointHostname addr (k_endpointNameMode k))
      then ep_addresses_loop k r zonePath svc ports as acc
      else ep_addresses_loop k r zonePath svc ports as
             (ep_ports_loop k r zonePath svc addr ports acc))"

fun ep_subsets_loop ::
  "Kubernetes \<Rightarrow> recordRequest \<Rightarrow> string \<Rightarrow> Service \<Rightarrow> EndpointSubset list \<Rightarrow> svc_acc \<Rightarrow> svc_acc" where
  "ep_subsets_loop k r zonePath svc [] acc = acc"
| "ep_subsets_loop k r zonePath svc (eps # es) acc =
     ep_subsets_loop k r zonePath svc es
       (ep_addresses_loop k r zonePath svc (sub_Ports eps) (sub_Addresses eps) acc)"

fun ep_list_loop ::
  "Kubernetes \<Rightarrow> recordRequest \<Rightarrow> string \<Rightarrow> Service \<Rightarrow> Endpoints list \<Rightarrow> svc_acc \<Rightarrow> svc_acc" where
  "ep_list_loop k r zonePath svc [] acc = acc"
| "ep_list_loop k r zonePath svc (ep # es) acc =
     (if ep_Name ep \<noteq> svc_Name svc \<or> ep_Namespace ep \<noteq> svc_Namespace svc
      then ep_list_loop k r zonePath svc es acc
      else ep_list_loop k r zonePath svc es (ep_subsets_loop k r zonePath svc (ep_Subsets ep) acc))"

text \<open>The ports of a service with a cluster address.\<close>

fun svc_ports_loop ::
  "Kubernetes \<Rightarrow> recordRequest \<Rightarrow> string \<Rightarrow> Service \<Rightarrow> ServicePort list \<Rightarrow> svc_acc \<Rightarrow> svc_acc" where
  "svc_ports_loop k r zonePath svc [] acc = acc"
| "svc_ports_loop k r zonePath svc (p # ps) acc =
     (if \<not> (match (rr_port r) (sp_Name p) \<and> match (rr_protocol r) (sp_Protocol p))
      then svc_ports_loop k r zonePath svc ps acc
      else
        let s = zero_msg_Service\<lparr>ms_Host := svc_ClusterIP svc, ms_Port := sint (sp_Port p), ms_TTL := k_ttl k\<rparr>;
            s = s\<lparr>ms_Key := Join [zonePath, kindSvc, svc_Namespace svc, svc_Name svc] ''/''\<rparr>
        in svc_ports_loop k r zonePath svc ps (fst acc @ [s], None))"

fun podsCount :: "nat \<Rightarrow> Endpoints list \<Rightarrow> nat" where
  "podsCount n [] = n"
| "podsCount n (ep # eps) =
     podsCount (fold (\<lambda>sub c. c + length (sub_Addresses sub)) (ep_Subsets ep) n) eps"

text \<open>
  The loop over the services.  \<open>getEps\<close> is \<open>endpointsListFunc\<close>, called when needed;
  \<open>cached\<close> is \<open>endpointsList\<close>, fetched once it is first needed (an empty slice is nil).
\<close>

fun services_loop ::
  "dns_lib \<Rightarrow> Kubernetes \<Rightarrow> recordRequest \<Rightarrow> string \<Rightarrow> Endpoints list go \<Rightarrow> Service list \<Rightarrow>
   Endpoints list \<Rightarrow> svc_acc \<Rightarrow> svc_acc go" where
  "services_loop x k r zonePath getEps [] cached acc = Ret acc"
| "services_loop x k r zonePath getEps (svc # svcs) cached acc =
     (if \<not> (match (rr_namespace r) (svc_Namespace svc) \<and> match (rr_service r) (svc_Name svc))
      then services_loop x k r zonePath getEps svcs cached acc
      else if wildcard (rr_namespace r) \<and> \<not> namespaceExposed k (svc_Namespace svc)
      then services_loop x k r zonePath getEps svcs cached acc
      else
        go_bind
          (if opt_ignoreEmptyService (k_opts k) \<and> svc_ClusterIP svc \<noteq> ClusterIPNone \<and>
              svc_Type svc \<noteq> ServiceTypeExternalName
           then go_bind getEps (\<lambda>es. Ret (podsCount 0 es = 0))
           else Ret False)
          (\<lambda>skip.
            if skip then services_loop x k r zonePath getEps svcs cached acc
            else if svc_ClusterIP svc = ClusterIPNone \<or> rr_endpoint r \<noteq> '''' then
              go_bind (if cached = [] then getEps else Ret cached)
                (\<lambda>cached. services_loop x k r zonePath getEps svcs cached
                            (ep_list_loop k r zonePath svc cached acc))
            else if svc_Type svc = ServiceTypeExternalName then
              (let s = zero_msg_Service\<lparr>ms_Key := Join [zonePath, kindSvc, svc_Namespace svc,
                                                        svc_Name svc] ''/'',
                                        ms_Host := svc_ExternalName svc, ms_TTL := k_ttl k\<rparr> in
               if HostType x s = TypeCNAME
               then services_loop x k r zonePath getEps svcs cached (fst acc @ [s], None)
               else services_loop x k r zonePath getEps svcs cached acc)
            else services_loop x k r zonePath getEps svcs cached
                   (svc_ports_loop k r zonePath svc (svc_Ports svc) acc)))"

definition findServices :: "dns_lib \<Rightarrow> Kubernetes \<Rightarrow> recordRequest \<Rightarrow> string \<Rightarrow> svc_result" where
  "findServices x k r zone =
     (if \<not> wildcard (rr_namespace r) \<and> \<not> namespaceExposed k (rr_namespace r)
      then Ret ([], Some errNoItems)
      else if rr_service r = '''' then
        (if namespaceExposed k (rr_namespace r) \<or> wildcard (rr_namespace r) then Ret ([], None)
         else Ret ([], Some errNoItems))
      else
        let err = (if wildcard (rr_service r) \<and> \<not> wildcard (rr_namespace r)
                   then (if namespaceExposed k (rr_namespace r) then None else Some errNoItems)
                   else Some errNoItems);
            idx = ServiceKey (rr_service r) (rr_namespace r);
            wild = (wildcard (rr_service r) \<or> wildcard (rr_namespace r));
            getEps = (if wild then api_EndpointsList (k_APIConn k)
                      else api_EpIndex (k_APIConn k) idx);
            zonePath = msg_Path x zone coredns in
        go_bind (if wild then api_ServiceList (k_APIConn k) else api_SvcIndex (k_APIConn k) idx)
          (\<lambda>serviceList. services_loop x k r zonePath getEps serviceList [] ([], err)))"

section \<open>Records\<close>

definition Records :: "dns_lib \<Rightarrow> Kubernetes \<Rightarrow> Request \<Rightarrow> bool \<Rightarrow> svc_result" where
  "Records x k state exact =
     go_bind (parseRequest x (rq_Name state) (rq_Zone state))
       (\<lambda>(r, e).
          if e \<noteq> None then Ret ([], e)
          else if rr_podOrSvc r = '''' then Ret ([], None)
          else if IsReverse x (rq_Name state) > 0 then Ret ([], Some errNoItems)
          else if \<not> wildcard (rr_namespace r) \<and> \<not> namespaceExposed k (rr_namespace r)
          then Ret ([], Some errNsNotExposed)
          else if rr_podOrSvc r = kindPod then findPods x k r (rq_Zone state)
          else findServices x k r (rq_Zone state))"

section \<open>The loops as list comprehensions\<close>

text \<open>Appending answers clears the error, appending none keeps it.\<close>

definition push :: "msg_Service list \<Rightarrow> svc_acc \<Rightarrow> svc_acc" where
  "push L acc = (fst acc @ L, if L = [] then snd acc else None)"

lemma push_Nil [simp]: "push [] acc = acc"
  by (simp add: push_def)

lemma push_push [simp]: "push L (push K acc) = push (K @ L) acc"
  by (simp add: push_def)

lemma push_single: "(fst acc @ [s], None) = push [s] acc"
  by (simp add: push_def)

definition ep_answer :: "Kubernetes \<Rightarrow> string \<Rightarrow> Service \<Rightarrow> EndpointAddress \<Rightarrow> EndpointPort \<Rightarrow> msg_Service" where
  "ep_answer k zonePath svc addr p =
     zero_msg_Service\<lparr>ms_Host := ea_IP addr, ms_Port := sint (epp_Port p), ms_TTL := k_ttl k,
       ms_Key := Join [zonePath, kindSvc, svc_Namespace svc, svc_Name svc,
                       endpointHostname addr (k_endpointNameMode k)] ''/''\<rparr>"

definition cluster_answer :: "Kubernetes \<Rightarrow> string \<Rightarrow> Service \<Rightarrow> ServicePort \<Rightarrow> msg_Service" where
  "cluster_answer k zonePath svc p =
     zero_msg_Service\<lparr>ms_Host := svc_ClusterIP svc, ms_Port := sint (sp_Port p), ms_TTL := k_ttl k,
       ms_Key := Join [zonePath, kindSvc, svc_Namespace svc, svc_Name svc] ''/''\<rparr>"

definition external_answer :: "Kubernetes \<Rightarrow> string \<Rightarrow> Service \<Rightarrow> msg_Service" where
  "external_answer k zonePath svc =
     zero_msg_Service\<lparr>ms_Host := svc_ExternalName svc, ms_TTL := k_ttl k,
       ms_Key := Join [zonePath, kindSvc, svc_Namespace svc, svc_Name svc] ''/''\<rparr>"

definition port_wanted :: "recordRequest \<Rightarrow> string \<Rightarrow> string \<Rightarrow> bool" where
  "port_wanted r name protocol \<longleftrightarrow> match (rr_port r) name \<and> match (rr_protocol r) protocol"

definition addr_wanted :: "Kubernetes \<Rightarrow> recordRequest \<Rightarrow> EndpointAddress \<Rightarrow> bool" where
  "addr_wanted k r addr \<longleftrightarrow>
     rr_endpoint r = '''' \<or> match (rr_endpoint r) (endpointHostname addr (k_endpointNameMode k))"

definition endpoints_answers ::
  "Kubernetes \<Rightarrow> recordRequest \<Rightarrow> string \<Rightarrow> Service \<Rightarrow> Endpoints list \<Rightarrow> msg_Service list" where
  "endpoints_answers k r zonePath svc eps =
     [ep_answer k zonePath svc addr p.
        ep \<leftarrow> eps, ep_Name ep = svc_Name svc \<and> ep_Namespace ep = svc_Namespace svc,
        sub \<leftarrow> ep_Subsets ep,
        addr \<leftarrow> sub_Addresses sub, addr_wanted k r addr,
        p \<leftarrow> sub_Ports sub, port_wanted r (epp_Name p) (epp_Protocol p)]"

definition service_answers ::
  "dns_lib \<Rightarrow> Kubernetes \<Rightarrow> recordRequest \<Rightarrow> string \<Rightarrow> Endpoints list \<Rightarrow> Service \<Rightarrow> msg_Service list" where
  "service_answers x k r zonePath eps svc =
     (if svc_ClusterIP svc = ClusterIPNone \<or> rr_endpoint r \<noteq> ''''
      then endpoints_answers k r zonePath svc eps
      else if svc_Type svc = ServiceTypeExternalName
      then filter (\<lambda>s. HostType x s = TypeCNAME) [external_answer k zonePath svc]
      else [cluster_answer k zonePath svc p. p \<leftarrow> svc_Ports svc, port_wanted r (sp_Name p) (sp_Protocol p)])"

text \<open>The services a query selects, given the endpoints it consults.\<close>

definition service_wanted :: "Kubernetes \<Rightarrow> recordRequest \<Rightarrow> Endpoints list \<Rightarrow> Service \<Rightarrow> bool" where
  "service_wanted k r eps svc \<longleftrightarrow>
     match (rr_namespace r) (svc_Namespace svc) \<and> match (rr_service r) (svc_Name svc) \<and>
     (wildcard (rr_namespace r) \<longrightarrow> namespaceExposed k (svc_Namespace svc)) \<and>
     \<not> (opt_ignoreEmptyService (k_opts k) \<and> svc_ClusterIP svc \<noteq> ClusterIPNone \<and>
        svc_Type svc \<noteq> ServiceTypeExternalName \<and> podsCount 0 eps = 0)"

lemma ep_ports_loop_eq:
  "ep_ports_loop k r zp svc addr ps acc =
     push [ep_answer k zp svc addr p. p \<leftarrow> ps, port_wanted r (epp_Name p) (epp_Protocol p)] acc"
  by (induction ps arbitrary: acc)
    (auto simp: Let_def port_wanted_def ep_answer_def push_single simp flip: push_def)

lemma ep_addresses_loop_eq:
  "ep_addresses_loop k r zp svc ports as acc =
     push [ep_answer k zp svc addr p. addr \<leftarrow> as, addr_wanted k r addr,
             p \<leftarrow> ports, port_wanted r (epp_Name p) (epp_Protocol p)] acc"
  by (induction as arbitrary: acc) (auto simp: ep_ports_loop_eq addr_wanted_def)

lemma ep_subsets_loop_eq:
  "ep_subsets_loop k r zp svc es acc =
     push [ep_answer k zp svc addr p. sub \<leftarrow> es, addr \<leftarrow> sub_Addresses sub, addr_wanted k r addr,
             p \<leftarrow> sub_Ports sub, port_wanted r (epp_Name p) (epp_Protocol p)] acc"
  by (induction es arbitrary: acc) (auto simp: ep_addresses_loop_eq)

lemma ep_list_loop_eq:
  "ep_list_loop k r zp svc eps acc = push (endpoints_answers k r zp svc eps) acc"
  by (induction eps arbitrary: acc) (auto simp: ep_subsets_loop_eq endpoints_answers_def)

lemma svc_ports_loop_eq:
  "svc_ports_loop k r zp svc ps acc =
     push [cluster_answer k zp svc p. p \<leftarrow> ps, port_wanted r (sp_Name p) (sp_Protocol p)] acc"
  by (induction ps arbitrary: acc)
    (auto simp: Let_def port_wanted_def cluster_answer_def push_single)

lemma services_loop_eq:
  assumes "cached = [] \<or> cached = eps"
  shows "services_loop x k r zp (Ret eps) svcs cached acc =
           Ret (push (concat (map (service_answers x k r zp eps) (filter (service_wanted k r eps) svcs))) acc)"
  using assms
proof (induction svcs arbitrary: cached acc)
  case (Cons svc svcs)
  let ?rest = "\<lambda>acc. Ret (push (concat (map (service_answers x k r zp eps) (filter (service_wanted k r eps) svcs))) acc)"
  have IH: "services_loop x k r zp (Ret eps) svcs c acc = ?rest acc" if "c = [] \<or> c = eps" for c acc
    by (rule Cons.IH [OF that])
  have fetch: "(if cached = [] then Ret eps else Ret cached) = Ret eps" using Cons.prems by auto
  show ?case
    by (simp add: IH Cons.prems fetch ep_list_loop_eq svc_ports_loop_eq
          service_wanted_def [of k r eps svc] service_answers_def [of x k r zp eps svc]
          external_answer_def zero_msg_Service_def push_single Let_def)
qed simp

section \<open>What a query should be answered with\<close>

text \<open>
  The abstract side, over the sets of cached objects: which services a query selects, and which
  answers a selected service offers, given the endpoints \<open>E\<close> that are consulted.
\<close>

definition service_selected :: "Kubernetes \<Rightarrow> recordRequest \<Rightarrow> Endpoints set \<Rightarrow> Service \<Rightarrow> bool" where
  "service_selected k r E svc \<longleftrightarrow>
     match (rr_namespace r) (svc_Namespace svc) \<and> match (rr_service r) (svc_Name svc) \<and>
     (wildcard (rr_namespace r) \<longrightarrow> namespaceExposed k (svc_Namespace svc)) \<and>
     (opt_ignoreEmptyService (k_opts k) \<longrightarrow> svc_ClusterIP svc = ClusterIPNone \<or>
        svc_Type svc = ServiceTypeExternalName \<or>
        (\<exists>ep \<in> E. \<exists>sub \<in> set (ep_Subsets ep). sub_Addresses sub \<noteq> []))"

inductive offers ::
  "dns_lib \<Rightarrow> Kubernetes \<Rightarrow> recordRequest \<Rightarrow> string \<Rightarrow> Endpoints set \<Rightarrow> Service \<Rightarrow> msg_Service \<Rightarrow> bool"
  for x k r zonePath E svc where
  endpoint:
    "svc_ClusterIP svc = ClusterIPNone \<or> rr_endpoint r \<noteq> '''' \<Longrightarrow>
     ep \<in> E \<Longrightarrow> ep_Name ep = svc_Name svc \<Longrightarrow> ep_Namespace ep = svc_Namespace svc \<Longrightarrow>
     sub \<in> set (ep_Subsets ep) \<Longrightarrow> addr \<in> set (sub_Addresses sub) \<Longrightarrow> addr_wanted k r addr \<Longrightarrow>
     p \<in> set (sub_Ports sub) \<Longrightarrow> port_wanted r (epp_Name p) (epp_Protocol p) \<Longrightarrow>
     offers x k r zonePath E svc (ep_answer k zonePath svc addr p)"
| external:
    "svc_ClusterIP svc \<noteq> ClusterIPNone \<Longrightarrow> rr_endpoint r = '''' \<Longrightarrow>
     svc_Type svc = ServiceTypeExternalName \<Longrightarrow>
     HostType x (external_answer k zonePath svc) = TypeCNAME \<Longrightarrow>
     offers x k r zonePath E svc (external_answer k zonePath svc)"
| cluster:
    "svc_ClusterIP svc \<noteq> ClusterIPNone \<Longrightarrow> rr_endpoint r = '''' \<Longrightarrow>
     svc_Type svc \<noteq> ServiceTypeExternalName \<Longrightarrow>
     p \<in> set (svc_Ports svc) \<Longrightarrow> port_wanted r (sp_Name p) (sp_Protocol p) \<Longrightarrow>
     offers x k r zonePath E svc (cluster_answer k zonePath svc p)"

inductive_cases offersE: "offers x k r zonePath E svc m"

lemma service_answers_offers:
  "m \<in> set (service_answers x k r zp eps svc) \<longleftrightarrow> offers x k r zp (set eps) svc m"
  by (auto simp: service_answers_def endpoints_answers_def elim!: offersE
        intro: offers.intros split: if_splits)

lemma subsets_count:
  "fold (\<lambda>sub c. c + length (sub_Addresses sub)) subs n =
     n + sum_list (map (length \<circ> sub_Addresses) subs)"
  by (induction subs arbitrary: n) auto

lemma podsCount_0_iff:
  "podsCount n eps = 0 \<longleftrightarrow> n = 0 \<and> (\<forall>ep \<in> set eps. \<forall>sub \<in> set (ep_Subsets ep). sub_Addresses sub = [])"
  by (induction eps arbitrary: n) (auto simp: subsets_count)

lemma service_wanted_selected: "service_wanted k r eps svc \<longleftrightarrow> service_selected k r (set eps) svc"
  by (auto simp: service_wanted_def service_selected_def podsCount_0_iff)

definition wild_request :: "recordRequest \<Rightarrow> bool" where
  "wild_request r \<longleftrightarrow> wildcard (rr_service r) \<or> wildcard (rr_namespace r)"

text \<open>A query without wildcards only sees the objects under its key.\<close>

definition in_scope :: "recordRequest \<Rightarrow> ('o \<Rightarrow> string) \<Rightarrow> 'o set \<Rightarrow> 'o set" where
  "in_scope r key S =
     (if wild_request r then S else {s \<in> S. key s = ServiceKey (rr_service r) (rr_namespace r)})"

context controller_contract
begin

lemma findServices_answers:
  assumes api: "k_APIConn k = api" and named: "rr_service r \<noteq> ''''"
    and exposed: "wildcard (rr_namespace r) \<or> namespaceExposed k (rr_namespace r)"
  shows "\<exists>ans err. findServices x k r zone = Ret (ans, err) \<and>
     set ans = {m. \<exists>svc \<in> in_scope r svc_Index svcs.
                     service_selected k r (in_scope r ep_Index eps) svc \<and>
                     offers x k r (msg_Path x zone coredns) (in_scope r ep_Index eps) svc m} \<and>
     err = (if ans = [] \<and> \<not> (wildcard (rr_service r) \<and> \<not> wildcard (rr_namespace r))
            then Some errNoItems else None)"
proof -
  let ?key = "ServiceKey (rr_service r) (rr_namespace r)"
  obtain ss where ss: "(if wild_request r then api_ServiceList api else api_SvcIndex api ?key) = Ret ss"
      "set ss = in_scope r svc_Index svcs"
    using services by_name [of ?key] by (cases "wild_request r") (auto simp: in_scope_def)
  obtain es where es: "(if wild_request r then api_EndpointsList api else api_EpIndex api ?key) = Ret es"
      "set es = in_scope r ep_Index eps"
    using endpoints ep_by_name [of ?key] by (cases "wild_request r") (auto simp: in_scope_def)
  let ?zp = "msg_Path x zone coredns"
  let ?ans = "concat (map (service_answers x k r ?zp es) (filter (service_wanted k r es) ss))"
  let ?err = "if wildcard (rr_service r) \<and> \<not> wildcard (rr_namespace r) then None else Some errNoItems"
  have eq: "findServices x k r zone = Ret (push ?ans ([], ?err))"
    using exposed named ss(1) es(1)
    by (auto simp: findServices_def api wild_request_def Let_def services_loop_eq)
  have ans: "set ?ans = {m. \<exists>svc \<in> set ss. service_selected k r (set es) svc \<and> offers x k r ?zp (set es) svc m}"
    by (auto simp: service_wanted_selected service_answers_offers)
  show ?thesis
  proof (intro exI conjI)
    show "findServices x k r zone = Ret (?ans, if ?ans = [] then ?err else None)"
      unfolding eq push_def by simp
  qed (use ans in \<open>simp_all only: ss(2) es(2) if_False if_True split: if_splits, auto\<close>)
qed

lemma namespaceExposed_iff:
  "k_APIConn k = api \<Longrightarrow>
   namespaceExposed k ns \<longleftrightarrow> (k_Namespaces k = {||} \<or> ns |\<in>| k_Namespaces k) \<and> ns \<in> nss"
proof -
  assume k: "k_APIConn k = api"
  have "filteredNamespaceExists k ns \<longleftrightarrow> ns \<in> nss"
    using namespaces [of ns ns] by (cases "api_GetNamespaceByName api ns")
      (auto simp: filteredNamespaceExists_def k)
  then show ?thesis
    by (auto simp: namespaceExposed_def configuredNamespace_def Let_def fcard_fempty)
qed

end

section \<open>Errors and empty answers\<close>

text \<open>The accumulator of the lookup loops: an error means that nothing was found yet.\<close>

definition acc_ok :: "svc_acc \<Rightarrow> bool" where
  "acc_ok acc \<longleftrightarrow> snd acc = None \<or> acc = ([], Some errNoItems)"

lemma push_ok: "acc_ok acc \<Longrightarrow> acc_ok (push L acc)"
  by (auto simp: acc_ok_def push_def)

lemma services_loop_without_endpoints:
  "services_loop x k r zp (Panic p) svcs [] acc = Ret acc' \<Longrightarrow> \<exists>L. acc' = push L acc"
proof (induction svcs arbitrary: acc)
  case Nil
  then show ?case by (auto intro: exI [of _ "[]"])
next
  case (Cons svc svcs)
  have "\<exists>K. services_loop x k r zp (Panic p) svcs [] (push K acc) = Ret acc'"
    using Cons.prems
    by (auto simp: Let_def svc_ports_loop_eq push_single split: if_splits intro: exI [of _ "[]"])
  then show ?case using Cons.IH by fastforce
qed

lemma services_loop_ok:
  "services_loop x k r zp getEps svcs [] acc = Ret acc' \<Longrightarrow> acc_ok acc \<Longrightarrow> acc_ok acc'"
  by (cases getEps) (auto simp: services_loop_eq push_ok dest!: services_loop_without_endpoints)

lemma findServices_ok: "findServices x k r zone = Ret acc \<Longrightarrow> acc_ok acc"
  by (auto simp: findServices_def Let_def go_bind_eq_Ret acc_ok_def split: if_splits
        dest!: services_loop_ok)

text \<open>Every pod found gives the same answer.\<close>

definition pod_wanted :: "Kubernetes \<Rightarrow> string \<Rightarrow> string \<Rightarrow> Pod \<Rightarrow> bool" where
  "pod_wanted k namespace ip p \<longleftrightarrow>
     (wildcard namespace \<longrightarrow> namespaceExposed k (pod_Namespace p)) \<and>
     pod_PodIP p = ip \<and> match namespace (pod_Namespace p)"

lemma findPods_loop_eq:
  "findPods_loop k zp namespace podname ip ps pods err =
     push (map (\<lambda>_. pod_service k zp namespace podname ip) (filter (pod_wanted k namespace ip) ps)) (pods, err)"
  by (induction ps arbitrary: pods err) (auto simp: pod_wanted_def push_def)

lemma findPods_ok: "findPods x k r zone = Ret acc \<Longrightarrow> acc_ok acc"
  by (auto simp: findPods_def Let_def go_bind_eq_Ret acc_ok_def findPods_loop_eq push_def
        split: if_splits)

lemma parseRequest_errors:
  "parseRequest x name zone = Ret (r, Some e) \<Longrightarrow> e = errInvalidRequest"
  by (auto simp: parseRequest_def parseRequest_walk_def Let_def go_bind_eq_Ret
        split: if_splits list.splits)

text \<open>A lookup that reports an error found nothing, whatever the caches.\<close>

lemma Records_error_empty:
  assumes "Records x k state exact = Ret (ans, Some e)"
  shows "ans = []"
  using assms
  by (auto simp: Records_def go_bind_eq_Ret acc_ok_def split: if_splits
        dest: findPods_ok findServices_ok)

section \<open>Correctness of service lookups\<close>

context lawful_control
begin

lemmas findServices_cached = findServices_answers
lemmas namespaceExposed_cached = namespaceExposed_iff

end

text \<open>
  C4: a service query for a name in an exposed namespace (or for all namespaces) returns exactly
  the answers the cached objects offer: an address and port for each ready endpoint of a headless
  service or of an endpoint query, a CNAME target for an external-name service, the cluster
  address for each wanted port otherwise; and from all matching services.  The lookup reports
  \<open>errNoItems\<close> exactly when there is no answer, except for a wildcard service in one namespace,
  where an empty answer is NODATA.
\<close>

theorem findServices_correct:
  assumes "lawful_store svc_indexers (dc_svcLister c)"
    and "dc_epLister c = Some ix" and "lawful_store ep_indexers ix"
    and "k_APIConn k = dnsControl_api c" and "rr_service r \<noteq> ''''"
    and "wildcard (rr_namespace r) \<or> namespaceExposed k (rr_namespace r)"
  shows "\<exists>ans err. findServices x k r zone = Ret (ans, err) \<and>
     set ans = {m. \<exists>svc \<in> in_scope r svc_Index (cached_services c).
                     service_selected k r (in_scope r ep_Index (cached_endpoints c)) svc \<and>
                     offers x k r (msg_Path x zone coredns)
                       (in_scope r ep_Index (cached_endpoints c)) svc m} \<and>
     err = (if ans = [] \<and> \<not> (wildcard (rr_service r) \<and> \<not> wildcard (rr_namespace r))
            then Some errNoItems else None)"
proof -
  have "lawful_control c" using assms(1-3) by unfold_locales auto
  then show ?thesis by (rule lawful_control.findServices_cached [OF _ assms(4-6)])
qed

lemma findServices_unexposed:
  "\<not> wildcard (rr_namespace r) \<Longrightarrow> \<not> namespaceExposed k (rr_namespace r) \<Longrightarrow>
   findServices x k r zone = Ret ([], Some errNoItems)"
  "rr_service r = '''' \<Longrightarrow> wildcard (rr_namespace r) \<or> namespaceExposed k (rr_namespace r) \<Longrightarrow>
   findServices x k r zone = Ret ([], None)"
  by (auto simp: findServices_def)

text \<open>
  C30: whatever the query, its answers come from services in namespaces the configuration exposes
  and the cluster knows, provided that no cached service lives in a namespace with a wildcard name
  and that namespace names are in lower case (the query is lower-cased before it is parsed).
\<close>

theorem findServices_exposed:
  assumes "lawful_store svc_indexers (dc_svcLister c)"
    and "dc_epLister c = Some ix" and "lawful_store ep_indexers ix"
    and "k_APIConn k = dnsControl_api c" and "ToLower (rr_namespace r) = rr_namespace r"
    and lower: "\<And>svc. svc \<in> cached_services c \<Longrightarrow>
           ToLower (svc_Namespace svc) = svc_Namespace svc \<and> \<not> wildcard (svc_Namespace svc)"
  shows "\<exists>ans err. findServices x k r zone = Ret (ans, err) \<and>
           set ans \<subseteq> {m. \<exists>svc \<in> cached_services c. namespaceExposed k (svc_Namespace svc) \<and>
                        offers x k r (msg_Path x zone coredns)
                          (in_scope r ep_Index (cached_endpoints c)) svc m}"
proof (cases "rr_service r \<noteq> '''' \<and> (wildcard (rr_namespace r) \<or> namespaceExposed k (rr_namespace r))")
  case True
  have "lawful_control c" using assms(1-3) by unfold_locales auto
  from lawful_control.findServices_cached [OF this assms(4)] True obtain ans err where
    ans: "findServices x k r zone = Ret (ans, err)"
      "set ans = {m. \<exists>svc \<in> in_scope r svc_Index (cached_services c).
                     service_selected k r (in_scope r ep_Index (cached_endpoints c)) svc \<and>
                     offers x k r (msg_Path x zone coredns)
                       (in_scope r ep_Index (cached_endpoints c)) svc m}"
    by blast
  have "namespaceExposed k (svc_Namespace svc)"
    if "svc \<in> in_scope r svc_Index (cached_services c)"
      "service_selected k r (in_scope r ep_Index (cached_endpoints c)) svc" for svc
  proof -
    have "svc \<in> cached_services c" using that(1) by (auto simp: in_scope_def split: if_splits)
    then show ?thesis using that(2) lower [of svc] assms(5) True
      by (auto simp: service_selected_def match_def EqualFold_def split: if_splits)
  qed
  with ans show ?thesis by (auto simp: in_scope_def split: if_splits)
next
  case False
  then have "\<exists>err. findServices x k r zone = Ret ([], err)"
    using findServices_unexposed [of r k x zone]
    by (cases "wildcard (rr_namespace r) \<or> namespaceExposed k (rr_namespace r)") auto
  then show ?thesis by auto
qed

text \<open>
  A service in a namespace that is named \<open>any\<close> answers wildcard queries for every other
  exposed namespace, even when its own namespace is not exposed: the wildcard test is applied to
  the object's namespace as well as to the query's.
\<close>

theorem any_namespace_leaks:
  assumes "lawful_store svc_indexers (dc_svcLister c)"
    and "dc_epLister c = Some ix" and "lawful_store ep_indexers ix"
    and "k_APIConn k = dnsControl_api c" and "\<not> opt_ignoreEmptyService (k_opts k)"
    and "rr_service r = ''*''" and "namespaceExposed k (rr_namespace r)"
    and "\<not> wildcard (rr_namespace r)"
    and "svc \<in> cached_services c" and "svc_Namespace svc = ''any''"
    and "offers x k r (msg_Path x zone coredns) (cached_endpoints c) svc m"
  shows "\<exists>ans. findServices x k r zone = Ret (ans, None) \<and> m \<in> set ans"
proof -
  have "lawful_control c" using assms(1-3) by unfold_locales auto
  moreover have w: "wild_request r" using assms(6) by (simp add: wild_request_def wildcard_def)
  ultimately show ?thesis
    using lawful_control.findServices_cached [of c k r x zone] assms(4-11)
    by (auto simp: in_scope_def service_selected_def match_def wildcard_def)
qed

section \<open>Pods\<close>

lemma findPods_answers:
  assumes "dc_podLister c = Some ix" and "lawful_store pod_indexers ix"
    and "k_APIConn k = dnsControl_api c" and "k_podMode k = podModeVerified"
    and "rr_service r \<noteq> ''''"
    and "wildcard (rr_namespace r) \<or> namespaceExposed k (rr_namespace r)"
  shows "\<exists>ans err. findPods x k r zone = Ret (ans, err) \<and>
     set ans = {m. m = pod_service k (msg_Path x zone coredns) (rr_namespace r) (rr_service r)
                         (pod_name_ip (rr_service r)) \<and>
                   (\<exists>p. ObjPod p \<in> set (ix_List ix) \<and>
                        pod_wanted k (rr_namespace r) (pod_name_ip (rr_service r)) p)} \<and>
     err = (if ans = [] \<and> \<not> (wildcard (rr_service r) \<and> \<not> wildcard (rr_namespace r))
            then Some errNoItems else None)"
proof -
  let ?ip = "pod_name_ip (rr_service r)"
  obtain ps where ps: "PodIndex c ?ip = Ret ps" "set ps = {p. ObjPod p \<in> set (ix_List ix) \<and> pod_PodIP p = ?ip}"
    using PodIndex_exact [OF assms(1,2), of ?ip] by (auto simp: cached_pods_def assms(1))
  let ?ans = "map (\<lambda>_. pod_service k (msg_Path x zone coredns) (rr_namespace r) (rr_service r) ?ip)
                (filter (pod_wanted k (rr_namespace r) ?ip) ps)"
  let ?err = "if wildcard (rr_service r) \<and> \<not> wildcard (rr_namespace r) then None else Some errNoItems"
  have eq: "findPods x k r zone = Ret (push ?ans ([], ?err))"
    using assms(3-6) ps(1)
    by (auto simp: findPods_def Let_def findPods_loop_eq dnsControl_api_def)
  have "set ?ans = {m. m = pod_service k (msg_Path x zone coredns) (rr_namespace r) (rr_service r) ?ip \<and>
                   (\<exists>p. ObjPod p \<in> set (ix_List ix) \<and> pod_wanted k (rr_namespace r) ?ip p)}"
    using ps(2) by (auto simp: pod_wanted_def)
  moreover have "push ?ans ([], ?err) = (?ans, if ?ans = [] \<and> \<not> (wildcard (rr_service r) \<and> \<not> wildcard (rr_namespace r))
            then Some errNoItems else None)" by (simp add: push_def)
  ultimately show ?thesis unfolding eq by blast
qed

text \<open>
  C34: with verified pods, a pod query for an exposed namespace (or for all namespaces) is
  answered with the address spelled by the pod's name exactly when the cache has a pod with that
  address in the namespace asked for (in an exposed one, for all namespaces); otherwise the result
  is NXDOMAIN, or NODATA for a wildcard pod name in one namespace.
\<close>

theorem findPods_verified:
  assumes "dc_podLister c = Some ix" and "lawful_store pod_indexers ix"
    and "k_APIConn k = dnsControl_api c" and "k_podMode k = podModeVerified"
    and "rr_service r \<noteq> ''''"
    and "wildcard (rr_namespace r) \<or> namespaceExposed k (rr_namespace r)"
  shows "\<exists>ans err. findPods x k r zone = Ret (ans, err) \<and>
     set ans = {m. m = pod_service k (msg_Path x zone coredns) (rr_namespace r) (rr_service r)
                         (pod_name_ip (rr_service r)) \<and>
                   (\<exists>p. ObjPod p \<in> set (ix_List ix) \<and>
                        pod_wanted k (rr_namespace r) (pod_name_ip (rr_service r)) p)} \<and>
     err = (if ans = [] \<and> \<not> (wildcard (rr_service r) \<and> \<not> wildcard (rr_namespace r))
            then Some errNoItems else None)"
  by (rule findPods_answers [OF assms])

section \<open>How a query ends\<close>

text \<open>The query names an object, or a list of them, that the plugin knows of: it has an answer,
  or at least an empty one (NODATA).\<close>

definition name_exists :: "dns_lib \<Rightarrow> Kubernetes \<Rightarrow> dnsControl \<Rightarrow> recordRequest \<Rightarrow> string \<Rightarrow> bool" where
  "name_exists x k c r zone \<longleftrightarrow>
     (if rr_podOrSvc r = kindPod
      then k_podMode k \<noteq> podModeDisabled \<and>
           (rr_service r = '''' \<or>
            (if k_podMode k = podModeInsecure then ParseIP (pod_name_ip (rr_service r)) \<noteq> None
             else wildcard (rr_service r) \<and> \<not> wildcard (rr_namespace r) \<or>
                  (\<exists>p \<in> cached_pods c. pod_wanted k (rr_namespace r) (pod_name_ip (rr_service r)) p)))
      else rr_service r = '''' \<or> wildcard (rr_service r) \<and> \<not> wildcard (rr_namespace r) \<or>
           (\<exists>svc \<in> in_scope r svc_Index (cached_services c).
              service_selected k r (in_scope r ep_Index (cached_endpoints c)) svc \<and>
              (\<exists>m. offers x k r (msg_Path x zone coredns) (in_scope r ep_Index (cached_endpoints c)) svc m)))"

lemma findPods_error:
  assumes "k_podMode k \<in> {podModeDisabled, podModeInsecure} \<or>
      k_podMode k = podModeVerified \<and> dc_podLister c = Some px \<and> lawful_store pod_indexers px"
    and "k_APIConn k = dnsControl_api c" and "rr_podOrSvc r = kindPod"
    and "wildcard (rr_namespace r) \<or> namespaceExposed k (rr_namespace r)"
  shows "\<exists>ans. findPods x k r zone =
           Ret (ans, if name_exists x k c r zone then None else Some errNoItems)"
proof (cases "k_podMode k = podModeVerified \<and> rr_service r \<noteq> ''''")
  case True
  with assms(1) have st: "dc_podLister c = Some px" "lawful_store pod_indexers px" by auto
  let ?pods = "\<exists>p. ObjPod p \<in> set (ix_List px) \<and>
                   pod_wanted k (rr_namespace r) (pod_name_ip (rr_service r)) p"
  from True findPods_answers [OF st assms(2) _ _ assms(4), of x zone] obtain ans where
    ans: "findPods x k r zone =
       Ret (ans, if ans = [] \<and> \<not> (wildcard (rr_service r) \<and> \<not> wildcard (rr_namespace r))
            then Some errNoItems else None)"
    "set ans = {m. m = pod_service k (msg_Path x zone coredns) (rr_namespace r) (rr_service r)
                         (pod_name_ip (rr_service r)) \<and> ?pods}"
    by blast
  have "name_exists x k c r zone \<longleftrightarrow>
      wildcard (rr_service r) \<and> \<not> wildcard (rr_namespace r) \<or> set ans \<noteq> {}"
    using True assms(3) unfolding ans(2) by (auto simp: name_exists_def cached_pods_def st(1))
  with ans(1) show ?thesis by auto
next
  case False
  with assms show ?thesis by (auto simp: name_exists_def findPods_def Let_def)
qed

lemma findServices_error:
  assumes "lawful_control c" and "k_APIConn k = dnsControl_api c" and "rr_podOrSvc r \<noteq> kindPod"
    and "wildcard (rr_namespace r) \<or> namespaceExposed k (rr_namespace r)"
  shows "\<exists>ans. findServices x k r zone =
           Ret (ans, if name_exists x k c r zone then None else Some errNoItems)"
proof (cases "rr_service r = ''''")
  case True
  with assms(3,4) findServices_unexposed(2) show ?thesis by (auto simp: name_exists_def)
next
  case False
  from lawful_control.findServices_cached [OF assms(1,2) False assms(4), of x zone]
  obtain ans where ans: "findServices x k r zone =
       Ret (ans, if ans = [] \<and> \<not> (wildcard (rr_service r) \<and> \<not> wildcard (rr_namespace r))
            then Some errNoItems else None)"
    "set ans = {m. \<exists>svc \<in> in_scope r svc_Index (cached_services c).
        service_selected k r (in_scope r ep_Index (cached_endpoints c)) svc \<and>
        offers x k r (msg_Path x zone coredns) (in_scope r ep_Index (cached_endpoints c)) svc m}"
    by blast
  have "name_exists x k c r zone \<longleftrightarrow>
      wildcard (rr_service r) \<and> \<not> wildcard (rr_namespace r) \<or> set ans \<noteq> {}"
    using False assms(3) unfolding ans(2) by (auto simp: name_exists_def)
  with ans(1) show ?thesis by auto
qed

text \<open>
  C23: which error each query ends with.  Over lawful caches of services and endpoints (and of pods,
  in verified mode), a query whose name parses without a panic ends with the error for invalid
  requests exactly when the name is malformed, with no error at the apex of the zone, with
  \<open>errNoItems\<close> for a name of a reverse zone, with the error for unexposed namespaces exactly when
  its namespace is neither a wildcard nor exposed, and otherwise with \<open>errNoItems\<close> or no error as
  the name it asks for does not or does exist.  A query that ends with an error has no answers.
\<close>

theorem Records_errors:
  assumes "lawful_store svc_indexers (dc_svcLister c)"
    and "dc_epLister c = Some ix" and "lawful_store ep_indexers ix"
    and "k_podMode k \<in> {podModeDisabled, podModeInsecure} \<or>
      k_podMode k = podModeVerified \<and> dc_podLister c = Some px \<and> lawful_store pod_indexers px"
    and "k_APIConn k = dnsControl_api c"
    and "parseRequest x (rq_Name state) (rq_Zone state) = Ret (r, e)"
  shows "\<exists>ans err. Records x k state exact = Ret (ans, err) \<and> (err \<noteq> None \<longrightarrow> ans = []) \<and>
    err = (if e \<noteq> None then Some errInvalidRequest
           else if rr_podOrSvc r = '''' then None
           else if IsReverse x (rq_Name state) > 0 then Some errNoItems
           else if \<not> wildcard (rr_namespace r) \<and> \<not> namespaceExposed k (rr_namespace r)
           then Some errNsNotExposed
           else if name_exists x k c r (rq_Zone state) then None else Some errNoItems)"
    (is "\<exists>ans err. _ = Ret (ans, err) \<and> _ \<and> err = ?err")
proof -
  have "lawful_control c" using assms(1-3) by unfold_locales auto
  note errors = findPods_error [OF assms(4,5), of r x "rq_Zone state"]
    findServices_error [OF this assms(5), of r x "rq_Zone state"]
    parseRequest_errors [of x "rq_Name state" "rq_Zone state" r]
  have "\<exists>ans. Records x k state exact = Ret (ans, ?err)"
    using assms(6) errors by (cases e) (auto simp: Records_def)
  then obtain ans err where "Records x k state exact = Ret (ans, err)" "err = ?err" by blast
  moreover from this(1) have "err \<noteq> None \<longrightarrow> ans = []"
    using Records_error_empty by auto
  ultimately show ?thesis by blast
qed

section \<open>Pods by address\<close>

text \<open>Spelling an address with dashes loses nothing.\<close>

lemma pod_name_ip_inverse:
  assumes "ParseIP ip = Some a" "\<not> (CHR ''.'' \<in> set ip \<and> CHR '':'' \<in> set ip)"
    and "ea_IP addr = ip" "ea_Hostname addr = ''''" "\<not> endpointNameMode"
  shows "pod_name_ip (endpointHostname addr endpointNameMode) = ip"
proof (cases "CHR ''.'' \<in> set ip")
  case True
  with ParseIP_shape [OF assms(1,2)] show ?thesis using assms(3-5)
    by (simp add: endpointHostname_def Contains_single pod_name_ip_def count_ReplaceByte
        Contains_two_Replace ReplaceByte_undo)
next
  case False
  with ParseIP_shape [OF assms(1,2)] show ?thesis using assms(3-5)
    by (auto simp: endpointHostname_def Contains_single pod_name_ip_def count_ReplaceByte
        Contains_two_Replace ReplaceByte_undo)
qed

text \<open>
  C33: the name under which an endpoint is published (its address with dashes, when it has no host
  name) leads back to it: in insecure mode a pod query for that name in an exposed namespace is
  answered with exactly the address, for every IPv4 address and every IPv6 address in the usual
  notation.
\<close>

theorem pod_name_roundtrip:
  assumes "ParseIP (ea_IP addr) = Some a"
    and "\<not> (CHR ''.'' \<in> set (ea_IP addr) \<and> CHR '':'' \<in> set (ea_IP addr))"
    and "ea_Hostname addr = ''''" and "k_podMode k = podModeInsecure"
    and "rr_service r = endpointHostname addr False"
    and "wildcard (rr_namespace r) \<or> namespaceExposed k (rr_namespace r)"
  shows "\<exists>m. findPods x k r zone = Ret ([m], None) \<and> ms_Host m = ea_IP addr \<and> ms_TTL m = k_ttl k"
proof -
  have ip: "pod_name_ip (rr_service r) = ea_IP addr"
    using pod_name_ip_inverse [OF assms(1,2) refl assms(3), of False] assms(5) by simp
  have "ea_IP addr \<noteq> ''''" using assms(1) by (auto simp: ParseIP_def)
  then have "rr_service r \<noteq> ''''" using ip by (auto simp: pod_name_ip_def ReplaceByte_def split: if_splits)
  then have "findPods x k r zone =
      Ret ([pod_service k (msg_Path x zone coredns) (rr_namespace r) (rr_service r) (ea_IP addr)], None)"
    using assms(1,4,6) ip by (auto simp: findPods_def Let_def)
  then show ?thesis by (simp add: pod_service_def)
qed

section \<open>Lookups do not crash\<close>

lemma parseRequest_total:
  "split_law x \<Longrightarrow> trim_cuts x \<Longrightarrow> valid_name name \<Longrightarrow> \<not> panics (parseRequest x name zone)"
  using parseRequest_apex [of x name zone] parseRequest_labels [of x name zone]
    split_trimmed [of x name zone]
  by (cases "TrimZone x name zone \<in> {'''', kindSvc, kindPod}") auto

context total_controller
begin

lemma findPods_returns:
  assumes "k_APIConn k = api" "pod_cache = (k_podMode k = podModeVerified)"
    and "k_podMode k \<in> {podModeDisabled, podModeInsecure, podModeVerified}"
  shows "\<not> panics (findPods x k r zone)"
proof (cases "k_podMode k = podModeVerified")
  case True
  then obtain ps where "api_PodIndex (k_APIConn k) (pod_name_ip (rr_service r)) = Ret ps"
    using PodIndex_returns assms(1,2) by blast
  then show ?thesis by (simp add: findPods_def Let_def)
next
  case False
  then show ?thesis using assms(3) by (auto simp: findPods_def Let_def)
qed

lemma findServices_returns:
  assumes "k_APIConn k = api"
  shows "\<not> panics (findServices x k r zone)"
proof -
  let ?key = "ServiceKey (rr_service r) (rr_namespace r)"
  obtain es ix where "api_EndpointsList (k_APIConn k) = Ret es" "api_EpIndex (k_APIConn k) ?key = Ret ix"
    using EndpointsList_returns EpIndex_returns unfolding assms by blast
  moreover obtain ss "is" where "api_ServiceList (k_APIConn k) = Ret ss" "api_SvcIndex (k_APIConn k) ?key = Ret is"
    using ServiceList_returns SvcIndex_returns unfolding assms by blast
  ultimately show ?thesis by (auto simp: findServices_def Let_def services_loop_eq)
qed

lemma Records_returns:
  assumes "split_law x" "trim_cuts x" "valid_name (rq_Name state)"
    and "k_APIConn k = api" "pod_cache = (k_podMode k = podModeVerified)"
    and "k_podMode k \<in> {podModeDisabled, podModeInsecure, podModeVerified}"
  shows "\<not> panics (Records x k state exact)"
proof -
  obtain r e where "parseRequest x (rq_Name state) (rq_Zone state) = Ret (r, e)"
    using parseRequest_total [OF assms(1-3)] by (metis not_panics_iff surj_pair)
  then show ?thesis
    using findPods_returns [OF assms(4-6)] findServices_returns [OF assms(4)] by (simp add: Records_def)
qed

end

text \<open>
  A plugin that caches endpoints, and pods exactly when they are to be verified (which is how
  \<open>InitKubeCache\<close> sets it up), never crashes while looking up the records for a query, whatever
  valid name the query has and whatever the caches hold.
\<close>

theorem Records_total:
  assumes "split_law x" "trim_cuts x" "valid_name (rq_Name state)" and "k_APIConn k = dnsControl_api (newdnsController infs opts)"
    and "opt_initEndpointsCache opts" and "opt_initPodCache opts = (k_podMode k = podModeVerified)"
    and "k_podMode k \<in> {podModeDisabled, podModeInsecure, podModeVerified}"
  shows "\<not> panics (Records x k state exact)"
  using total_controller.Records_returns [OF newdnsController_total [OF assms(5)], of x state k] assms by blast

lemma services_loop_headless:
  assumes "svc \<in> set svcs" "service_selected k r {} svc" "svc_ClusterIP svc = ClusterIPNone"
  shows "panics (services_loop x k r zp (Panic p) svcs [] acc)"
  using assms
proof (induction svcs arbitrary: acc)
  case (Cons s svcs)
  show ?case
  proof (cases "s = svc")
    case True
    with Cons.prems show ?thesis by (auto simp: service_selected_def)
  next
    case False
    with Cons.prems Cons.IH show ?thesis by (auto simp: Let_def)
  qed
qed simp

text \<open>
  C40: with the option \<open>noendpoints\<close> there is no endpoints store, and a query that selects a headless
  service, by a name in an exposed namespace or for all namespaces, crashes instead of being
  answered.
\<close>

theorem headless_without_endpoints:
  assumes "lawful_store svc_indexers (dc_svcLister c)" and "dc_epLister c = None"
    and "k_APIConn k = dnsControl_api c" and "rr_service r \<noteq> ''''"
    and "wildcard (rr_namespace r) \<or> namespaceExposed k (rr_namespace r)"
    and "svc \<in> in_scope r svc_Index (cached_services c)" and "service_selected k r {} svc"
    and "svc_ClusterIP svc = ClusterIPNone"
  shows "panics (findServices x k r zone)"
proof -
  let ?key = "ServiceKey (rr_service r) (rr_namespace r)"
  obtain ss where ss: "(if wild_request r then ServiceList c else SvcIndex c ?key) = Ret ss"
      "set ss = in_scope r svc_Index (cached_services c)"
  proof (cases "wild_request r")
    case True
    then show ?thesis
      using that by (simp add: ServiceList_def typed_loop_eq cast_set in_scope_def cached_services_def)
  next
    case False
    obtain os where os: "ix_ByIndex (dc_svcLister c) svcNameNamespaceIndex ?key = Inr os"
        "set os = {ob \<in> set (ix_List (dc_svcLister c)). \<exists>vs. svcNameNamespaceIndexFunc ob = Inr vs \<and> ?key \<in> set vs}"
      using lawful_storeD [OF assms(1), of svcNameNamespaceIndex svcNameNamespaceIndexFunc ?key]
      by (auto simp: svc_indexers_def)
    show ?thesis
      by (rule that [of "List.map_filter cast_Service os"])
        (use False os in \<open>auto simp: SvcIndex_def typed_loop_eq cast_set cached_services_def in_scope_def
          svcNameNamespaceIndexFunc_def\<close>)
  qed
  have "findServices x k r zone =
      services_loop x k r (msg_Path x zone coredns) (Panic NilDereference) ss []
        ([], if wildcard (rr_service r) \<and> \<not> wildcard (rr_namespace r) then None else Some errNoItems)"
    using assms(2-5) ss(1)
    by (auto simp: findServices_def Let_def dnsControl_api_def EndpointsList_def EpIndex_def wild_request_def)
  then show ?thesis using services_loop_headless [of svc ss] assms(6-8) ss(2) by simp
qed

section \<open>Examples\<close>

definition example_k :: Kubernetes where
  "example_k =
     \<lparr>k_Zones = [''cluster.local.''], k_APIConn = dnsControl_api example_control, k_Namespaces = {||},
      k_podMode = podModeDisabled, k_endpointNameMode = False, k_ttl = 5,
      k_opts = \<lparr>opt_initPodCache = False, opt_initEndpointsCache = True, opt_ignoreEmptyService = False\<rparr>,
      k_primaryZoneIndex = 0, k_localIPs = [], k_autoPathSearch = [], k_TransferTo = []\<rparr>"

definition svc1_request :: recordRequest where
  "svc1_request = star_request\<lparr>rr_service := ''svc1'', rr_namespace := ''testns'', rr_podOrSvc := kindSvc\<rparr>"

lemma example_lawful:
  "lawful_store svc_indexers (dc_svcLister example_control)"
  "dc_epLister example_control = Some (store_of ep_indexers [])"
  "lawful_store ep_indexers (store_of ep_indexers [])"
  by (simp_all add: example_control_def newdnsController_def stores_def store_of_lawful svc_indexers_def
        ep_indexers_def)

lemma example_cached: "cached_services example_control = {example_service}"
  by (auto simp: cached_services_def example_control_def newdnsController_def stores_def store_of_def)

lemma example_exposed: "namespaceExposed example_k ns \<longleftrightarrow> ns = ''testns''"
  by (auto simp: namespaceExposed_def configuredNamespace_def filteredNamespaceExists_def example_k_def
        dnsControl_api_def GetNamespaceByName_def example_control_def newdnsController_def stores_def
        fcard_fempty split: sum.splits)

lemma svc1_request_sel:
  "rr_service svc1_request = ''svc1''" "rr_namespace svc1_request = ''testns''"
  "rr_endpoint svc1_request = ''''" "rr_port svc1_request = ''*''" "rr_protocol svc1_request = ''*''"
  by (simp_all add: svc1_request_def star_request_def zero_recordRequest_def)

theorem findServices_correct_witness:
  "\<exists>ans err. findServices ex_lib example_k svc1_request ''cluster.local.'' = Ret (ans, err) \<and>
     set ans = {cluster_answer example_k (msg_Path ex_lib ''cluster.local.'' coredns) example_service
                  \<lparr>sp_Name = ''http'', sp_Protocol = ''tcp'', sp_Port = 80\<rparr>}"
proof -
  have sel: "rr_service svc1_request \<noteq> ''''"
    "wildcard (rr_namespace svc1_request) \<or> namespaceExposed example_k (rr_namespace svc1_request)"
    by (simp_all add: svc1_request_sel example_exposed)
  have api: "k_APIConn example_k = dnsControl_api example_control" by (simp add: example_k_def)
  have wanted: "in_scope svc1_request svc_Index {example_service} = {example_service}"
    "service_selected example_k svc1_request E example_service"
    "offers ex_lib example_k svc1_request zp E example_service m \<longleftrightarrow>
       m = cluster_answer example_k zp example_service
             \<lparr>sp_Name = ''http'', sp_Protocol = ''tcp'', sp_Port = 80\<rparr>" for E zp m
    by (auto simp: in_scope_def wild_request_def wildcard_def svc1_request_sel example_service_def
          ServiceKey_def service_selected_def match_def example_exposed example_k_def offers.simps
          port_wanted_def)
  show ?thesis
    using findServices_correct [OF example_lawful api sel, of ex_lib "''cluster.local.''"]
    unfolding example_cached wanted(1) by (simp add: wanted(2,3), blast)
qed

theorem findServices_exposed_witness:
  "\<exists>ans err. findServices ex_lib example_k svc1_request ''cluster.local.'' = Ret (ans, err) \<and>
     set ans \<subseteq> {m. \<exists>svc \<in> {example_service}. namespaceExposed example_k (svc_Namespace svc)}"
proof -
  have "ToLower (rr_namespace svc1_request) = rr_namespace svc1_request"
    by (simp add: svc1_request_sel ToLower_def lower_byte_def byte_of_def)
  moreover have "ToLower (svc_Namespace svc) = svc_Namespace svc \<and> \<not> wildcard (svc_Namespace svc)"
    if "svc \<in> cached_services example_control" for svc
    using that by (auto simp: example_cached example_service_def ToLower_def lower_byte_def byte_of_def
      wildcard_def)
  moreover have "k_APIConn example_k = dnsControl_api example_control" by (simp add: example_k_def)
  ultimately show ?thesis
    using findServices_exposed [OF example_lawful, of example_k svc1_request ex_lib "''cluster.local.''"]
    unfolding example_cached by blast
qed

definition leak_service :: Service where
  "leak_service = example_service\<lparr>svc_Namespace := ''any'', svc_Index := ''svc1.any''\<rparr>"

definition leak_control :: dnsControl where
  "leak_control =
     newdnsController (stores [ObjService leak_service] [] [] [ObjNamespace ''testns''])
       \<lparr>opt_initPodCache = False, opt_initEndpointsCache = True, opt_ignoreEmptyService = False\<rparr>"

definition leak_k :: Kubernetes where
  "leak_k = example_k\<lparr>k_APIConn := dnsControl_api leak_control, k_Namespaces := {|''testns''|}\<rparr>"

theorem any_namespace_leaks_witness:
  "\<not> namespaceExposed leak_k ''any'' \<and>
   (\<exists>ans m. findServices ex_lib leak_k (svc1_request\<lparr>rr_service := ''*''\<rparr>) ''cluster.local.'' = Ret (ans, None) \<and>
      m \<in> set ans \<and> ms_Host m = ''10.0.0.1'')"
proof -
  let ?r = "svc1_request\<lparr>rr_service := ''*''\<rparr>" and ?zp = "msg_Path ex_lib ''cluster.local.'' coredns"
  let ?p = "\<lparr>sp_Name = ''http'', sp_Protocol = ''tcp'', sp_Port = 80\<rparr>"
  have l: "lawful_store svc_indexers (dc_svcLister leak_control)"
    "dc_epLister leak_control = Some (store_of ep_indexers [])"
    by (simp_all add: leak_control_def newdnsController_def stores_def store_of_lawful svc_indexers_def)
  have k: "k_APIConn leak_k = dnsControl_api leak_control" "\<not> opt_ignoreEmptyService (k_opts leak_k)"
    by (simp_all add: leak_k_def example_k_def)
  have ex: "namespaceExposed leak_k ns \<longleftrightarrow> ns = ''testns''" for ns
    by (auto simp: namespaceExposed_def configuredNamespace_def filteredNamespaceExists_def leak_k_def
        dnsControl_api_def GetNamespaceByName_def leak_control_def newdnsController_def stores_def
        fcard_finsert_if split: sum.splits)
  have r: "rr_service ?r = ''*''" "rr_namespace ?r = ''testns''" by (simp_all add: svc1_request_sel)
  have svc: "leak_service \<in> cached_services leak_control" "svc_Namespace leak_service = ''any''"
    by (auto simp: cached_services_def leak_control_def newdnsController_def stores_def store_of_def
        leak_service_def)
  have "offers ex_lib leak_k ?r ?zp (cached_endpoints leak_control) leak_service
          (cluster_answer leak_k ?zp leak_service ?p)"
    by (rule offers.cluster) (simp_all add: leak_service_def example_service_def svc1_request_sel
        port_wanted_def match_def wildcard_def)
  moreover have "namespaceExposed leak_k (rr_namespace ?r)" "\<not> wildcard (rr_namespace ?r)"
    by (simp_all add: r ex wildcard_def)
  ultimately obtain ans where "findServices ex_lib leak_k ?r ''cluster.local.'' = Ret (ans, None)"
      "cluster_answer leak_k ?zp leak_service ?p \<in> set ans"
    using any_namespace_leaks [OF l example_lawful(3) k r(1) _ _ svc, of ex_lib "''cluster.local.''"] by blast
  moreover have "ms_Host (cluster_answer leak_k ?zp leak_service ?p) = ''10.0.0.1''"
    by (simp add: cluster_answer_def leak_service_def example_service_def)
  ultimately show ?thesis using ex by auto
qed

definition bad_query :: Request where
  "bad_query =
     \<lparr>rq_Name = ''svc1.other.svc.cluster.local.'', rq_QName = ''svc1.other.svc.cluster.local.'',
      rq_QType = TypeA, rq_IP = ''10.0.0.1'', rq_Zone = ''cluster.local.''\<rparr>"

lemma bad_query_valid: "valid_name (rq_Name bad_query)"
  by (rule valid_nameI [of "[''svc1'', ''other'', ''svc'', ''cluster'', ''local'']"])
    (simp_all add: bad_query_def domain_label_def)

theorem Records_errors_witness:
  "Records ex_lib example_k bad_query False = Ret ([], Some errNsNotExposed)"
proof -
  let ?r = "star_request\<lparr>rr_service := ''svc1'', rr_namespace := ''other'', rr_podOrSvc := kindSvc\<rparr>"
  have parse: "parseRequest ex_lib (rq_Name bad_query) (rq_Zone bad_query) = Ret (?r, None)"
    by (simp add: parseRequest_def parseRequest_walk_def bad_query_def ex_lib_simps
        star_request_def zero_recordRequest_def)
  have k: "k_podMode example_k \<in> {podModeDisabled, podModeInsecure} \<or> k_podMode example_k = podModeVerified \<and>
      dc_podLister example_control = Some px \<and> lawful_store pod_indexers px" for px
    by (simp add: example_k_def)
  have api: "k_APIConn example_k = dnsControl_api example_control"
    and rev: "IsReverse ex_lib (rq_Name bad_query) = 0"
    by (simp_all add: example_k_def ex_lib_def)
  from Records_errors [OF example_lawful k api parse, of False] rev
  show ?thesis by (auto simp: example_exposed wildcard_def star_request_def zero_recordRequest_def)
qed

definition pod_control :: "dnsControlOpts \<Rightarrow> dnsControl" where
  "pod_control opts =
     newdnsController
       (stores [ObjService (example_service\<lparr>svc_ClusterIP := ClusterIPNone\<rparr>)]
          [ObjPod \<lparr>pod_Version = ''1'', pod_PodIP = ''10.1.2.3'', pod_Name = ''p'', pod_Namespace = ''testns''\<rparr>]
          [] [ObjNamespace ''testns'']) opts"

definition pod_k :: "dnsControlOpts \<Rightarrow> string \<Rightarrow> Kubernetes" where
  "pod_k opts mode =
     example_k\<lparr>k_APIConn := dnsControl_api (pod_control opts), k_podMode := mode, k_opts := opts\<rparr>"

definition pod_opts :: dnsControlOpts where
  "pod_opts = \<lparr>opt_initPodCache = True, opt_initEndpointsCache = True, opt_ignoreEmptyService = False\<rparr>"

definition pod_request :: recordRequest where
  "pod_request = star_request\<lparr>rr_service := ''10-1-2-3'', rr_namespace := ''testns'', rr_podOrSvc := kindPod\<rparr>"

lemma pod_k_exposed: "namespaceExposed (pod_k opts mode) ns \<longleftrightarrow> ns = ''testns''"
  by (auto simp: namespaceExposed_def configuredNamespace_def filteredNamespaceExists_def example_k_def pod_k_def
        dnsControl_api_def GetNamespaceByName_def pod_control_def newdnsController_def stores_def
        fcard_fempty split: sum.splits)

lemma pod_request_sel:
  "rr_service pod_request = ''10-1-2-3''" "rr_namespace pod_request = ''testns''"
  by (simp_all add: pod_request_def)

lemma pod_request_ip: "pod_name_ip ''10-1-2-3'' = ''10.1.2.3''"
  by (simp add: pod_name_ip_def CountByte_def Contains_def ReplaceByte_def)

theorem findPods_verified_witness:
  "\<exists>ans. findPods ex_lib (pod_k pod_opts podModeVerified) pod_request ''cluster.local.'' = Ret (ans, None) \<and>
     ans \<noteq> []"
proof -
  let ?k = "pod_k pod_opts podModeVerified" and ?c = "pod_control pod_opts"
  let ?p = "\<lparr>pod_Version = ''1'', pod_PodIP = ''10.1.2.3'', pod_Name = ''p'', pod_Namespace = ''testns''\<rparr>"
  have st: "dc_podLister ?c = Some (store_of pod_indexers [ObjPod ?p])"
    "lawful_store pod_indexers (store_of pod_indexers [ObjPod ?p])"
    by (simp_all add: pod_control_def pod_opts_def newdnsController_def stores_def store_of_lawful pod_indexers_def)
  have k: "k_APIConn ?k = dnsControl_api ?c" "k_podMode ?k = podModeVerified" by (simp_all add: pod_k_def)
  have "rr_service pod_request \<noteq> ''''"
    "wildcard (rr_namespace pod_request) \<or> namespaceExposed ?k (rr_namespace pod_request)"
    by (simp_all add: pod_request_sel pod_k_exposed)
  from findPods_verified [OF st k this, of ex_lib "''cluster.local.''"]
  obtain ans err where a: "findPods ex_lib ?k pod_request ''cluster.local.'' = Ret (ans, err)"
      "set ans = {m. m = pod_service ?k (msg_Path ex_lib ''cluster.local.'' coredns) ''testns'' ''10-1-2-3'' ''10.1.2.3'' \<and>
                   (\<exists>p. ObjPod p \<in> set (ix_List (store_of pod_indexers [ObjPod ?p])) \<and>
                        pod_wanted ?k ''testns'' ''10.1.2.3'' p)}"
      "err = (if ans = [] \<and> \<not> (wildcard ''10-1-2-3'' \<and> \<not> wildcard ''testns'') then Some errNoItems else None)"
    unfolding pod_request_sel pod_request_ip by blast
  moreover have "pod_wanted ?k ''testns'' ''10.1.2.3'' ?p" by (simp add: pod_wanted_def pod_k_exposed match_def)
  ultimately have "ans \<noteq> []" by (auto simp: store_of_def)
  with a show ?thesis by auto
qed

theorem pod_name_roundtrip_witness:
  "\<exists>m. findPods ex_lib (pod_k pod_opts podModeInsecure) (pod_request\<lparr>rr_service := ''fd00--1''\<rparr>) ''cluster.local.'' =
         Ret ([m], None) \<and> ms_Host m = ''fd00::1''"
proof -
  let ?a = "zero_EndpointAddress\<lparr>ea_IP := ''fd00::1''\<rparr>"
  have "ParseIP (ea_IP ?a) = Some ([253, 0] @ replicate 12 0 @ [0, 1])"
    by (simp add: ParseIP_def parse_v6_def parse_v6_loop.simps hex_val_def byte_of_def)
  moreover have "\<not> (CHR ''.'' \<in> set (ea_IP ?a) \<and> CHR '':'' \<in> set (ea_IP ?a))" "ea_Hostname ?a = ''''"
    by (simp_all add: zero_EndpointAddress_def)
  moreover have "rr_service (pod_request\<lparr>rr_service := ''fd00--1''\<rparr>) = endpointHostname ?a False"
    by (simp add: endpointHostname_def zero_EndpointAddress_def Contains_single ReplaceByte_def)
  moreover have "wildcard (rr_namespace (pod_request\<lparr>rr_service := ''fd00--1''\<rparr>)) \<or>
      namespaceExposed (pod_k pod_opts podModeInsecure) (rr_namespace (pod_request\<lparr>rr_service := ''fd00--1''\<rparr>))"
    by (simp add: pod_request_sel pod_k_exposed)
  moreover have "k_podMode (pod_k pod_opts podModeInsecure) = podModeInsecure" by (simp add: pod_k_def)
  ultimately obtain m where
    "findPods ex_lib (pod_k pod_opts podModeInsecure) (pod_request\<lparr>rr_service := ''fd00--1''\<rparr>) ''cluster.local.'' =
       Ret ([m], None) \<and> ms_Host m = ea_IP ?a"
    using pod_name_roundtrip [of ?a] by blast
  then show ?thesis by simp
qed

theorem Records_total_witness:
  "\<not> panics (Records ex_lib (pod_k pod_opts podModeVerified) bad_query False)"
  by (rule Records_total [OF ex_split_law ex_trim_cuts bad_query_valid, where opts = pod_opts])
    (simp_all add: pod_k_def pod_control_def, simp_all add: pod_opts_def)

theorem headless_without_endpoints_witness:
  "panics (findServices ex_lib (pod_k (pod_opts\<lparr>opt_initEndpointsCache := False\<rparr>) podModeVerified) svc1_request
     ''cluster.local.'')"
proof -
  let ?o = "pod_opts\<lparr>opt_initEndpointsCache := False\<rparr>"
  let ?k = "pod_k ?o podModeVerified" and ?s = "example_service\<lparr>svc_ClusterIP := ClusterIPNone\<rparr>"
  have "lawful_store svc_indexers (dc_svcLister (pod_control ?o))" "dc_epLister (pod_control ?o) = None"
    by (simp_all add: pod_control_def newdnsController_def stores_def store_of_lawful svc_indexers_def)
  moreover have "k_APIConn ?k = dnsControl_api (pod_control ?o)" by (simp add: pod_k_def)
  moreover have "rr_service svc1_request \<noteq> ''''"
    "wildcard (rr_namespace svc1_request) \<or> namespaceExposed ?k (rr_namespace svc1_request)"
    by (simp_all add: svc1_request_sel pod_k_exposed)
  moreover have "?s \<in> in_scope svc1_request svc_Index (cached_services (pod_control ?o))"
    by (simp add: in_scope_def wild_request_def wildcard_def svc1_request_sel cached_services_def pod_control_def
        newdnsController_def stores_def store_of_def example_service_def ServiceKey_def)
  moreover have "service_selected ?k svc1_request {} ?s" "svc_ClusterIP ?s = ClusterIPNone"
    by (simp_all add: service_selected_def svc1_request_sel match_def wildcard_def example_service_def pod_k_exposed
        pod_k_def pod_opts_def)
  ultimately show ?thesis by (rule headless_without_endpoints)
qed

end
