(* ===== verification/Float64.thy ===== *)
theory Float64
  imports Complex_Main
begin

text \<open>
  The \<open>float64\<close> arithmetic that \<open>calcSRVWeight\<close> (\<open>src/xfr.go\<close>) uses, over rational numbers: each
  operation is the exact one followed by rounding.  The lemmas bound the rounding error and give
  the integer part of a percentage computed this way.
\<close>

section \<open>Rounding\<close>

text \<open>
  The result of a \<open>float64\<close> operation is the exact result rounded to 53 significant bits, ties to
  even.  (The operands here are far from the overflow and underflow thresholds.)
\<close>

definition round_half_even :: "rat \<Rightarrow> int" where
  "round_half_even x =
     (let f = \<lfloor>x\<rfloor>; d = x - of_int f in
      if d < 1 / 2 then f else if d > 1 / 2 then f + 1 else if even f then f else f + 1)"

fun float64_scale :: "nat \<Rightarrow> rat \<Rightarrow> rat \<Rightarrow> rat" where
  "float64_scale 0 u x = u"
| "float64_scale (Suc n) u x =
     (if x / u \<ge> 2 ^ 53 then float64_scale n (u * 2) x
      else if x / u < 2 ^ 52 then float64_scale n (u / 2) x else u)"

definition float64 :: "rat \<Rightarrow> rat" where
  "float64 x =
     (if x = 0 then 0
      else let u = float64_scale 200 (1 / 2 ^ 52) x in of_int (round_half_even (x / u)) * u)"

section \<open>Exact values and error bounds\<close>

lemma round_half_even_unique: "\<bar>x - of_int i\<bar> < 1 / 2 \<Longrightarrow> round_half_even x = i"
proof -
  assume a: "\<bar>x - of_int i\<bar> < 1 / 2"
  show ?thesis
  proof (cases "x \<ge> of_int i")
    case True
    then have "\<lfloor>x\<rfloor> = i" using a by (intro floor_unique) auto
    then show ?thesis using a True by (simp add: round_half_even_def Let_def)
  next
    case False
    then have "\<lfloor>x\<rfloor> = i - 1" using a by (intro floor_unique) auto
    then show ?thesis using a False by (simp add: round_half_even_def Let_def)
  qed
qed

lemma scale_down:
  assumes "2 ^ 52 \<le> y" "y < 2 ^ 53" "u > 0" "k < n"
  shows "float64_scale n (u * 2 ^ k) (y * u) = u"
  using assms(4)
proof (induction k arbitrary: n)
  case 0
  then show ?case using assms(1-3) by (cases n) auto
next
  case (Suc k)
  obtain m where m: "n = Suc m" "k < m" using Suc.prems by (cases n) auto
  have q: "y * u / (u * 2 ^ Suc k) = y / 2 ^ Suc k" using assms(3) by simp
  have "y / 2 ^ Suc k \<le> y / 2 ^ 1" by (rule divide_left_mono) (use assms(1) in auto)
  then have "y / 2 ^ Suc k < 2 ^ 52" using assms(2) by simp
  moreover have "u * 2 ^ Suc k / 2 = u * 2 ^ k" by simp
  ultimately show ?case unfolding m(1) float64_scale.simps q using Suc.IH [OF m(2)] by simp
qed

lemma scale_up:
  assumes "2 ^ 52 \<le> y" "y < 2 ^ 53" "u > 0" "k < n"
  shows "float64_scale n (u / 2 ^ k) (y * u) = u"
  using assms(4)
proof (induction k arbitrary: n)
  case 0
  then show ?case using assms(1-3) by (cases n) auto
next
  case (Suc k)
  obtain m where m: "n = Suc m" "k < m" using Suc.prems by (cases n) auto
  have q: "y * u / (u / 2 ^ Suc k) = y * 2 ^ Suc k" using assms(3) by simp
  have "y * 2 ^ 1 \<le> y * 2 ^ Suc k" by (rule mult_left_mono, rule power_increasing) (use assms(1) in auto)
  moreover have "2 ^ 53 \<le> y * 2 ^ 1" using assms(1) by simp
  ultimately have "2 ^ 53 \<le> y * 2 ^ Suc k" by (rule order_trans [rotated])
  moreover have "u / 2 ^ Suc k * 2 = u / 2 ^ k" by simp
  ultimately show ?case unfolding m(1) float64_scale.simps q using Suc.IH [OF m(2)] by simp
qed

lemma float64_down:
  assumes "k < 200" "2 ^ 52 \<le> x * 2 ^ (52 + k)" "x * 2 ^ (52 + k) < 2 ^ 53"
  shows "float64 x = of_int (round_half_even (x * 2 ^ (52 + k))) / 2 ^ (52 + k)"
proof -
  have "float64_scale 200 (1 / 2 ^ 52) x = 1 / 2 ^ (52 + k)"
    using scale_down [OF assms(2,3), of "1 / 2 ^ (52 + k)" k 200] assms(1) by (simp add: power_add)
  moreover have "x \<noteq> 0" using assms(2) by auto
  ultimately show ?thesis unfolding float64_def by simp
qed

lemma float64_up:
  assumes "k \<le> 52" "2 ^ 52 \<le> x * 2 ^ (52 - k)" "x * 2 ^ (52 - k) < 2 ^ 53"
  shows "float64 x = of_int (round_half_even (x * 2 ^ (52 - k))) / 2 ^ (52 - k)"
proof -
  have e: "1 / 2 ^ (52 - k) / 2 ^ k = (1 :: rat) / 2 ^ 52"
    using assms(1) power_add [of "2 :: rat" "52 - k" k] by simp
  have "float64_scale 200 (1 / 2 ^ 52) x = 1 / 2 ^ (52 - k)"
    using scale_up [OF assms(2,3), of "1 / 2 ^ (52 - k)" k 200] assms(1) unfolding e by simp
  moreover have "x \<noteq> 0" using assms(2) by auto
  ultimately show ?thesis unfolding float64_def by simp
qed

text \<open>Integers of up to 53 bits are exact.\<close>

lemma float64_of_int:
  assumes "1 \<le> w" "w < 2 ^ 53"
  shows "float64 (of_int w) = of_int w"
proof -
  have "1 \<le> nat w" using assms(1) by simp
  then obtain j where "2 ^ j \<le> nat w" "nat w < 2 ^ (j + 1)" using ex_power_ivl1 [of 2 "nat w"] by auto
  then have w: "2 ^ j \<le> w" "w < 2 ^ (j + 1)" using assms(1) by (simp_all add: nat_less_iff le_nat_iff)
  have "(2::int) ^ j < 2 ^ 53" by (rule le_less_trans [OF w(1) assms(2)])
  then have le: "j \<le> 52" using power_less_imp_less_exp [of "2::int" j 53] by simp
  let ?m = "w * 2 ^ (52 - j)"
  have p: "(2::int) ^ 52 = 2 ^ j * 2 ^ (52 - j)" "(2::int) ^ 53 = 2 ^ (j + 1) * 2 ^ (52 - j)"
    using le by (simp_all only: power_add [symmetric], simp_all)
  have "2 ^ 52 \<le> ?m" unfolding p(1) by (rule mult_right_mono [OF w(1)]) simp
  moreover have "?m < 2 ^ 53" unfolding p(2) by (rule mult_strict_right_mono [OF w(2)]) simp
  ultimately have "of_int (2 ^ 52) \<le> (of_int ?m :: rat)" "(of_int ?m :: rat) < of_int (2 ^ 53)"
    by (simp_all only: of_int_le_iff of_int_less_iff)
  then have m: "2 ^ 52 \<le> of_int w * (2::rat) ^ (52 - j)" "of_int w * (2::rat) ^ (52 - j) < 2 ^ 53" by simp_all
  have "round_half_even (of_int w * 2 ^ (52 - j)) = ?m" by (rule round_half_even_unique) simp
  then show ?thesis using float64_up [OF le m] by simp
qed

text \<open>The divisors of 100, where rounding could have lost the last unit.\<close>

lemma float64_divisors:
  "float64 (float64 (1 / 1) * 100) = 100"
  "float64 (float64 (1 / 2) * 100) = 50"
  "float64 (float64 (1 / 4) * 100) = 25"
  "float64 (float64 (1 / 5) * 100) = 20"
  "float64 (float64 (1 / 10) * 100) = 10"
  "float64 (float64 (1 / 20) * 100) = 5"
  "float64 (float64 (1 / 25) * 100) = 4"
  "float64 (float64 (1 / 50) * 100) = 2"
  "float64 (float64 (1 / 100) * 100) = 1"
proof -
  have "float64 (1 / 1) = 4503599627370496 / 2 ^ 52"
    by (subst float64_down [of 0]) (simp_all add: round_half_even_unique [of _ 4503599627370496])
  moreover have "float64 (4503599627370496 / 2 ^ 52 * 100) = 100"
    by (subst float64_up [of 6]) (simp_all add: round_half_even_unique [of _ "7036874417766400"])
  ultimately show "float64 (float64 (1 / 1) * 100) = 100" by (simp only:)
  have "float64 (1 / 2) = 4503599627370496 / 2 ^ 53"
    by (subst float64_down [of 1]) (simp_all add: round_half_even_unique [of _ 4503599627370496])
  moreover have "float64 (4503599627370496 / 2 ^ 53 * 100) = 50"
    by (subst float64_up [of 5]) (simp_all add: round_half_even_unique [of _ "7036874417766400"])
  ultimately show "float64 (float64 (1 / 2) * 100) = 50" by (simp only:)
  have "float64 (1 / 4) = 4503599627370496 / 2 ^ 54"
    by (subst float64_down [of 2]) (simp_all add: round_half_even_unique [of _ 4503599627370496])
  moreover have "float64 (4503599627370496 / 2 ^ 54 * 100) = 25"
    by (subst float64_up [of 4]) (simp_all add: round_half_even_unique [of _ "7036874417766400"])
  ultimately show "float64 (float64 (1 / 4) * 100) = 25" by (simp only:)
  have "float64 (1 / 5) = 7205759403792794 / 2 ^ 55"
    by (subst float64_down [of 3]) (simp_all add: round_half_even_unique [of _ 7205759403792794])
  moreover have "float64 (7205759403792794 / 2 ^ 55 * 100) = 20"
    by (subst float64_up [of 4]) (simp_all add: round_half_even_unique [of _ "5629499534213120"])
  ultimately show "float64 (float64 (1 / 5) * 100) = 20" by (simp only:)
  have "float64 (1 / 10) = 7205759403792794 / 2 ^ 56"
    by (subst float64_down [of 4]) (simp_all add: round_half_even_unique [of _ 7205759403792794])
  moreover have "float64 (7205759403792794 / 2 ^ 56 * 100) = 10"
    by (subst float64_up [of 3]) (simp_all add: round_half_even_unique [of _ "5629499534213120"])
  ultimately show "float64 (float64 (1 / 10) * 100) = 10" by (simp only:)
  have "float64 (1 / 20) = 7205759403792794 / 2 ^ 57"
    by (subst float64_down [of 5]) (simp_all add: round_half_even_unique [of _ 7205759403792794])
  moreover have "float64 (7205759403792794 / 2 ^ 57 * 100) = 5"
    by (subst float64_up [of 2]) (simp_all add: round_half_even_unique [of _ "5629499534213120"])
  ultimately show "float64 (float64 (1 / 20) * 100) = 5" by (simp only:)
  have "float64 (1 / 25) = 5764607523034235 / 2 ^ 57"
    by (subst float64_down [of 5]) (simp_all add: round_half_even_unique [of _ 5764607523034235])
  moreover have "float64 (5764607523034235 / 2 ^ 57 * 100) = 4"
    by (subst float64_up [of 2]) (simp_all add: round_half_even_unique [of _ "4503599627370496"])
  ultimately show "float64 (float64 (1 / 25) * 100) = 4" by (simp only:)
  have "float64 (1 / 50) = 5764607523034235 / 2 ^ 58"
    by (subst float64_down [of 6]) (simp_all add: round_half_even_unique [of _ 5764607523034235])
  moreover have "float64 (5764607523034235 / 2 ^ 58 * 100) = 2"
    by (subst float64_up [of 1]) (simp_all add: round_half_even_unique [of _ "4503599627370496"])
  ultimately show "float64 (float64 (1 / 50) * 100) = 2" by (simp only:)
  have "float64 (1 / 100) = 5764607523034235 / 2 ^ 59"
    by (subst float64_down [of 7]) (simp_all add: round_half_even_unique [of _ 5764607523034235])
  moreover have "float64 (5764607523034235 / 2 ^ 59 * 100) = 1"
    by (subst float64_up [of 0]) (simp_all add: round_half_even_unique [of _ "4503599627370496"])
  ultimately show "float64 (float64 (1 / 100) * 100) = 1" by (simp only:)
qed

text \<open>Rounding moves a number of moderate size by at most one part in \<open>2 ^ 53\<close>.\<close>

lemma round_half_even_near: "\<bar>of_int (round_half_even x) - x\<bar> \<le> 1 / 2"
proof -
  have "of_int \<lfloor>x\<rfloor> \<le> x" "x < of_int \<lfloor>x\<rfloor> + 1" by linarith+
  then show ?thesis by (auto simp: round_half_even_def Let_def abs_le_iff)
qed

lemma rounded_near:
  fixes x e :: rat
  assumes "2 ^ 52 \<le> x * e" "e > 0"
  shows "\<bar>of_int (round_half_even (x * e)) / e - x\<bar> \<le> x / 2 ^ 53"
proof -
  have "\<bar>of_int (round_half_even (x * e)) / e - x\<bar> = \<bar>of_int (round_half_even (x * e)) - x * e\<bar> / e"
    using assms(2) by (simp add: field_simps)
  also have "\<dots> \<le> (1 / 2) / e"
    by (rule divide_right_mono [OF round_half_even_near]) (use assms(2) in simp)
  also have "\<dots> \<le> x / 2 ^ 53" using assms by (simp add: field_simps)
  finally show ?thesis .
qed

lemma float64_near:
  assumes "1 / 2 ^ 190 \<le> x" "x < 2 ^ 52"
  shows "\<bar>float64 x - x\<bar> \<le> x / 2 ^ 53"
proof (cases "x \<ge> 1")
  case True
  then have "1 \<le> nat \<lfloor>x\<rfloor>" by (simp add: le_nat_iff le_floor_iff)
  then obtain j where j: "2 ^ j \<le> nat \<lfloor>x\<rfloor>" "nat \<lfloor>x\<rfloor> < 2 ^ (j + 1)"
    using ex_power_ivl1 [of 2 "nat \<lfloor>x\<rfloor>"] by auto
  then have x: "2 ^ j \<le> x" "x < 2 ^ (j + 1)"
    using True by (simp_all add: nat_less_iff le_nat_iff floor_less_iff le_floor_iff)
  have "(2::rat) ^ j < 2 ^ 52" by (rule le_less_trans [OF x(1) assms(2)])
  then have le: "j \<le> 52" using power_less_imp_less_exp [of "2::rat" j 52] by simp
  have p: "(2::rat) ^ j * 2 ^ (52 - j) = 2 ^ 52" using le by (simp flip: power_add)
  have "2 ^ 52 \<le> x * 2 ^ (52 - j)" using mult_right_mono [OF x(1), of "2 ^ (52 - j)"] unfolding p by simp
  moreover have "x * 2 ^ (52 - j) < 2 ^ 53"
  proof -
    have "(2::rat) ^ (j + 1) * 2 ^ (52 - j) = 2 ^ 53" using le by (simp only: power_add [symmetric]) simp
    moreover have "x * 2 ^ (52 - j) < 2 ^ (j + 1) * 2 ^ (52 - j)"
      by (rule mult_strict_right_mono [OF x(2)]) simp
    ultimately show ?thesis by (simp only:)
  qed
  ultimately show ?thesis using float64_up [OF le] rounded_near [of x "2 ^ (52 - j)"] by simp
next
  case False
  have pos: "x > 0" using assms(1) by (meson less_le_trans zero_less_divide_1_iff zero_less_numeral zero_less_power)
  then have "1 < 1 / x" using False by simp
  then have "2 \<le> nat \<lceil>1 / x\<rceil>" by (simp add: le_nat_iff)
  then obtain m where m: "2 ^ m < nat \<lceil>1 / x\<rceil>" "nat \<lceil>1 / x\<rceil> \<le> 2 ^ (m + 1)"
    using ex_power_ivl2 [of 2 "nat \<lceil>1 / x\<rceil>"] by auto
  then have "of_int (2 ^ m) < 1 / x" "1 / x \<le> of_int (2 ^ (m + 1))"
    using pos by (simp_all only: zless_nat_eq_int_zless nat_le_iff less_ceiling_iff ceiling_le_iff, simp_all add: less_ceiling_iff ceiling_le_iff)
  then have x: "x * 2 ^ m < 1" "1 \<le> x * 2 ^ (m + 1)" using pos by (simp_all add: field_simps)
  have "(2::rat) ^ m < 2 ^ 190"
  proof -
    have "2 ^ m / 2 ^ 190 \<le> x * 2 ^ m" using mult_right_mono [OF assms(1), of "2 ^ m"] by simp
    with x(1) have "2 ^ m / (2::rat) ^ 190 < 1" by linarith
    then show ?thesis by (subst (asm) divide_less_eq) simp
  qed
  then have lt: "m + 1 < 200" using power_less_imp_less_exp [of "2::rat" m 190] by simp
  have e: "x * 2 ^ (52 + (m + 1)) = (x * 2 ^ (m + 1)) * 2 ^ 52" "x * 2 ^ (52 + (m + 1)) = (x * 2 ^ m) * 2 ^ 53"
    by (simp_all add: power_add)
  have "2 ^ 52 \<le> x * 2 ^ (52 + (m + 1))" unfolding e(1) using x(2) by simp
  moreover have "x * 2 ^ (52 + (m + 1)) < 2 ^ 53" unfolding e(2) using x(1) by simp
  ultimately show ?thesis using float64_down [OF lt] rounded_near [of x "2 ^ (52 + (m + 1))"] by simp
qed

lemma near_bounds:
  fixes v b :: rat
  shows "\<bar>v - b\<bar> \<le> b / 2 ^ 53 \<Longrightarrow> b * (1 - 1 / 2 ^ 53) \<le> v \<and> v \<le> b * (1 + 1 / 2 ^ 53)"
  by (simp add: abs_if algebra_simps split: if_splits)

lemma quotient_near:
  fixes n :: int and v :: rat
  assumes "n \<ge> 1" "n \<le> 2 ^ 60" "v = float64 (float64 (1 / of_int n) * 100)" "100 mod n \<noteq> 0"
  shows "\<lfloor>v\<rfloor> = 100 div n"
proof -
  let ?x = "1 / of_int n :: rat" and ?d = "1 / 2 ^ 53 :: rat"
  let ?a = "float64 ?x"
  have n: "1 \<le> (of_int n :: rat)" "(of_int n :: rat) \<le> 2 ^ 60"
    using assms(1,2) by (simp, metis of_int_le_iff of_int_numeral of_int_power)
  have x: "1 / 2 ^ 60 \<le> ?x" "?x \<le> 1" using n by (simp_all add: field_simps)
  have "\<bar>?a - ?x\<bar> \<le> ?x / 2 ^ 53" by (rule float64_near) (use x in auto)
  then have a: "?x * (1 - ?d) \<le> ?a" "?a \<le> ?x * (1 + ?d)" by (blast dest: near_bounds)+
  let ?b = "?a * 100"
  have b: "?x * (1 - ?d) * 100 \<le> ?b" "?b \<le> ?x * (1 + ?d) * 100" using a by simp_all
  have "\<bar>float64 ?b - ?b\<bar> \<le> ?b / 2 ^ 53"
    by (rule float64_near) (use b x in auto)
  then have v: "?b * (1 - ?d) \<le> v" "v \<le> ?b * (1 + ?d)"
    unfolding assms(3) by (blast dest: near_bounds)+
  have lo: "?x * (100 - 200 * ?d) \<le> v"
  proof -
    have "?x * (100 - 200 * ?d) \<le> ?x * (1 - ?d) * 100 * (1 - ?d)" using n by (simp add: field_simps)
    also have "\<dots> \<le> ?b * (1 - ?d)" by (rule mult_right_mono [OF b(1)]) simp
    finally show ?thesis using v(1) by simp
  qed
  have hi: "v \<le> ?x * (100 + 300 * ?d)"
  proof -
    have "?b * (1 + ?d) \<le> ?x * (1 + ?d) * 100 * (1 + ?d)" by (rule mult_right_mono [OF b(2)]) simp
    also have "\<dots> \<le> ?x * (100 + 300 * ?d)" using n by (simp add: field_simps)
    finally show ?thesis using v(2) by simp
  qed
  let ?q = "100 div n" and ?r = "100 mod n"
  have r: "1 \<le> ?r" "?r \<le> n - 1"
    using assms(1,4) pos_mod_bound [of n 100] pos_mod_sign [of n 100] by linarith+
  have e: "(100::rat) = of_int ?q * of_int n + of_int ?r"
    by (metis div_mult_mod_eq of_int_add of_int_mult of_int_numeral)
  have r': "1 \<le> (of_int ?r :: rat)" "(of_int ?r :: rat) \<le> of_int n - 1"
    using r by (simp, metis of_int_1 of_int_diff of_int_le_iff)
  have "of_int ?q * of_int n \<le> 100 - 200 * ?d" using e r'(1) by simp
  then have "of_int ?q \<le> ?x * (100 - 200 * ?d)" using n by (simp add: field_simps)
  then have "of_int ?q \<le> v" using lo by simp
  moreover have "100 + 300 * ?d < (of_int ?q + 1) * of_int n" using e r'(2) by (simp add: algebra_simps)
  then have "?x * (100 + 300 * ?d) < of_int ?q + 1" using n by (simp add: field_simps)
  then have "v < of_int ?q + 1" using hi by simp
  ultimately show ?thesis by (rule floor_unique)
qed

end
