(* ===== verification/Ns.thy ===== *)
theory Ns
  imports Backend
begin

text \<open>
  \<open>src/ns.go\<close> and \<open>src/local.go\<close>: the name server records of the zone, made from the services
  that front the addresses the server is bound to, and these bound addresses.
\<close>

section \<open>Name server names\<close>

abbreviation defaultNSName :: string where "defaultNSName \<equiv> ''ns.dns.''"

definition isDefaultNS :: "string \<Rightarrow> string \<Rightarrow> bool" where
  "isDefaultNS name zone =
     (Index name defaultNSName = Some 0 \<and> Index name zone = Some (length defaultNSName))"

section \<open>Name server addresses\<close>

text \<open>The pair of slices \<open>svcNames\<close>, \<open>svcIPs\<close>; a nil \<open>net.IP\<close> is the empty list.\<close>

type_synonym ns_acc = "string list \<times> IP list"

definition ParseIP_or_nil :: "string \<Rightarrow> IP" where
  "ParseIP_or_nil s = (case ParseIP s of None \<Rightarrow> [] | Some ip \<Rightarrow> ip)"

definition ns_append :: "string \<Rightarrow> IP \<Rightarrow> ns_acc \<Rightarrow> ns_acc" where
  "ns_append name ip acc = (fst acc @ [name], snd acc @ [ip])"

fun ns_externalIPs_loop :: "string \<Rightarrow> string list \<Rightarrow> ns_acc \<Rightarrow> ns_acc" where
  "ns_externalIPs_loop svcName [] acc = acc"
| "ns_externalIPs_loop svcName (exIP # exIPs) acc =
     ns_externalIPs_loop svcName exIPs (ns_append svcName (ParseIP_or_nil exIP) acc)"

fun ns_addresses_loop :: "Kubernetes \<Rightarrow> string \<Rightarrow> EndpointAddress list \<Rightarrow> ns_acc \<Rightarrow> ns_acc" where
  "ns_addresses_loop k svcName [] acc = acc"
| "ns_addresses_loop k svcName (a # as) acc =
     ns_addresses_loop k svcName as
       (ns_append (endpointHostname a (k_endpointNameMode k) @ ''.'' @ svcName)
          (ParseIP_or_nil (ea_IP a)) acc)"

fun ns_subsets_loop :: "Kubernetes \<Rightarrow> string \<Rightarrow> EndpointSubset list \<Rightarrow> ns_acc \<Rightarrow> ns_acc" where
  "ns_subsets_loop k svcName [] acc = acc"
| "ns_subsets_loop k svcName (s # ss) acc =
     ns_subsets_loop k svcName ss (ns_addresses_loop k svcName (sub_Addresses s) acc)"

fun ns_services_loop ::
  "Kubernetes \<Rightarrow> bool \<Rightarrow> string \<Rightarrow> Endpoints \<Rightarrow> Service list \<Rightarrow> ns_acc \<Rightarrow> ns_acc" where
  "ns_services_loop k external zone endpoint [] acc = acc"
| "ns_services_loop k external zone endpoint (svc # svcs) acc =
     (if external then
        let svcName = Join [svc_Name svc, svc_Namespace svc, zone] ''.'' in
        ns_services_loop k external zone endpoint svcs
          (ns_externalIPs_loop svcName (svc_ExternalIPs svc) acc)
      else
        let svcName = Join [svc_Name svc, svc_Namespace svc, kindSvc, zone] ''.'' in
        if svc_ClusterIP svc = ClusterIPNone
        then ns_services_loop k external zone endpoint svcs
               (ns_subsets_loop k svcName (ep_Subsets endpoint) acc)
        else ns_services_loop k external zone endpoint svcs
               (ns_append svcName (ParseIP_or_nil (svc_ClusterIP svc)) acc))"

fun ns_endpoints_loop ::
  "Kubernetes \<Rightarrow> bool \<Rightarrow> string \<Rightarrow> Endpoints list \<Rightarrow> ns_acc \<Rightarrow> ns_acc go" where
  "ns_endpoints_loop k external zone [] acc = Ret acc"
| "ns_endpoints_loop k external zone (endpoint # es) acc =
     go_bind (api_SvcIndex (k_APIConn k) (ServiceKey (ep_Name endpoint) (ep_Namespace endpoint)))
       (\<lambda>svcs. ns_endpoints_loop k external zone es
                 (ns_services_loop k external zone endpoint svcs acc))"

fun ns_localIPs_loop :: "Kubernetes \<Rightarrow> bool \<Rightarrow> string \<Rightarrow> IP list \<Rightarrow> ns_acc \<Rightarrow> ns_acc go" where
  "ns_localIPs_loop k external zone [] acc = Ret acc"
| "ns_localIPs_loop k external zone (localIP # ips) acc =
     go_bind (api_EpIndexReverse (k_APIConn k) (IP_String localIP))
       (\<lambda>endpoints. go_bind (ns_endpoints_loop k external zone endpoints acc)
          (\<lambda>acc. ns_localIPs_loop k external zone ips acc))"

definition ns_record :: "string \<Rightarrow> IP \<Rightarrow> RR" where
  "ns_record name ip =
     (if To4 ip = []
      then RR_AAAA \<lparr>hdr_Name = name, hdr_Rrtype = TypeAAAA, hdr_Class = ClassINET, hdr_Ttl = 0\<rparr> ip
      else RR_A \<lparr>hdr_Name = name, hdr_Rrtype = TypeA, hdr_Class = ClassINET, hdr_Ttl = 0\<rparr> ip)"

fun ns_records_loop :: "string list \<Rightarrow> nat \<Rightarrow> IP list \<Rightarrow> RR list \<Rightarrow> RR list go" where
  "ns_records_loop svcNames i [] rrs = Ret rrs"
| "ns_records_loop svcNames i (ip # ips) rrs =
     (if i < length svcNames
      then ns_records_loop svcNames (Suc i) ips (rrs @ [ns_record (svcNames ! i) ip])
      else Panic IndexOutOfRange)"

definition nsAddrs :: "Kubernetes \<Rightarrow> bool \<Rightarrow> string \<Rightarrow> RR list go" where
  "nsAddrs k external zone =
     go_bind (ns_localIPs_loop k external zone (k_localIPs k) ([], []))
       (\<lambda>(svcNames, svcIPs).
          let (svcNames, svcIPs) =
            (if length svcIPs = 0
             then (range_fill (\<lambda>_. defaultNSName @ zone) (replicate (length (k_localIPs k)) '''')
                     (k_localIPs k),
                   range_fill (\<lambda>localIP. localIP) (replicate (length (k_localIPs k)) []) (k_localIPs k))
             else (svcNames, svcIPs))
          in ns_records_loop svcNames 0 svcIPs [])"

section \<open>Bound addresses\<close>

text \<open>
  \<open>boundIPs\<close>: the hosts are the listen hosts of the server, or the interface addresses when it
  listens everywhere.  A host that does not parse gives a nil address.
\<close>

definition ParseCIDR_or_nil :: "string \<Rightarrow> IP" where
  "ParseCIDR_or_nil s = (case ParseCIDR s of None \<Rightarrow> [] | Some ip \<Rightarrow> ip)"

fun boundIPs_loop :: "string list \<Rightarrow> IP list \<Rightarrow> IP list" where
  "boundIPs_loop [] ips = ips"
| "boundIPs_loop (host # hosts) ips =
     (let ip = ParseCIDR_or_nil host; ip4 = To4 ip in
      if ip4 \<noteq> [] \<and> \<not> IsLoopback ip4 then boundIPs_loop hosts (ips @ [ip4])
      else
        let ip6 = To16 ip in
        if ip6 \<noteq> [] \<and> \<not> IsLoopback ip6 then boundIPs_loop hosts (ips @ [ip6])
        else boundIPs_loop hosts ips)"

definition boundIPs :: "(go_err + string list) \<Rightarrow> string list \<Rightarrow> IP list" where
  "boundIPs interfaceAddrs listenHosts =
     (if listenHosts = [] \<or> hd listenHosts = '''' then
        (case interfaceAddrs of
           Inl err \<Rightarrow> []
         | Inr addrs \<Rightarrow> boundIPs_loop addrs [])
      else boundIPs_loop listenHosts [])"

lemma IsLoopback_To4: "To4 ip \<noteq> [] \<Longrightarrow> IsLoopback (To4 ip) = IsLoopback ip"
  by (simp add: IsLoopback_def To4_To4)

lemma To16_nil: "To16 [] = []"
  by (simp add: To16_def)

lemma To4_To16: "To4 (To16 ip) = To4 ip \<or> To16 ip = []"
  by (auto simp: To4_def To16_def v4InV6Prefix_def)

text \<open>The address under which a host is bound, in its short form, unless it is a loopback one.\<close>

definition bound_address :: "string \<Rightarrow> IP option" where
  "bound_address host =
     (case ParseCIDR host of
        None \<Rightarrow> None
      | Some ip \<Rightarrow> if IsLoopback ip then None else Some (if To4 ip \<noteq> [] then To4 ip else ip))"

lemma ParseCIDR_length: "ParseCIDR s = Some ip \<Longrightarrow> length ip = 16"
  by (auto simp: ParseCIDR_def dest: ParseIP_length split: list.splits option.splits if_splits)

lemma boundIPs_loop_eq: "boundIPs_loop hosts ips = ips @ List.map_filter bound_address hosts"
proof (induction hosts arbitrary: ips)
  case (Cons host hosts)
  have nil: "To4 [] = []" by (simp add: To4_def)
  show ?case
  proof (cases "ParseCIDR host")
    case None
    then show ?thesis
      by (simp add: Cons.IH Let_def ParseCIDR_or_nil_def bound_address_def nil To16_nil List.map_filter_simps)
  next
    case (Some ip)
    have "ip \<noteq> []" using ParseCIDR_length [OF Some] by auto
    moreover have "To16 ip = ip" using ParseCIDR_length [OF Some] by (simp add: To16_def)
    ultimately show ?thesis using Some
      by (cases "To4 ip = []")
        (auto simp: Cons.IH Let_def ParseCIDR_or_nil_def bound_address_def IsLoopback_To4 List.map_filter_simps)
  qed
qed (simp add: List.map_filter_simps)

text \<open>
  The bound addresses are exactly the non-loopback addresses of the hosts, in order, IPv4 ones
  in their short form; and a host given without a prefix length contributes none, so that a server
  bound to plain addresses has no local addresses at all.
\<close>

theorem boundIPs_exact:
  "boundIPs addrs hosts =
     (if hosts = [] \<or> hd hosts = ''''
      then (case addrs of Inl _ \<Rightarrow> [] | Inr as \<Rightarrow> List.map_filter bound_address as)
      else List.map_filter bound_address (filter (\<lambda>h. CHR ''/'' \<in> set h) hosts))"
proof -
  have "List.map_filter bound_address hs = List.map_filter bound_address (filter (\<lambda>h. CHR ''/'' \<in> set h) hs)"
    for hs
  proof (induction hs)
    case (Cons h hs)
    then show ?case
      using ParseCIDR_slash [of h]
      by (cases "ParseCIDR h") (auto simp: List.map_filter_simps bound_address_def split: option.splits)
  qed simp
  then show ?thesis by (simp add: boundIPs_def boundIPs_loop_eq split: sum.splits)
qed


section \<open>What the name server records show\<close>

text \<open>
  The name and address pairs a service gives for an endpoints object that has a bound address:
  its external addresses, or the addresses of the endpoints when it is headless, or its cluster
  address.
\<close>

inductive ns_source ::
  "Kubernetes \<Rightarrow> bool \<Rightarrow> string \<Rightarrow> Endpoints \<Rightarrow> Service \<Rightarrow> string \<Rightarrow> IP \<Rightarrow> bool"
  for k external zone ep svc where
  external:
    "external \<Longrightarrow> exIP \<in> set (svc_ExternalIPs svc) \<Longrightarrow>
     ns_source k external zone ep svc (Join [svc_Name svc, svc_Namespace svc, zone] ''.'') (ParseIP_or_nil exIP)"
| headless:
    "\<not> external \<Longrightarrow> svc_ClusterIP svc = ClusterIPNone \<Longrightarrow>
     sub \<in> set (ep_Subsets ep) \<Longrightarrow> a \<in> set (sub_Addresses sub) \<Longrightarrow>
     ns_source k external zone ep svc
       (endpointHostname a (k_endpointNameMode k) @ ''.'' @
          Join [svc_Name svc, svc_Namespace svc, kindSvc, zone] ''.'')
       (ParseIP_or_nil (ea_IP a))"
| cluster:
    "\<not> external \<Longrightarrow> svc_ClusterIP svc \<noteq> ClusterIPNone \<Longrightarrow>
     ns_source k external zone ep svc (Join [svc_Name svc, svc_Namespace svc, kindSvc, zone] ''.'')
       (ParseIP_or_nil (svc_ClusterIP svc))"

inductive_cases ns_sourceE: "ns_source k external zone ep svc name ip"

text \<open>The loops only append, and keep the two slices in step.\<close>

definition ns_pairs :: "ns_acc \<Rightarrow> (string \<times> IP) list" where
  "ns_pairs acc = zip (fst acc) (snd acc)"

definition ns_even :: "ns_acc \<Rightarrow> bool" where
  "ns_even acc \<longleftrightarrow> length (fst acc) = length (snd acc)"

lemma ns_append_pairs:
  "ns_even acc \<Longrightarrow> ns_even (ns_append name ip acc) \<and> ns_pairs (ns_append name ip acc) = ns_pairs acc @ [(name, ip)]"
  by (simp add: ns_even_def ns_append_def ns_pairs_def)

lemma ns_externalIPs_loop_pairs:
  "ns_even acc \<Longrightarrow> ns_even (ns_externalIPs_loop n exIPs acc) \<and>
   ns_pairs (ns_externalIPs_loop n exIPs acc) = ns_pairs acc @ map (\<lambda>e. (n, ParseIP_or_nil e)) exIPs"
  by (induction exIPs arbitrary: acc) (auto simp: ns_append_pairs)

lemma ns_addresses_loop_pairs:
  "ns_even acc \<Longrightarrow> ns_even (ns_addresses_loop k n as acc) \<and>
   ns_pairs (ns_addresses_loop k n as acc) =
     ns_pairs acc @ map (\<lambda>a. (endpointHostname a (k_endpointNameMode k) @ ''.'' @ n, ParseIP_or_nil (ea_IP a))) as"
  by (induction as arbitrary: acc) (auto simp: ns_append_pairs)

lemma ns_subsets_loop_pairs:
  "ns_even acc \<Longrightarrow> ns_even (ns_subsets_loop k n ss acc) \<and>
   set (ns_pairs (ns_subsets_loop k n ss acc)) =
     set (ns_pairs acc) \<union>
     {(endpointHostname a (k_endpointNameMode k) @ ''.'' @ n, ParseIP_or_nil (ea_IP a)) | a s.
        s \<in> set ss \<and> a \<in> set (sub_Addresses s)}"
  by (induction ss arbitrary: acc) (auto simp: ns_addresses_loop_pairs)

lemma ns_services_loop_pairs:
  "ns_even acc \<Longrightarrow> ns_even (ns_services_loop k external zone ep svcs acc) \<and>
   set (ns_pairs (ns_services_loop k external zone ep svcs acc)) =
     set (ns_pairs acc) \<union> {(n, ip). \<exists>svc \<in> set svcs. ns_source k external zone ep svc n ip}"
proof (induction svcs arbitrary: acc)
  case (Cons svc svcs)
  let ?S = "{(n, ip). ns_source k external zone ep svc n ip}"
  have head: "ns_services_loop k external zone ep (svc # svcs) acc =
      ns_services_loop k external zone ep svcs acc' \<Longrightarrow>
      ns_even acc' \<and> set (ns_pairs acc') = set (ns_pairs acc) \<union> ?S \<Longrightarrow> ?case" for acc'
    using Cons.IH [of acc'] by auto
  consider "external" | "\<not> external" "svc_ClusterIP svc = ClusterIPNone"
    | "\<not> external" "svc_ClusterIP svc \<noteq> ClusterIPNone" by blast
  then show ?case
  proof cases
    case 1
    let ?n = "Join [svc_Name svc, svc_Namespace svc, zone] ''.''"
    have "ns_even (ns_externalIPs_loop ?n (svc_ExternalIPs svc) acc) \<and>
        set (ns_pairs (ns_externalIPs_loop ?n (svc_ExternalIPs svc) acc)) = set (ns_pairs acc) \<union> ?S"
      using 1 ns_externalIPs_loop_pairs [OF Cons.prems] by (auto simp: ns_source.simps)
    then show ?thesis by (rule head [rotated]) (simp add: 1 Let_def)
  next
    case 2
    let ?n = "Join [svc_Name svc, svc_Namespace svc, kindSvc, zone] ''.''"
    have "ns_even (ns_subsets_loop k ?n (ep_Subsets ep) acc) \<and>
        set (ns_pairs (ns_subsets_loop k ?n (ep_Subsets ep) acc)) = set (ns_pairs acc) \<union> ?S"
      using 2 ns_subsets_loop_pairs [OF Cons.prems, of k ?n "ep_Subsets ep"] by (auto simp: ns_source.simps)
    then show ?thesis by (rule head [rotated]) (simp add: 2 Let_def)
  next
    case 3
    let ?n = "Join [svc_Name svc, svc_Namespace svc, kindSvc, zone] ''.''"
    have "ns_even (ns_append ?n (ParseIP_or_nil (svc_ClusterIP svc)) acc) \<and>
        set (ns_pairs (ns_append ?n (ParseIP_or_nil (svc_ClusterIP svc)) acc)) = set (ns_pairs acc) \<union> ?S"
      using 3 ns_append_pairs [OF Cons.prems] by (auto simp: ns_source.simps)
    then show ?thesis by (rule head [rotated]) (simp add: 3 Let_def)
  qed
qed simp

lemma ns_records_loop_eq:
  "length names = i + length ips \<Longrightarrow>
   ns_records_loop names i ips rrs = Ret (rrs @ map2 ns_record (drop i names) ips)"
proof (induction ips arbitrary: i rrs)
  case (Cons ip ips)
  then have "i < length names" by simp
  then have "drop i names = names ! i # drop (Suc i) names" by (simp add: Cons_nth_drop_Suc)
  with Cons show ?case by simp
qed simp

context controller_contract
begin

lemma ns_endpoints_loop_pairs:
  assumes "k_APIConn k = api" "ns_even acc"
  shows "\<exists>acc'. ns_endpoints_loop k external zone es acc = Ret acc' \<and> ns_even acc' \<and>
     set (ns_pairs acc') = set (ns_pairs acc) \<union>
       {(n, ip). \<exists>ep \<in> set es. \<exists>svc \<in> svcs. svc_Index svc = ServiceKey (ep_Name ep) (ep_Namespace ep) \<and>
                   ns_source k external zone ep svc n ip}"
  using assms(2)
proof (induction es arbitrary: acc)
  case (Cons ep es)
  obtain ss where ss: "api_SvcIndex api (ServiceKey (ep_Name ep) (ep_Namespace ep)) = Ret ss"
      "set ss = {s \<in> svcs. svc_Index s = ServiceKey (ep_Name ep) (ep_Namespace ep)}"
    using by_name by blast
  note step = ns_services_loop_pairs [OF Cons.prems, of k external zone ep ss]
  obtain acc' where "ns_endpoints_loop k external zone es (ns_services_loop k external zone ep ss acc) = Ret acc'"
      "ns_even acc'" "set (ns_pairs acc') = set (ns_pairs (ns_services_loop k external zone ep ss acc)) \<union>
       {(n, ip). \<exists>ep \<in> set es. \<exists>svc \<in> svcs. svc_Index svc = ServiceKey (ep_Name ep) (ep_Namespace ep) \<and>
                   ns_source k external zone ep svc n ip}"
    using Cons.IH step by blast
  then show ?case using ss step assms(1) by auto
qed simp

lemma ns_localIPs_loop_pairs:
  assumes "k_APIConn k = api" "ns_even acc"
  shows "\<exists>acc'. ns_localIPs_loop k external zone ips acc = Ret acc' \<and> ns_even acc' \<and>
     set (ns_pairs acc') = set (ns_pairs acc) \<union>
       {(n, ip). \<exists>l \<in> set ips. \<exists>ep \<in> eps. \<exists>svc \<in> svcs. IP_String l \<in> set (ep_IndexIP ep) \<and>
                   svc_Index svc = ServiceKey (ep_Name ep) (ep_Namespace ep) \<and>
                   ns_source k external zone ep svc n ip}"
  using assms(2)
proof (induction ips arbitrary: acc)
  case (Cons l ips)
  obtain es where es: "api_EpIndexReverse api (IP_String l) = Ret es"
      "set es = {e \<in> eps. IP_String l \<in> set (ep_IndexIP e)}"
    using ep_by_ip by blast
  obtain acc1 where a1: "ns_endpoints_loop k external zone es acc = Ret acc1" "ns_even acc1"
      "set (ns_pairs acc1) = set (ns_pairs acc) \<union>
       {(n, ip). \<exists>ep \<in> set es. \<exists>svc \<in> svcs. svc_Index svc = ServiceKey (ep_Name ep) (ep_Namespace ep) \<and>
                   ns_source k external zone ep svc n ip}"
    using ns_endpoints_loop_pairs [OF assms(1) Cons.prems] by blast
  obtain acc2 where "ns_localIPs_loop k external zone ips acc1 = Ret acc2" "ns_even acc2"
      "set (ns_pairs acc2) = set (ns_pairs acc1) \<union>
       {(n, ip). \<exists>l \<in> set ips. \<exists>ep \<in> eps. \<exists>svc \<in> svcs. IP_String l \<in> set (ep_IndexIP ep) \<and>
                   svc_Index svc = ServiceKey (ep_Name ep) (ep_Namespace ep) \<and>
                   ns_source k external zone ep svc n ip}"
    using Cons.IH [OF a1(2)] by blast
  then show ?case using es a1 assms(1) by auto
qed simp

lemma nsAddrs_sources:
  assumes "k_APIConn k = api"
  shows "\<exists>rrs. nsAddrs k external zone = Ret rrs \<and>
     (let src = {(n, ip). \<exists>l \<in> set (k_localIPs k). \<exists>ep \<in> eps. \<exists>svc \<in> svcs.
                   IP_String l \<in> set (ep_IndexIP ep) \<and>
                   svc_Index svc = ServiceKey (ep_Name ep) (ep_Namespace ep) \<and>
                   ns_source k external zone ep svc n ip} in
      if src = {} then rrs = map (ns_record (defaultNSName @ zone)) (k_localIPs k)
      else set rrs = (\<lambda>(n, ip). ns_record n ip) ` src)"
proof -
  let ?src = "{(n, ip). \<exists>l \<in> set (k_localIPs k). \<exists>ep \<in> eps. \<exists>svc \<in> svcs.
                   IP_String l \<in> set (ep_IndexIP ep) \<and>
                   svc_Index svc = ServiceKey (ep_Name ep) (ep_Namespace ep) \<and>
                   ns_source k external zone ep svc n ip}"
  obtain names ips where acc: "ns_localIPs_loop k external zone (k_localIPs k) ([], []) = Ret (names, ips)"
      "length names = length ips" "set (zip names ips) = ?src"
    using ns_localIPs_loop_pairs [OF assms, of "([], [])" external zone "k_localIPs k"]
    by (auto simp: ns_even_def ns_pairs_def)
  show ?thesis
  proof (cases "ips = []")
    case True
    have "map2 ns_record (map (\<lambda>_. defaultNSName @ zone) ls) ls = map (ns_record (defaultNSName @ zone)) ls"
      for ls by (induction ls) auto
    then have "nsAddrs k external zone = Ret (map (ns_record (defaultNSName @ zone)) (k_localIPs k))"
      using True acc(1) by (simp add: nsAddrs_def ns_records_loop_eq)
    moreover have "?src = {}" using True acc(3) by simp
    ultimately show ?thesis unfolding Let_def by (intro exI conjI) (assumption, simp only: if_True refl)
  next
    case False
    then have "set (zip names ips) \<noteq> {}" using acc(2) by (cases names; cases ips) auto
    then have ne: "?src \<noteq> {}" unfolding acc(3) .
    have "nsAddrs k external zone = Ret (map2 ns_record names ips)"
      using False acc(1,2) by (simp add: nsAddrs_def ns_records_loop_eq)
    moreover have "set (map2 ns_record names ips) = (\<lambda>(n, ip). ns_record n ip) ` ?src"
      unfolding set_map acc(3) ..
    ultimately show ?thesis using ne unfolding Let_def by (intro exI conjI) (assumption, simp only: if_False)
  qed
qed

end

context lawful_control
begin

lemmas nsAddrs_cached = nsAddrs_sources

end

text \<open>
  C20: the name server records of a zone are exactly those of the services whose endpoints include
  an address the server is bound to, with A records for IPv4 and AAAA records for other addresses;
  when there is no such service, the bound addresses themselves under the name \<open>ns.dns\<close> of the
  zone, in order.  Collecting them never crashes, whatever the bound addresses.
\<close>

theorem nsAddrs_correct:
  assumes "lawful_store svc_indexers (dc_svcLister c)"
    and "dc_epLister c = Some ix" and "lawful_store ep_indexers ix"
    and "k_APIConn k = dnsControl_api c"
  shows "\<exists>rrs. nsAddrs k external zone = Ret rrs \<and>
     (let src = {(n, ip). \<exists>l \<in> set (k_localIPs k). \<exists>ep \<in> cached_endpoints c. \<exists>svc \<in> cached_services c.
                   IP_String l \<in> set (ep_IndexIP ep) \<and>
                   svc_Index svc = ServiceKey (ep_Name ep) (ep_Namespace ep) \<and>
                   ns_source k external zone ep svc n ip} in
      if src = {} then rrs = map (ns_record (defaultNSName @ zone)) (k_localIPs k)
      else set rrs = (\<lambda>(n, ip). ns_record n ip) ` src)"
proof -
  have "lawful_control c" using assms(1-3) by unfold_locales auto
  then show ?thesis by (rule lawful_control.nsAddrs_cached [OF _ assms(4)])
qed

theorem nsAddrs_correct_witness:
  "nsAddrs (example_k\<lparr>k_localIPs := [[10, 0, 0, 9]]\<rparr>) False ''cluster.local.'' =
     Ret [RR_A \<lparr>hdr_Name = ''ns.dns.cluster.local.'', hdr_Rrtype = TypeA, hdr_Class = ClassINET, hdr_Ttl = 0\<rparr>
            [10, 0, 0, 9]]"
proof -
  have "k_APIConn (example_k\<lparr>k_localIPs := [[10, 0, 0, 9]]\<rparr>) = dnsControl_api example_control"
    by (simp add: example_k_def)
  moreover have "cached_endpoints example_control = {}"
    by (simp add: cached_endpoints_def example_lawful(2) store_of_def)
  ultimately show ?thesis
    using nsAddrs_correct [OF example_lawful, of "example_k\<lparr>k_localIPs := [[10, 0, 0, 9]]\<rparr>" False "''cluster.local.''"]
    by (simp add: ns_record_def To4_def)
qed

lemma Index_prefix: "Index s sub = Some n \<Longrightarrow> HasPrefix (drop n s) sub"
proof (induction s sub arbitrary: n rule: Index.induct)
  case (2 c s sub)
  then show ?case by (cases n) (auto split: if_splits)
qed (auto split: if_splits)

text \<open>
  A name is taken for the default name server of a zone only when it is \<open>ns.dns.\<close> followed by
  the zone; and in the root zone no name is, since the first dot of the name is found before the
  zone: there the fallback records carry a name that the plugin does not answer for.
\<close>

theorem isDefaultNS_names:
  "{name. isDefaultNS name zone} \<subseteq> {defaultNSName @ zone @ rest | rest. True} \<and>
   \<not> isDefaultNS name ''.''"
proof
  show "{name. isDefaultNS name zone} \<subseteq> {defaultNSName @ zone @ rest | rest. True}"
  proof
    fix n assume "n \<in> {name. isDefaultNS name zone}"
    then have i: "Index n defaultNSName = Some 0" "Index n zone = Some 7" by (auto simp: isDefaultNS_def)
    obtain t where t: "n = defaultNSName @ t" using Index_prefix [OF i(1)] by (auto simp: HasPrefix_iff)
    then obtain rest where "t = zone @ rest" using Index_prefix [OF i(2)] by (auto simp: HasPrefix_iff)
    with t show "n \<in> {defaultNSName @ zone @ rest | rest. True}" by auto
  qed
  show "\<not> isDefaultNS name ''.''"
  proof
    assume "isDefaultNS name ''.''"
    then have i: "Index name defaultNSName = Some 0" "Index name ''.'' = Some 7" by (auto simp: isDefaultNS_def)
    obtain t where "name = defaultNSName @ t" using Index_prefix [OF i(1)] by (auto simp: HasPrefix_iff)
    with i(2) show False by simp
  qed
qed

end
