(* ===== verification/Xfr.thy ===== *)
theory Xfr
  imports Backend Float64
begin

text \<open>
  \<open>src/xfr.go\<close>: outgoing zone transfers.  The channel that the zone's records are sent on is the
  list of the records, in order.  The record constructors of \<open>msg.Service\<close>, \<open>dns.Len\<close>,
  \<open>dns.Transfer.Out\<close> and \<open>plugin.SOA\<close> are arguments.
\<close>

section \<open>The library\<close>

record xfr_lib =
  NewA :: "msg_Service \<Rightarrow> string \<Rightarrow> IP \<Rightarrow> RR"
  NewAAAA :: "msg_Service \<Rightarrow> string \<Rightarrow> IP \<Rightarrow> RR"
  NewSRV :: "msg_Service \<Rightarrow> string \<Rightarrow> uint16 \<Rightarrow> RR"
  NewCNAME :: "msg_Service \<Rightarrow> string \<Rightarrow> string \<Rightarrow> RR"
  dns_Len :: "RR \<Rightarrow> nat"
  tr_Out :: "Request \<Rightarrow> RR list list \<Rightarrow> dns_Msg list"

text \<open>
  The last one is \<open>dns.Transfer.Out\<close>: the messages it writes to the client for the envelopes of its
  channel.
\<close>

section \<open>Serial and access control\<close>

definition Serial :: "Kubernetes \<Rightarrow> Request \<Rightarrow> uint32" where
  "Serial k state = of_int (api_Modified (k_APIConn k))"

definition MinTTL :: "Kubernetes \<Rightarrow> Request \<Rightarrow> uint32" where
  "MinTTL k state = k_ttl k"

fun transferAllowed_loop :: "string \<Rightarrow> string list \<Rightarrow> bool" where
  "transferAllowed_loop remote [] = False"
| "transferAllowed_loop remote (t # ts) =
     (if t = ''*'' then True
      else case SplitHostPort t of
             None \<Rightarrow> transferAllowed_loop remote ts
           | Some to \<Rightarrow> if to = remote then True else transferAllowed_loop remote ts)"

definition transferAllowed :: "Kubernetes \<Rightarrow> Request \<Rightarrow> bool" where
  "transferAllowed k state = transferAllowed_loop (rq_IP state) (k_TransferTo k)"

section \<open>SRV weights\<close>

text \<open>The sum of the weights of \<open>numservices\<close> zero services, all of priority 0.\<close>

fun srv_weights_loop :: "nat \<Rightarrow> (int, int) fmap \<Rightarrow> (int, int) fmap" where
  "srv_weights_loop 0 w = w"
| "srv_weights_loop (Suc n) w =
     (let serv = zero_msg_Service;
          weight = (if ms_Weight serv \<noteq> 0 then ms_Weight serv else 100) in
      case fmlookup w (ms_Priority serv) of
        None \<Rightarrow> srv_weights_loop n (fmupd (ms_Priority serv) weight w)
      | Some old \<Rightarrow> srv_weights_loop n (fmupd (ms_Priority serv) (old + weight) w))"

text \<open>
  The division by zero for no services at all does not occur: the weight is only used for a subset
  that has addresses.
\<close>

definition calcSRVWeight :: "nat \<Rightarrow> uint16" where
  "calcSRVWeight numservices =
     (let w = srv_weights_loop numservices fmempty;
          w0 = (case fmlookup w 0 of None \<Rightarrow> 0 | Some v \<Rightarrow> v);
          weight = (of_int \<lfloor>float64 (float64 (100 / float64 (of_int w0)) * 100)\<rfloor> :: uint16) in
      if weight = 0 then 1 else weight)"

section \<open>The records of a zone\<close>

definition emitAddressRecord ::
  "dns_lib \<Rightarrow> xfr_lib \<Rightarrow> RR list \<Rightarrow> msg_Service \<Rightarrow> RR list \<times> string" where
  "emitAddressRecord x l c message =
     (let ip = (case ParseIP (ms_Host message) of None \<Rightarrow> [] | Some ip \<Rightarrow> ip);
          dnsType = HostType x message in
      if dnsType = TypeA then
        let arec = NewA l message (msg_Domain x (ms_Key message)) ip
        in (c @ [arec], hdr_Name (rr_hdr arec))
      else if dnsType = TypeAAAA then
        let arec = NewAAAA l message (msg_Domain x (ms_Key message)) ip
        in (c @ [arec], hdr_Name (rr_hdr arec))
      else (c, ''''))"

definition srv_labels :: "string list \<Rightarrow> string \<Rightarrow> string \<Rightarrow> string" where
  "srv_labels svcBase protocol name = Join (svcBase @ [ToLower (''_'' @ protocol), ToLower (''_'' @ name)]) ''/''"

fun xfr_ports_loop ::
  "dns_lib \<Rightarrow> xfr_lib \<Rightarrow> Kubernetes \<Rightarrow> string list \<Rightarrow> string \<Rightarrow> ServicePort list \<Rightarrow> RR list \<Rightarrow> RR list" where
  "xfr_ports_loop x l k svcBase host [] c = c"
| "xfr_ports_loop x l k svcBase host (p # ps) c =
     (let s = zero_msg_Service\<lparr>ms_Host := host, ms_Port := sint (sp_Port p), ms_TTL := k_ttl k,
                              ms_Key := Join svcBase ''/''\<rparr>;
          c = c @ [NewSRV l s (msg_Domain x (ms_Key s)) 100] in
      if sp_Name p = '''' then xfr_ports_loop x l k svcBase host ps c
      else
        let s = s\<lparr>ms_Key := srv_labels svcBase (sp_Protocol p) (sp_Name p)\<rparr>
        in xfr_ports_loop x l k svcBase host ps (c @ [NewSRV l s (msg_Domain x (ms_Key s)) 100]))"

fun xfr_ep_ports_loop ::
  "dns_lib \<Rightarrow> xfr_lib \<Rightarrow> string list \<Rightarrow> uint16 \<Rightarrow> EndpointPort list \<Rightarrow> msg_Service \<Rightarrow> RR list \<Rightarrow> RR list" where
  "xfr_ep_ports_loop x l svcBase weight [] s c = c"
| "xfr_ep_ports_loop x l svcBase weight (p # ps) s c =
     (if epp_Name p = '''' then xfr_ep_ports_loop x l svcBase weight ps s c
      else
        let s = s\<lparr>ms_Port := sint (epp_Port p), ms_Key := srv_labels svcBase (epp_Protocol p) (epp_Name p)\<rparr>
        in xfr_ep_ports_loop x l svcBase weight ps s (c @ [NewSRV l s (msg_Domain x (ms_Key s)) weight]))"

fun xfr_addresses_loop ::
  "dns_lib \<Rightarrow> xfr_lib \<Rightarrow> Kubernetes \<Rightarrow> string list \<Rightarrow> uint16 \<Rightarrow> EndpointPort list \<Rightarrow> EndpointAddress list \<Rightarrow>
   RR list \<Rightarrow> RR list" where
  "xfr_addresses_loop x l k svcBase weight ports [] c = c"
| "xfr_addresses_loop x l k svcBase weight ports (addr # as) c =
     (let s = zero_msg_Service\<lparr>ms_Host := ea_IP addr, ms_TTL := k_ttl k, ms_Key := Join svcBase ''/''\<rparr>;
          (c, _) = emitAddressRecord x l c s;
          s = s\<lparr>ms_Key := Join (svcBase @ [endpointHostname addr (k_endpointNameMode k)]) ''/''\<rparr>;
          (c, host) = emitAddressRecord x l c s;
          s = s\<lparr>ms_Host := host\<rparr>
      in xfr_addresses_loop x l k svcBase weight ports as (xfr_ep_ports_loop x l svcBase weight ports s c))"

fun xfr_subsets_loop ::
  "dns_lib \<Rightarrow> xfr_lib \<Rightarrow> Kubernetes \<Rightarrow> string list \<Rightarrow> EndpointSubset list \<Rightarrow> RR list \<Rightarrow> RR list" where
  "xfr_subsets_loop x l k svcBase [] c = c"
| "xfr_subsets_loop x l k svcBase (eps # es) c =
     (let srvWeight = calcSRVWeight (length (sub_Addresses eps)) in
      xfr_subsets_loop x l k svcBase es
        (xfr_addresses_loop x l k svcBase srvWeight (sub_Ports eps) (sub_Addresses eps) c))"

fun xfr_endpoints_loop ::
  "dns_lib \<Rightarrow> xfr_lib \<Rightarrow> Kubernetes \<Rightarrow> Service \<Rightarrow> string list \<Rightarrow> Endpoints list \<Rightarrow> RR list \<Rightarrow> RR list" where
  "xfr_endpoints_loop x l k svc svcBase [] c = c"
| "xfr_endpoints_loop x l k svc svcBase (ep # eps) c =
     (if ep_Name ep \<noteq> svc_Name svc \<or> ep_Namespace ep \<noteq> svc_Namespace svc
      then xfr_endpoints_loop x l k svc svcBase eps c
      else xfr_endpoints_loop x l k svc svcBase eps (xfr_subsets_loop x l k svcBase (ep_Subsets ep) c))"

fun transfer_loop ::
  "dns_lib \<Rightarrow> xfr_lib \<Rightarrow> Kubernetes \<Rightarrow> string \<Rightarrow> Service list \<Rightarrow> RR list \<Rightarrow> RR list go" where
  "transfer_loop x l k zonePath [] c = Ret c"
| "transfer_loop x l k zonePath (svc # svcs) c =
     (if \<not> namespaceExposed k (svc_Namespace svc) then transfer_loop x l k zonePath svcs c
      else
        let svcBase = [zonePath, kindSvc, svc_Namespace svc, svc_Name svc] in
        if svc_Type svc \<in> {ServiceTypeClusterIP, ServiceTypeNodePort, ServiceTypeLoadBalancer} then
          (if ParseIP (svc_ClusterIP svc) \<noteq> None then
             let s = zero_msg_Service\<lparr>ms_Host := svc_ClusterIP svc, ms_TTL := k_ttl k,
                                      ms_Key := Join svcBase ''/''\<rparr>;
                 (c, host) = emitAddressRecord x l c s
             in transfer_loop x l k zonePath svcs (xfr_ports_loop x l k svcBase host (svc_Ports svc) c)
           else
             go_bind (api_EpIndex (k_APIConn k) (svc_Name svc @ ''.'' @ svc_Namespace svc))
               (\<lambda>endpointsList. transfer_loop x l k zonePath svcs
                                  (xfr_endpoints_loop x l k svc svcBase endpointsList c)))
        else if svc_Type svc = ServiceTypeExternalName then
          (let s = zero_msg_Service\<lparr>ms_Key := Join svcBase ''/'', ms_Host := svc_ExternalName svc,
                                    ms_TTL := k_ttl k\<rparr> in
           if HostType x s = TypeCNAME
           then transfer_loop x l k zonePath svcs (c @ [NewCNAME l s (msg_Domain x (ms_Key s)) (ms_Host s)])
           else transfer_loop x l k zonePath svcs c)
        else transfer_loop x l k zonePath svcs c)"

definition transfer :: "dns_lib \<Rightarrow> xfr_lib \<Rightarrow> Kubernetes \<Rightarrow> string \<Rightarrow> RR list go" where
  "transfer x l k zone =
     go_bind (api_ServiceList (k_APIConn k))
       (\<lambda>serviceList. transfer_loop x l k (msg_Path x zone ''coredns'') serviceList [])"

section \<open>Envelopes\<close>

abbreviation (input) transferLength :: nat where "transferLength \<equiv> 2000"

text \<open>
  The goroutine that cuts the records into envelopes: \<open>rest\<close> is what the range loop still has to
  visit, from index \<open>i\<close> on; \<open>records[j:i]\<close> is sent when the running length exceeds the limit.
\<close>

fun envelopes_loop ::
  "(RR \<Rightarrow> nat) \<Rightarrow> RR list \<Rightarrow> nat \<Rightarrow> nat \<Rightarrow> nat \<Rightarrow> RR list \<Rightarrow> RR list list \<Rightarrow> nat \<times> RR list list" where
  "envelopes_loop len records j l i [] ch = (j, ch)"
| "envelopes_loop len records j l i (r # rest) ch =
     (let l = l + len r in
      if l > transferLength
      then envelopes_loop len records i 0 (Suc i) rest (ch @ [take (i - j) (drop j records)])
      else envelopes_loop len records j l (Suc i) rest ch)"

definition envelopes :: "(RR \<Rightarrow> nat) \<Rightarrow> RR list \<Rightarrow> RR list list" where
  "envelopes len records =
     (let (j, ch) = envelopes_loop len records 0 0 0 records [] in
      if j < length records then ch @ [drop j records] else ch)"

text \<open>
  A transfer's response code and the envelopes handed to \<open>dns.Transfer.Out\<close>, \<open>None\<close> when no
  transfer is started.
\<close>

definition Transfer ::
  "dns_lib \<Rightarrow> xfr_lib \<Rightarrow> (string \<Rightarrow> Request \<Rightarrow> rr_result) \<Rightarrow> Kubernetes \<Rightarrow> Request \<Rightarrow>
   (int \<times> RR list list option) go" where
  "Transfer x l SOA k state =
     (if \<not> transferAllowed k state then Ret (RcodeRefused, None)
      else
        go_bind (transfer x l k (rq_Zone state))
          (\<lambda>records.
             if length records = 0 then Ret (RcodeServerFailure, None)
             else
               go_bind (SOA (rq_Zone state) state)
                 (\<lambda>(soa, err).
                    if err \<noteq> None then Ret (RcodeServerFailure, None)
                    else
                      let records = soa @ records; records = records @ soa
                      in Ret (RcodeSuccess, Some (envelopes (dns_Len l) records)))))"

section \<open>Cutting into envelopes\<close>

lemma envelopes_loop_inv:
  assumes "envelopes_loop len records j l i rest ch = (j', ch')"
    and "rest = drop i records" "j \<le> i" "i \<le> length records" "concat ch = take j records"
  shows "concat ch' = take j' records \<and> j' \<le> length records"
  using assms
proof (induction len records j l i rest ch rule: envelopes_loop.induct)
  case (2 len records j l i r rest ch)
  have "rest = drop (Suc i) records" "i < length records"
    using "2.prems"(2) by (metis drop_Suc list.sel(3) tl_drop, metis drop_all leI list.distinct(1))
  moreover have "take j records @ take (i - j) (drop j records) = take i records"
    using "2.prems"(3) by (metis le_add_diff_inverse take_add)
  ultimately show ?case using 2 by (auto simp: Let_def split: if_splits)
qed simp

lemma envelopes_complete: "concat (envelopes len records) = records"
  using envelopes_loop_inv [of len records 0 0 0 records "[]"]
  by (auto simp: envelopes_def split: prod.splits)

text \<open>Every envelope but its first record fits the limit; only the first one can be empty.\<close>

definition fits :: "(RR \<Rightarrow> nat) \<Rightarrow> RR list \<Rightarrow> bool" where
  "fits len e \<longleftrightarrow> sum_list (map len (tl e)) \<le> transferLength"

lemma fits_prefix: "sum_list (map len e) \<le> transferLength \<Longrightarrow> fits len e"
  by (cases e) (auto simp: fits_def)

text \<open>The running length counts the current envelope, except the first record of a later one.\<close>

lemma envelopes_loop_fits:
  assumes "envelopes_loop len records j l i rest ch = (j', ch')"
    and "rest = drop i records" "j \<le> i" "i \<le> length records"
    and "list_all (fits len) ch" "[] \<notin> set (tl ch)" "l \<le> transferLength"
    and "if ch = [] then j = 0 \<and> l = sum_list (map len (take i records))
         else j < i \<and> l = sum_list (map len (tl (take (i - j) (drop j records))))"
  shows "list_all (fits len) ch' \<and> [] \<notin> set (tl ch') \<and> fits len (drop j' records)"
  using assms
proof (induction len records j l i rest ch rule: envelopes_loop.induct)
  case (1 len records j l i ch)
  then have "i = length records" by simp
  with 1 show ?case
    by (cases "ch = []") (auto simp: fits_prefix, simp add: fits_def)
next
  case (2 len records j l i r rest ch)
  have r: "rest = drop (Suc i) records" "i < length records" "records ! i = r"
    using "2.prems"(2)
    by (metis drop_Suc list.sel(3) tl_drop, metis drop_all leI list.distinct(1),
        metis drop_all hd_drop_conv_nth leI list.distinct(1) list.sel(1))
  let ?cut = "take (i - j) (drop j records)"
  have ext: "take (Suc i - j) (drop j records) = ?cut @ [r]"
    using r(2,3) "2.prems"(3) by (simp add: Suc_diff_le take_Suc_conv_app_nth)
  show ?case
  proof (cases "l + len r > transferLength")
    case True
    have fit: "fits len ?cut"
    proof (cases "ch = []")
      case True
      with "2.prems"(7,8) show ?thesis by (auto intro: fits_prefix)
    next
      case False
      with "2.prems"(7,8) show ?thesis by (simp add: fits_def)
    qed
    have ne: "ch \<noteq> [] \<Longrightarrow> ?cut \<noteq> []" using "2.prems"(8) r(2) by auto
    have "tl (take (Suc i - i) (drop i records)) = []" by (cases "drop i records") auto
    with True fit ne show ?thesis
      using "2.IH"(1) [OF refl True] "2.prems"(1,5,6) r(1,2) by (cases ch) (auto simp: Let_def)
  next
    case False
    have "if ch = [] then j = 0 \<and> l + len r = sum_list (map len (take (Suc i) records))
          else j < Suc i \<and> l + len r = sum_list (map len (tl (take (Suc i - j) (drop j records))))"
    proof (cases "ch = []")
      case True
      with "2.prems"(8) r show ?thesis by (simp add: take_Suc_conv_app_nth)
    next
      case ch: False
      then have "?cut \<noteq> []" using "2.prems"(8) r(2) by auto
      with ch "2.prems"(8) show ?thesis unfolding ext by simp
    qed
    with False show ?thesis
      using "2.IH"(2) [OF refl False] "2.prems"(1,3,5,6) r(1,2) by (auto simp: Let_def)
  qed
qed

text \<open>
  C17: a transfer sends all the records of the zone, between two copies of the SOA record, in
  order and nothing else, however they are cut into envelopes; no envelope but the first is empty,
  and the records of an envelope after its first one are within the limit of 2000 bytes.
\<close>

theorem Transfer_complete:
  assumes "Transfer x l SOA k state = Ret (RcodeSuccess, Some es)"
  shows "\<exists>soa records. transfer x l k (rq_Zone state) = Ret records \<and> records \<noteq> [] \<and>
           SOA (rq_Zone state) state = Ret (soa, None) \<and>
           concat es = soa @ records @ soa \<and> [] \<notin> set (tl es) \<and> list_all (fits (dns_Len l)) es"
proof -
  obtain soa records where t: "transfer x l k (rq_Zone state) = Ret records" "records \<noteq> []"
      "SOA (rq_Zone state) state = Ret (soa, None)" "es = envelopes (dns_Len l) (soa @ records @ soa)"
    using assms by (auto simp: Transfer_def go_bind_eq_Ret split: if_splits)
  let ?rs = "soa @ records @ soa"
  obtain j ch where loop: "envelopes_loop (dns_Len l) ?rs 0 0 0 ?rs [] = (j, ch)" by (metis surj_pair)
  have "list_all (fits (dns_Len l)) ch \<and> [] \<notin> set (tl ch) \<and> fits (dns_Len l) (drop j ?rs)"
    using envelopes_loop_fits [OF loop] by simp
  then have "[] \<notin> set (tl es)" "list_all (fits (dns_Len l)) es"
    unfolding t(4) envelopes_def loop by (cases ch; auto)+
  then show ?thesis using t envelopes_complete by blast
qed

section \<open>Weights\<close>

lemma srv_weights_loop_sum:
  "srv_weights_loop n (fmupd 0 v fmempty) = fmupd 0 (v + 100 * int n) fmempty"
proof (induction n arbitrary: v)
  case (Suc n)
  have "fmupd 0 (v + 100) (fmupd 0 v fmempty) = fmupd 0 (v + 100) fmempty" by simp
  then show ?case using Suc.IH [of "v + 100"] by (simp add: zero_msg_Service_def Let_def algebra_simps)
qed simp

lemma srv_weights_total: "n \<ge> 1 \<Longrightarrow> fmlookup (srv_weights_loop n fmempty) 0 = Some (100 * int n)"
  by (cases n) (simp_all add: zero_msg_Service_def Let_def srv_weights_loop_sum)

lemma divisors_of_100:
  "1 \<le> n \<Longrightarrow> 100 mod n = (0::nat) \<Longrightarrow> n \<in> set [1, 2, 4, 5, 10, 20, 25, 50, 100]"
proof -
  assume n: "1 \<le> n" "100 mod n = 0"
  then have "n \<le> 100" using dvd_imp_le [of n 100] by (simp add: dvd_eq_mod_eq_0)
  moreover have "list_all (\<lambda>n. 100 mod n = 0 \<longrightarrow> n \<in> set [1, 2, 4, 5, 10, 20, 25, 50, 100]) [1..<101::nat]"
    by code_simp
  ultimately show ?thesis using n by (auto simp: list_all_iff)
qed

lemma srv_percentage:
  assumes "1 \<le> n" "n \<le> 2 ^ 46"
  shows "\<lfloor>float64 (float64 (100 / float64 (of_int (100 * int n))) * 100)\<rfloor> = int (100 div n)"
proof -
  have "int n \<le> 2 ^ 46" using assms(2) by simp
  then have exact: "float64 (of_int (100 * int n)) = of_int (100 * int n)"
    using assms(1) by (intro float64_of_int) simp_all
  show ?thesis unfolding exact
  proof (cases "100 mod n = 0")
    case True
    with divisors_of_100 [OF assms(1)] show "\<lfloor>float64 (float64 (100 / of_int (100 * int n)) * 100)\<rfloor> = int (100 div n)"
      using float64_divisors(1) by (auto simp: float64_divisors)
  next
    case False
    then have "100 mod int n \<noteq> 0" by (metis of_nat_0_eq_iff of_nat_numeral zmod_int)
    moreover have "int n \<le> 2 ^ 60" using assms(2) by simp
    ultimately show "\<lfloor>float64 (float64 (100 / of_int (100 * int n)) * 100)\<rfloor> = int (100 div n)"
      using quotient_near [of "int n" _, OF _ _ refl] assms(1) by (simp add: zdiv_int)
  qed
qed
text \<open>
  C19: the weight of an SRV record is the integer part of the share, in percent, that one of \<open>n\<close>
  equal endpoints has, and never less than one; the rounding of the floating-point computation does
  not show.
\<close>

theorem calcSRVWeight_share:
  assumes "1 \<le> n" "n \<le> 2 ^ 46"
  shows "unat (calcSRVWeight n) = max 1 (100 div n)"
proof -
  have "100 div n \<le> 100" by simp
  then have "100 div n < 2 ^ 16" by (rule le_less_trans) simp
  then have q: "unat (of_int (int (100 div n)) :: uint16) = 100 div n"
    by (simp add: unat_of_nat take_bit_eq_mod)
  let ?w = "of_int (int (100 div n)) :: uint16"
  have "calcSRVWeight n = (if ?w = 0 then 1 else ?w)"
    by (simp only: calcSRVWeight_def Let_def srv_weights_total [OF assms(1)] option.case srv_percentage [OF assms])
  moreover have "unat ?w = 0 \<longleftrightarrow> ?w = 0" by (rule unsigned_eq_0_iff)
  then have "?w = 0 \<longleftrightarrow> 100 div n = 0" by (simp only: q)
  ultimately show ?thesis using q by (cases "100 div n = 0") (simp_all only: if_True if_False, simp_all)
qed

theorem calcSRVWeight_share_witness: "unat (calcSRVWeight 3) = 33"
  using calcSRVWeight_share [of 3] by simp

section \<open>Who gets a transfer\<close>

lemma transferAllowed_loop_iff:
  "transferAllowed_loop remote ts \<longleftrightarrow> ''*'' \<in> set ts \<or> (\<exists>t \<in> set ts. SplitHostPort t = Some remote)"
  by (induction ts) (auto split: option.splits)

text \<open>
  Zone transfers are allowed to everybody when \<open>*\<close> is configured, and otherwise exactly to the
  hosts of the configured addresses; anybody else is refused and nothing is sent.
\<close>

theorem transferAllowed_acl:
  "(transferAllowed k state \<longleftrightarrow>
      ''*'' \<in> set (k_TransferTo k) \<or> (\<exists>t \<in> set (k_TransferTo k). SplitHostPort t = Some (rq_IP state))) \<and>
   (Transfer x l SOA k state = Ret (RcodeRefused, None) \<or> transferAllowed k state)"
  by (simp add: transferAllowed_def transferAllowed_loop_iff Transfer_def)

section \<open>What the zone of a transfer holds\<close>

text \<open>The loops as list comprehensions.\<close>

definition base_message :: "Kubernetes \<Rightarrow> string \<Rightarrow> Service \<Rightarrow> string list \<Rightarrow> string \<Rightarrow> msg_Service" where
  "base_message k zonePath svc labels host =
     zero_msg_Service\<lparr>ms_Host := host, ms_TTL := k_ttl k,
       ms_Key := Join ([zonePath, kindSvc, svc_Namespace svc, svc_Name svc] @ labels) ''/''\<rparr>"

definition address_records :: "dns_lib \<Rightarrow> xfr_lib \<Rightarrow> msg_Service \<Rightarrow> RR list" where
  "address_records x l m =
     (let ip = (case ParseIP (ms_Host m) of None \<Rightarrow> [] | Some ip \<Rightarrow> ip); name = msg_Domain x (ms_Key m) in
      if HostType x m = TypeA then [NewA l m name ip]
      else if HostType x m = TypeAAAA then [NewAAAA l m name ip] else [])"

definition record_host :: "dns_lib \<Rightarrow> xfr_lib \<Rightarrow> msg_Service \<Rightarrow> string" where
  "record_host x l m = (case address_records x l m of [] \<Rightarrow> '''' | rr # _ \<Rightarrow> hdr_Name (rr_hdr rr))"

definition srv_record :: "dns_lib \<Rightarrow> xfr_lib \<Rightarrow> msg_Service \<Rightarrow> uint16 \<Rightarrow> RR" where
  "srv_record x l m weight = NewSRV l m (msg_Domain x (ms_Key m)) weight"

definition port_labels :: "string \<Rightarrow> string \<Rightarrow> string list" where
  "port_labels protocol name = [ToLower (''_'' @ protocol), ToLower (''_'' @ name)]"

lemma base_message_sel [simp]:
  "ms_Host (base_message k zp svc ls host) = host" "ms_TTL (base_message k zp svc ls host) = k_ttl k"
  "ms_Priority (base_message k zp svc ls host) = 0" "ms_Weight (base_message k zp svc ls host) = 0"
  "ms_Text (base_message k zp svc ls host) = ''''"
  by (simp_all add: base_message_def zero_msg_Service_def)

lemma emitAddressRecord_eq: "emitAddressRecord x l c m = (c @ address_records x l m, record_host x l m)"
  by (auto simp: address_records_def record_host_def emitAddressRecord_def Let_def)

abbreviation (input) service_base :: "string \<Rightarrow> Service \<Rightarrow> string list" where
  "service_base zonePath svc \<equiv> [zonePath, kindSvc, svc_Namespace svc, svc_Name svc]"

definition port_records :: "dns_lib \<Rightarrow> xfr_lib \<Rightarrow> Kubernetes \<Rightarrow> string \<Rightarrow> Service \<Rightarrow> string \<Rightarrow> ServicePort \<Rightarrow> RR list" where
  "port_records x l k zp svc host p =
     srv_record x l (base_message k zp svc [] host\<lparr>ms_Port := sint (sp_Port p)\<rparr>) 100 #
     (if sp_Name p = '''' then []
      else [srv_record x l (base_message k zp svc (port_labels (sp_Protocol p) (sp_Name p)) host
              \<lparr>ms_Port := sint (sp_Port p)\<rparr>) 100])"

definition ep_port_records ::
  "dns_lib \<Rightarrow> xfr_lib \<Rightarrow> Kubernetes \<Rightarrow> string \<Rightarrow> Service \<Rightarrow> string \<Rightarrow> uint16 \<Rightarrow> EndpointPort \<Rightarrow> RR list" where
  "ep_port_records x l k zp svc host weight p =
     (if epp_Name p = '''' then []
      else [srv_record x l (base_message k zp svc (port_labels (epp_Protocol p) (epp_Name p)) host
              \<lparr>ms_Port := sint (epp_Port p)\<rparr>) weight])"

definition endpoint_host :: "dns_lib \<Rightarrow> xfr_lib \<Rightarrow> Kubernetes \<Rightarrow> string \<Rightarrow> Service \<Rightarrow> EndpointAddress \<Rightarrow> msg_Service" where
  "endpoint_host x l k zp svc a = base_message k zp svc [endpointHostname a (k_endpointNameMode k)] (ea_IP a)"

definition ep_address_records ::
  "dns_lib \<Rightarrow> xfr_lib \<Rightarrow> Kubernetes \<Rightarrow> string \<Rightarrow> Service \<Rightarrow> uint16 \<Rightarrow> EndpointPort list \<Rightarrow> EndpointAddress \<Rightarrow> RR list" where
  "ep_address_records x l k zp svc weight ports a =
     address_records x l (base_message k zp svc [] (ea_IP a)) @
     address_records x l (endpoint_host x l k zp svc a) @
     concat (map (ep_port_records x l k zp svc (record_host x l (endpoint_host x l k zp svc a)) weight) ports)"

lemma xfr_ports_loop_eq:
  "xfr_ports_loop x l k (service_base zp svc) host ps c = c @ concat (map (port_records x l k zp svc host) ps)"
  by (induction ps arbitrary: c)
    (simp_all add: Let_def port_records_def srv_record_def base_message_def srv_labels_def port_labels_def
      zero_msg_Service_def)

lemma xfr_ep_ports_loop_eq:
  assumes "ms_Host s = host" "ms_TTL s = k_ttl k" "ms_Priority s = 0" "ms_Weight s = 0" "ms_Text s = ''''"
  shows "xfr_ep_ports_loop x l (service_base zp svc) weight ps s c =
           c @ concat (map (ep_port_records x l k zp svc host weight) ps)"
  using assms
proof (induction ps arbitrary: s c)
  case (Cons p ps)
  let ?s = "s\<lparr>ms_Port := sint (epp_Port p), ms_Key := srv_labels (service_base zp svc) (epp_Protocol p) (epp_Name p)\<rparr>"
  have "?s = base_message k zp svc (port_labels (epp_Protocol p) (epp_Name p)) host\<lparr>ms_Port := sint (epp_Port p)\<rparr>"
    using Cons.prems by (cases s) (simp add: base_message_def zero_msg_Service_def srv_labels_def port_labels_def)
  then show ?case
    using Cons.IH [of "base_message k zp svc (port_labels (epp_Protocol p) (epp_Name p)) host\<lparr>ms_Port := sint (epp_Port p)\<rparr>"]
      Cons.IH [of s] Cons.prems by (simp add: Let_def ep_port_records_def srv_record_def)
qed simp

lemma xfr_addresses_loop_eq:
  "xfr_addresses_loop x l k (service_base zp svc) weight ports as c =
     c @ concat (map (ep_address_records x l k zp svc weight ports) as)"
proof (induction as arbitrary: c)
  case (Cons a as)
  then show ?case
    by (simp add: Let_def emitAddressRecord_eq ep_address_records_def endpoint_host_def base_message_def
        xfr_ep_ports_loop_eq [where k = k] zero_msg_Service_def)
qed simp

lemma xfr_subsets_loop_eq:
  "xfr_subsets_loop x l k (service_base zp svc) subs c =
     c @ concat (map (\<lambda>sub. concat (map (ep_address_records x l k zp svc
           (calcSRVWeight (length (sub_Addresses sub))) (sub_Ports sub)) (sub_Addresses sub))) subs)"
  by (induction subs arbitrary: c) (simp_all add: Let_def xfr_addresses_loop_eq)

definition endpoints_records :: "dns_lib \<Rightarrow> xfr_lib \<Rightarrow> Kubernetes \<Rightarrow> string \<Rightarrow> Service \<Rightarrow> Endpoints \<Rightarrow> RR list" where
  "endpoints_records x l k zp svc ep =
     (if ep_Name ep = svc_Name svc \<and> ep_Namespace ep = svc_Namespace svc
      then concat (map (\<lambda>sub. concat (map (ep_address_records x l k zp svc
             (calcSRVWeight (length (sub_Addresses sub))) (sub_Ports sub)) (sub_Addresses sub))) (ep_Subsets ep))
      else [])"

lemma xfr_endpoints_loop_eq:
  "xfr_endpoints_loop x l k svc (service_base zp svc) eps c = c @ concat (map (endpoints_records x l k zp svc) eps)"
  by (induction eps arbitrary: c) (simp_all add: xfr_subsets_loop_eq endpoints_records_def)

text \<open>
  What a service puts into the zone, given the endpoints: with a cluster address, the address and a
  record per port and named port; otherwise the address of each endpoint under the name of the
  service and under its own name, and a record per named port with the share of the endpoint as its
  weight; for an external name, the alias.
\<close>

definition clustered :: "Service \<Rightarrow> bool" where
  "clustered svc \<longleftrightarrow> svc_Type svc \<in> {ServiceTypeClusterIP, ServiceTypeNodePort, ServiceTypeLoadBalancer}"

definition endpoint_of :: "Endpoints set \<Rightarrow> Service \<Rightarrow> EndpointSubset \<Rightarrow> EndpointAddress \<Rightarrow> bool" where
  "endpoint_of E svc sub a \<longleftrightarrow>
     (\<exists>ep \<in> E. ep_Index ep = svc_Name svc @ ''.'' @ svc_Namespace svc \<and>
        ep_Name ep = svc_Name svc \<and> ep_Namespace ep = svc_Namespace svc \<and>
        sub \<in> set (ep_Subsets ep) \<and> a \<in> set (sub_Addresses sub))"

inductive zone_record ::
  "dns_lib \<Rightarrow> xfr_lib \<Rightarrow> Kubernetes \<Rightarrow> string \<Rightarrow> Endpoints set \<Rightarrow> Service \<Rightarrow> RR \<Rightarrow> bool"
  for x l k zp E svc where
  cluster_address:
    "clustered svc \<Longrightarrow> ParseIP (svc_ClusterIP svc) \<noteq> None \<Longrightarrow>
     m = base_message k zp svc [] (svc_ClusterIP svc) \<Longrightarrow> rr \<in> set (address_records x l m) \<Longrightarrow>
     zone_record x l k zp E svc rr"
| cluster_port:
    "clustered svc \<Longrightarrow> ParseIP (svc_ClusterIP svc) \<noteq> None \<Longrightarrow>
     m = base_message k zp svc [] (svc_ClusterIP svc) \<Longrightarrow> p \<in> set (svc_Ports svc) \<Longrightarrow>
     ls = [] \<or> sp_Name p \<noteq> '''' \<and> ls = port_labels (sp_Protocol p) (sp_Name p) \<Longrightarrow>
     rr = srv_record x l (base_message k zp svc ls (record_host x l m)\<lparr>ms_Port := sint (sp_Port p)\<rparr>) 100 \<Longrightarrow>
     zone_record x l k zp E svc rr"
| endpoint_address:
    "clustered svc \<Longrightarrow> ParseIP (svc_ClusterIP svc) = None \<Longrightarrow> endpoint_of E svc sub a \<Longrightarrow>
     ls = [] \<or> ls = [endpointHostname a (k_endpointNameMode k)] \<Longrightarrow>
     rr \<in> set (address_records x l (base_message k zp svc ls (ea_IP a))) \<Longrightarrow>
     zone_record x l k zp E svc rr"
| endpoint_port:
    "clustered svc \<Longrightarrow> ParseIP (svc_ClusterIP svc) = None \<Longrightarrow> endpoint_of E svc sub a \<Longrightarrow>
     m = base_message k zp svc [endpointHostname a (k_endpointNameMode k)] (ea_IP a) \<Longrightarrow>
     p \<in> set (sub_Ports sub) \<Longrightarrow> epp_Name p \<noteq> '''' \<Longrightarrow>
     rr = srv_record x l
            (base_message k zp svc (port_labels (epp_Protocol p) (epp_Name p)) (record_host x l m)
               \<lparr>ms_Port := sint (epp_Port p)\<rparr>)
            (calcSRVWeight (length (sub_Addresses sub))) \<Longrightarrow>
     zone_record x l k zp E svc rr"
| external_name:
    "svc_Type svc = ServiceTypeExternalName \<Longrightarrow> m = base_message k zp svc [] (svc_ExternalName svc) \<Longrightarrow>
     HostType x m = TypeCNAME \<Longrightarrow> rr = NewCNAME l m (msg_Domain x (ms_Key m)) (ms_Host m) \<Longrightarrow>
     zone_record x l k zp E svc rr"

lemma port_records_set:
  "rr \<in> set (port_records x l k zp svc host p) \<longleftrightarrow>
     (\<exists>ls. (ls = [] \<or> sp_Name p \<noteq> '''' \<and> ls = port_labels (sp_Protocol p) (sp_Name p)) \<and>
           rr = srv_record x l (base_message k zp svc ls host\<lparr>ms_Port := sint (sp_Port p)\<rparr>) 100)"
  by (auto simp: port_records_def)

lemma ep_address_records_set:
  "rr \<in> set (ep_address_records x l k zp svc w ports a) \<longleftrightarrow>
     (\<exists>ls. (ls = [] \<or> ls = [endpointHostname a (k_endpointNameMode k)]) \<and>
           rr \<in> set (address_records x l (base_message k zp svc ls (ea_IP a)))) \<or>
     (\<exists>p \<in> set ports. epp_Name p \<noteq> '''' \<and>
        rr = srv_record x l (base_message k zp svc (port_labels (epp_Protocol p) (epp_Name p))
               (record_host x l (base_message k zp svc [endpointHostname a (k_endpointNameMode k)] (ea_IP a)))
               \<lparr>ms_Port := sint (epp_Port p)\<rparr>) w)"
  by (auto simp: ep_address_records_def ep_port_records_def endpoint_host_def)

lemma clustered_alias: "clustered svc \<Longrightarrow> svc_Type svc \<noteq> ServiceTypeExternalName"
  by (auto simp: clustered_def)

lemma zone_record_cluster:
  assumes "clustered svc" "ParseIP (svc_ClusterIP svc) \<noteq> None"
  shows "zone_record x l k zp E svc rr \<longleftrightarrow>
    (let m = base_message k zp svc [] (svc_ClusterIP svc) in
     rr \<in> set (address_records x l m) \<or>
     (\<exists>p \<in> set (svc_Ports svc). rr \<in> set (port_records x l k zp svc (record_host x l m) p)))"
    (is "_ \<longleftrightarrow> ?spec")
proof
  assume "zone_record x l k zp E svc rr"
  then show ?spec using assms clustered_alias [OF assms(1)]
    by (cases rule: zone_record.cases) (auto simp: Let_def port_records_set)
next
  assume ?spec
  then show "zone_record x l k zp E svc rr"
    using zone_record.cluster_address [OF assms refl] zone_record.cluster_port [OF assms refl]
    unfolding Let_def port_records_set by blast
qed

lemma zone_record_endpoints:
  assumes "clustered svc" "ParseIP (svc_ClusterIP svc) = None"
  shows "zone_record x l k zp E svc rr \<longleftrightarrow>
    (\<exists>sub a. endpoint_of E svc sub a \<and>
       rr \<in> set (ep_address_records x l k zp svc (calcSRVWeight (length (sub_Addresses sub))) (sub_Ports sub) a))"
    (is "_ \<longleftrightarrow> ?spec")
proof
  assume "zone_record x l k zp E svc rr"
  then show ?spec using assms clustered_alias [OF assms(1)]
  proof cases
    case (endpoint_address sub a ls)
    then show ?thesis by (intro exI conjI) (assumption, auto simp: ep_address_records_set)
  next
    case (endpoint_port sub a m p)
    then have "rr \<in> set (ep_address_records x l k zp svc (calcSRVWeight (length (sub_Addresses sub))) (sub_Ports sub) a)"
      unfolding ep_address_records_set by (intro disjI2 bexI [of _ p]) simp_all
    with endpoint_port(3) show ?thesis by (intro exI conjI)
  qed auto
next
  assume ?spec
  then obtain sub a where e: "endpoint_of E svc sub a"
    "rr \<in> set (ep_address_records x l k zp svc (calcSRVWeight (length (sub_Addresses sub))) (sub_Ports sub) a)"
    by blast
  from e(2) show "zone_record x l k zp E svc rr"
    unfolding ep_address_records_set
  proof (elim disjE [of "\<exists>ls. _ ls"] exE bexE conjE)
    show ?thesis if "ls = [] \<or> ls = [endpointHostname a (k_endpointNameMode k)]"
      "rr \<in> set (address_records x l (base_message k zp svc ls (ea_IP a)))" for ls
      by (rule zone_record.endpoint_address [OF assms e(1) that])
  qed (rule zone_record.endpoint_port [OF assms e(1) refl])
qed

lemma zone_record_other:
  assumes "\<not> clustered svc"
  shows "zone_record x l k zp E svc rr \<longleftrightarrow>
    (let m = base_message k zp svc [] (svc_ExternalName svc) in
     svc_Type svc = ServiceTypeExternalName \<and> HostType x m = TypeCNAME \<and>
     rr = NewCNAME l m (msg_Domain x (ms_Key m)) (ms_Host m))"
  unfolding Let_def using assms by (auto elim!: zone_record.cases intro: zone_record.external_name)

lemma transfer_loop_cons:
  assumes "api_EpIndex (k_APIConn k) (svc_Name svc @ ''.'' @ svc_Namespace svc) = Ret es"
    and "set es = {e \<in> E. ep_Index e = svc_Name svc @ ''.'' @ svc_Namespace svc}"
    and "namespaceExposed k (svc_Namespace svc)"
  shows "\<exists>rs. transfer_loop x l k zp (svc # svcs) c = transfer_loop x l k zp svcs (c @ rs) \<and>
              set rs = {rr. zone_record x l k zp E svc rr}"
proof (cases "clustered svc")
  case True
  show ?thesis
  proof (cases "ParseIP (svc_ClusterIP svc) = None")
    case None: True
    let ?rs = "concat (map (endpoints_records x l k zp svc) es)"
    have "set ?rs = {rr. zone_record x l k zp E svc rr}"
      unfolding zone_record_endpoints [OF True None] endpoint_of_def set_concat set_map assms(2)
      by (auto simp: endpoints_records_def split: if_splits)
    then show ?thesis using True None assms(1,3)
      by (intro exI [of _ ?rs]) (simp add: clustered_def Let_def xfr_endpoints_loop_eq)
  next
    case ip: False
    let ?m = "base_message k zp svc [] (svc_ClusterIP svc)"
    let ?rs = "address_records x l ?m @ concat (map (port_records x l k zp svc (record_host x l ?m)) (svc_Ports svc))"
    have "set ?rs = {rr. zone_record x l k zp E svc rr}"
      unfolding zone_record_cluster [OF True ip] by (auto simp: Let_def)
    moreover have "transfer_loop x l k zp (svc # svcs) c = transfer_loop x l k zp svcs (c @ ?rs)"
      using True ip assms(3)
      by (simp add: clustered_def Let_def emitAddressRecord_eq xfr_ports_loop_eq base_message_def)
    ultimately show ?thesis by blast
  qed
next
  case False
  let ?m = "base_message k zp svc [] (svc_ExternalName svc)"
  let ?rs = "if svc_Type svc = ServiceTypeExternalName \<and> HostType x ?m = TypeCNAME
             then [NewCNAME l ?m (msg_Domain x (ms_Key ?m)) (ms_Host ?m)] else []"
  have m: "?m = zero_msg_Service\<lparr>ms_Key := Join (service_base zp svc) ''/'', ms_Host := svc_ExternalName svc, ms_TTL := k_ttl k\<rparr>"
    by (simp add: base_message_def zero_msg_Service_def)
  have "set ?rs = {rr. zone_record x l k zp E svc rr}"
    unfolding zone_record_other [OF False] by (simp add: Let_def)
  moreover have "transfer_loop x l k zp (svc # svcs) c = transfer_loop x l k zp svcs (c @ ?rs)"
    using False assms(3) unfolding m by (simp add: clustered_def Let_def)
  ultimately show ?thesis by blast
qed

context controller_contract
begin

lemma transfer_loop_contents:
  assumes api: "k_APIConn k = api"
  shows "\<exists>rs. transfer_loop x l k zp svs c = Ret (c @ rs) \<and>
     set rs = {rr. \<exists>svc \<in> set svs. namespaceExposed k (svc_Namespace svc) \<and> zone_record x l k zp eps svc rr}"
proof (induction svs arbitrary: c)
  case (Cons svc svs)
  show ?case
  proof (cases "namespaceExposed k (svc_Namespace svc)")
    case True
    obtain es where "api_EpIndex (k_APIConn k) (svc_Name svc @ ''.'' @ svc_Namespace svc) = Ret es"
        "set es = {e \<in> eps. ep_Index e = svc_Name svc @ ''.'' @ svc_Namespace svc}"
      using ep_by_name unfolding api by blast
    from transfer_loop_cons [OF this True] obtain rs where
      rs: "transfer_loop x l k zp (svc # svs) c = transfer_loop x l k zp svs (c @ rs)"
        "set rs = {rr. zone_record x l k zp eps svc rr}" by blast
    obtain rs' where "transfer_loop x l k zp svs (c @ rs) = Ret ((c @ rs) @ rs')"
        "set rs' = {rr. \<exists>svc \<in> set svs. namespaceExposed k (svc_Namespace svc) \<and> zone_record x l k zp eps svc rr}"
      using Cons.IH by blast
    then show ?thesis using rs True by (intro exI [of _ "rs @ rs'"]) auto
  next
    case False
    then show ?thesis using Cons.IH [of c] by auto
  qed
qed simp

lemma transfer_contents:
  assumes "k_APIConn k = api"
  shows "\<exists>rs. transfer x l k zone = Ret rs \<and>
     set rs = {rr. \<exists>svc \<in> svcs. namespaceExposed k (svc_Namespace svc) \<and>
                     zone_record x l k (msg_Path x zone ''coredns'') eps svc rr}"
proof -
  obtain ss where "api_ServiceList api = Ret ss" "set ss = svcs" using services by blast
  then show ?thesis
    using transfer_loop_contents [OF assms, of x l "msg_Path x zone ''coredns''" ss "[]"]
    by (simp add: transfer_def assms)
qed

end

context lawful_control
begin

lemmas transfer_cached = transfer_contents

end

text \<open>
  C18: the zone that is transferred holds exactly the records of the cached services in exposed
  namespaces: the cluster address of a service and one record per port and named port, or the
  addresses of its endpoints, each under the service's name and its own, with a record per named
  port; and an alias for each external name.  The transfer never fails to produce them.
\<close>

theorem transfer_zone:
  assumes "lawful_store svc_indexers (dc_svcLister c)"
    and "dc_epLister c = Some ix" and "lawful_store ep_indexers ix" and "k_APIConn k = dnsControl_api c"
  shows "\<exists>rs. transfer x l k zone = Ret rs \<and>
     set rs = {rr. \<exists>svc \<in> cached_services c. namespaceExposed k (svc_Namespace svc) \<and>
                     zone_record x l k (msg_Path x zone ''coredns'') (cached_endpoints c) svc rr}"
proof -
  have "lawful_control c" using assms(1-3) by unfold_locales auto
  then show ?thesis by (rule lawful_control.transfer_cached [OF _ assms(4)])
qed
section \<open>Examples\<close>

definition ex_xfr :: xfr_lib where
  "ex_xfr =
     \<lparr>NewA = (\<lambda>s n ip. RR_A \<lparr>hdr_Name = n, hdr_Rrtype = TypeA, hdr_Class = ClassINET, hdr_Ttl = ms_TTL s\<rparr> ip),
      NewAAAA = (\<lambda>s n ip. RR_AAAA \<lparr>hdr_Name = n, hdr_Rrtype = TypeAAAA, hdr_Class = ClassINET, hdr_Ttl = ms_TTL s\<rparr> ip),
      NewSRV = (\<lambda>s n w. RR_Other \<lparr>hdr_Name = n, hdr_Rrtype = TypeSRV, hdr_Class = ClassINET, hdr_Ttl = ms_TTL s\<rparr> (ms_Host s)),
      NewCNAME = (\<lambda>s n t. RR_Other \<lparr>hdr_Name = n, hdr_Rrtype = TypeCNAME, hdr_Class = ClassINET, hdr_Ttl = ms_TTL s\<rparr> t),
      dns_Len = (\<lambda>_. 1500),
      tr_Out = (\<lambda>q es. map (\<lambda>e. \<lparr>m_Id = 0, m_Authoritative = True, m_Answer = e, m_Extra = []\<rparr>) es)\<rparr>"

definition ex_SOA :: "string \<Rightarrow> Request \<Rightarrow> rr_result" where
  "ex_SOA zone state =
     Ret ([RR_Other \<lparr>hdr_Name = zone, hdr_Rrtype = TypeSOA, hdr_Class = ClassINET, hdr_Ttl = 5\<rparr> ''soa''], None)"

definition axfr_query :: Request where
  "axfr_query =
     \<lparr>rq_Name = ''cluster.local.'', rq_QName = ''cluster.local.'', rq_QType = TypeAXFR, rq_IP = ''10.0.0.1'',
      rq_Zone = ''cluster.local.''\<rparr>"

lemma Transfer_succeeds:
  assumes "transferAllowed k state" "transfer x l k (rq_Zone state) = Ret records" "records \<noteq> []"
    and "SOA (rq_Zone state) state = Ret (soa, None)"
  shows "Transfer x l SOA k state = Ret (RcodeSuccess, Some (envelopes (dns_Len l) (soa @ records @ soa)))"
  using assms by (simp add: Transfer_def)

theorem Transfer_complete_witness:
  "\<exists>es records. Transfer ex_lib ex_xfr ex_SOA (example_k\<lparr>k_TransferTo := [''10.0.0.1:53'']\<rparr>) axfr_query =
                  Ret (RcodeSuccess, Some es) \<and>
     transfer ex_lib ex_xfr (example_k\<lparr>k_TransferTo := [''10.0.0.1:53'']\<rparr>) ''cluster.local.'' = Ret records \<and>
     records \<noteq> [] \<and> length (concat es) = length records + 2"
proof -
  let ?k = "example_k\<lparr>k_TransferTo := [''10.0.0.1:53'']\<rparr>"
  have "SplitHostPort (''10.0.0.1'' @ '':'' @ ''53'') = Some ''10.0.0.1''" by (rule SplitHostPort_join) auto
  then have allowed: "transferAllowed ?k axfr_query"
    by (simp add: transferAllowed_def axfr_query_def)
  have exp: "namespaceExposed ?k ''testns''"
    using example_exposed by (simp add: namespaceExposed_def configuredNamespace_def filteredNamespaceExists_def)
  have list: "api_ServiceList (k_APIConn ?k) = Ret [example_service]"
    by (simp add: example_k_def dnsControl_api_def ServiceList_def example_control_def newdnsController_def
        stores_def store_of_def cast_Service_def)
  have ip: "ParseIP ''10.0.0.1'' = Some (v4InV6Prefix @ [10, 0, 0, 1])"
    by (simp add: ParseIP_def is_digit_def byte_of_def digit_val_def)
  obtain records where r: "transfer ex_lib ex_xfr ?k (rq_Zone axfr_query) = Ret records" "records \<noteq> []"
    using exp list ip by (simp add: transfer_def example_service_def Let_def split_beta)
  from Transfer_complete [OF Transfer_succeeds [of ?k axfr_query ex_lib ex_xfr, OF allowed r, of ex_SOA]]
  show ?thesis using Transfer_succeeds [of ?k axfr_query ex_lib ex_xfr, OF allowed r, of ex_SOA] r
    by (simp add: ex_SOA_def axfr_query_def)
qed

theorem transfer_zone_witness:
  "\<exists>rs rr. transfer ex_lib ex_xfr example_k ''cluster.local.'' = Ret rs \<and> rr \<in> set rs \<and>
     rr_ip rr = v4InV6Prefix @ [10, 0, 0, 1]"
proof -
  have ip: "ParseIP ''10.0.0.1'' = Some (v4InV6Prefix @ [10, 0, 0, 1])"
    by (simp add: ParseIP_def is_digit_def byte_of_def digit_val_def)
  let ?zp = "msg_Path ex_lib ''cluster.local.'' ''coredns''"
  let ?m = "base_message example_k ?zp example_service [] ''10.0.0.1''"
  let ?rr = "NewA ex_xfr ?m (msg_Domain ex_lib (ms_Key ?m)) (v4InV6Prefix @ [10, 0, 0, 1])"
  have "HostType ex_lib ?m = TypeA" using ip by (simp add: ex_lib_def ex_HostType_def To4_def v4InV6Prefix_def)
  then have "?rr \<in> set (address_records ex_lib ex_xfr ?m)" using ip by (simp add: address_records_def)
  then have "zone_record ex_lib ex_xfr example_k ?zp E example_service ?rr" for E
    using ip by (intro zone_record.cluster_address [OF _ _ refl]) (simp_all add: clustered_def example_service_def)
  moreover have "namespaceExposed example_k (svc_Namespace example_service)"
    by (simp add: example_exposed example_service_def)
  moreover have "k_APIConn example_k = dnsControl_api example_control" by (simp add: example_k_def)
  ultimately obtain rs where "transfer ex_lib ex_xfr example_k ''cluster.local.'' = Ret rs" "?rr \<in> set rs"
    using transfer_zone [OF example_lawful, of example_k ex_lib ex_xfr "''cluster.local.''"]
    unfolding example_cached by blast
  moreover have "rr_ip ?rr = v4InV6Prefix @ [10, 0, 0, 1]" by (simp add: ex_xfr_def)
  ultimately show ?thesis by blast
qed
end
