(* ===== verification/Plugin.thy ===== *)
theory Plugin
  imports Ns Xfr
begin

text \<open>
  What the plugin offers to the other plugins of the server: the service backend interface of
  \<open>src/kubernetes.go\<close>, \<open>src/reverse.go\<close> and \<open>src/xfr.go\<close>, and the hooks of \<open>src/external.go\<close>,
  \<open>src/autopath.go\<close>, \<open>src/metadata.go\<close> and \<open>src/ready.go\<close>.
\<close>

section \<open>Services\<close>

abbreviation DNSSchemaVersion :: string where "DNSSchemaVersion \<equiv> ''1.1.0''"

text \<open>The type assertions \<open>ns.(*dns.A)\<close> and \<open>ns.(*dns.AAAA)\<close>, with the address printed.\<close>

definition rr_A_String :: "RR \<Rightarrow> string go" where
  "rr_A_String rr = (case rr of RR_A h ip \<Rightarrow> Ret (IP_String ip) | _ \<Rightarrow> Panic FailedTypeAssertion)"

definition rr_AAAA_String :: "RR \<Rightarrow> string go" where
  "rr_AAAA_String rr = (case rr of RR_AAAA h ip \<Rightarrow> Ret (IP_String ip) | _ \<Rightarrow> Panic FailedTypeAssertion)"

fun Services_NS_loop ::
  "dns_lib \<Rightarrow> Kubernetes \<Rightarrow> RR list \<Rightarrow> msg_Service list \<Rightarrow> msg_Service list go" where
  "Services_NS_loop x k [] svcs = Ret svcs"
| "Services_NS_loop x k (ns # nss) svcs =
     (if hdr_Rrtype (rr_hdr ns) = TypeA then
        go_bind (rr_A_String ns) (\<lambda>host.
          Services_NS_loop x k nss
            (svcs @ [zero_msg_Service\<lparr>ms_Host := host, ms_Key := msg_Path x (hdr_Name (rr_hdr ns)) coredns,
                                      ms_TTL := k_ttl k\<rparr>]))
      else if hdr_Rrtype (rr_hdr ns) = TypeAAAA then
        go_bind (rr_AAAA_String ns) (\<lambda>host.
          Services_NS_loop x k nss
            (svcs @ [zero_msg_Service\<lparr>ms_Host := host, ms_Key := msg_Path x (hdr_Name (rr_hdr ns)) coredns,
                                      ms_TTL := k_ttl k\<rparr>]))
      else Services_NS_loop x k nss svcs)"

fun Services_default_loop ::
  "dns_lib \<Rightarrow> Kubernetes \<Rightarrow> Request \<Rightarrow> RR list \<Rightarrow> msg_Service list \<Rightarrow> msg_Service list go" where
  "Services_default_loop x k state [] svcs = Ret svcs"
| "Services_default_loop x k state (ns # nss) svcs =
     (if hdr_Rrtype (rr_hdr ns) = TypeA \<and> rq_QType state = TypeA then
        go_bind (rr_A_String ns) (\<lambda>host.
          Services_default_loop x k state nss
            (svcs @ [zero_msg_Service\<lparr>ms_Host := host, ms_Key := msg_Path x (rq_QName state) coredns,
                                      ms_TTL := k_ttl k\<rparr>]))
      else if hdr_Rrtype (rr_hdr ns) = TypeAAAA \<and> rq_QType state = TypeAAAA then
        go_bind (rr_AAAA_String ns) (\<lambda>host.
          Services_default_loop x k state nss
            (svcs @ [zero_msg_Service\<lparr>ms_Host := host, ms_Key := msg_Path x (rq_QName state) coredns,
                                      ms_TTL := k_ttl k\<rparr>]))
      else Services_default_loop x k state nss svcs)"

definition Services :: "dns_lib \<Rightarrow> Kubernetes \<Rightarrow> Request \<Rightarrow> bool \<Rightarrow> svc_result" where
  "Services x k state exact =
     (if rq_QType state = TypeTXT then
        let segs = SplitDomainName x (TrimZone x (rq_Name state) (rq_Zone state)) in
        if length segs \<noteq> 1 then Ret ([], None)
        else if segs ! 0 \<noteq> ''dns-version'' then Ret ([], None)
        else Ret ([zero_msg_Service\<lparr>ms_Text := DNSSchemaVersion, ms_TTL := 28800,
                                    ms_Key := msg_Path x (rq_QName state) coredns\<rparr>], None)
      else if rq_QType state = TypeNS then
        go_bind (nsAddrs k False (rq_Zone state)) (\<lambda>nss.
        go_bind (Services_NS_loop x k nss []) (\<lambda>svcs. Ret (svcs, None)))
      else if isDefaultNS (rq_Name state) (rq_Zone state) then
        go_bind (nsAddrs k False (rq_Zone state)) (\<lambda>nss.
        go_bind (Services_default_loop x k state nss []) (\<lambda>svcs. Ret (svcs, None)))
      else
        go_bind (Records x k state False) (\<lambda>(s, e).
          if rq_QType state \<noteq> TypeSRV then Ret (s, e)
          else Ret (filter (\<lambda>svc. HostType x svc \<noteq> TypeCNAME) s, e)))"

definition primaryZone :: "Kubernetes \<Rightarrow> string go" where
  "primaryZone k =
     (if 0 \<le> k_primaryZoneIndex k \<and> k_primaryZoneIndex k < int (length (k_Zones k))
      then Ret (k_Zones k ! nat (k_primaryZoneIndex k)) else Panic IndexOutOfRange)"

definition Lookup ::
  "plugin_lib \<Rightarrow> Kubernetes \<Rightarrow> Request \<Rightarrow> string \<Rightarrow> uint16 \<Rightarrow> (dns_Msg option \<times> go_err option) go" where
  "Lookup pl k state name typ = Upstream_Lookup pl state name typ"

definition IsNameError :: "go_err option \<Rightarrow> bool" where
  "IsNameError err = (err = Some errNoItems \<or> err = Some errNsNotExposed \<or> err = Some errInvalidRequest)"

section \<open>Reverse lookups\<close>

text \<open>The first service under the address that may be shown.\<close>

fun reverse_services_loop :: "Kubernetes \<Rightarrow> Service list \<Rightarrow> msg_Service option go" where
  "reverse_services_loop k [] = Ret None"
| "reverse_services_loop k (service # ss) =
     (if fcard (k_Namespaces k) > 0 \<and> \<not> namespaceExposed k (svc_Namespace service)
      then reverse_services_loop k ss
      else
        go_bind (primaryZone k) (\<lambda>zone.
          let domain = Join [svc_Name service, svc_Namespace service, kindSvc, zone] ''.''
          in Ret (Some (zero_msg_Service\<lparr>ms_Host := domain, ms_TTL := k_ttl k\<rparr>))))"

fun reverse_addresses_loop ::
  "Kubernetes \<Rightarrow> string \<Rightarrow> Endpoints \<Rightarrow> EndpointAddress list \<Rightarrow> msg_Service list \<Rightarrow> msg_Service list go" where
  "reverse_addresses_loop k ip ep [] svcs = Ret svcs"
| "reverse_addresses_loop k ip ep (addr # as) svcs =
     (if ea_IP addr = ip then
        go_bind (primaryZone k) (\<lambda>zone.
          let domain = Join [endpointHostname addr (k_endpointNameMode k), ep_Name ep, ep_Namespace ep,
                             kindSvc, zone] ''.''
          in reverse_addresses_loop k ip ep as
               (svcs @ [zero_msg_Service\<lparr>ms_Host := domain, ms_TTL := k_ttl k\<rparr>]))
      else reverse_addresses_loop k ip ep as svcs)"

fun reverse_subsets_loop ::
  "Kubernetes \<Rightarrow> string \<Rightarrow> Endpoints \<Rightarrow> EndpointSubset list \<Rightarrow> msg_Service list \<Rightarrow> msg_Service list go" where
  "reverse_subsets_loop k ip ep [] svcs = Ret svcs"
| "reverse_subsets_loop k ip ep (eps # es) svcs =
     go_bind (reverse_addresses_loop k ip ep (sub_Addresses eps) svcs)
       (\<lambda>svcs. reverse_subsets_loop k ip ep es svcs)"

fun reverse_endpoints_loop ::
  "Kubernetes \<Rightarrow> string \<Rightarrow> Endpoints list \<Rightarrow> msg_Service list \<Rightarrow> msg_Service list go" where
  "reverse_endpoints_loop k ip [] svcs = Ret svcs"
| "reverse_endpoints_loop k ip (ep # eps) svcs =
     (if fcard (k_Namespaces k) > 0 \<and> \<not> namespaceExposed k (ep_Namespace ep)
      then reverse_endpoints_loop k ip eps svcs
      else go_bind (reverse_subsets_loop k ip ep (ep_Subsets ep) svcs)
             (\<lambda>svcs. reverse_endpoints_loop k ip eps svcs))"

definition serviceRecordForIP :: "Kubernetes \<Rightarrow> string \<Rightarrow> string \<Rightarrow> msg_Service list go" where
  "serviceRecordForIP k ip name =
     go_bind (api_SvcIndexReverse (k_APIConn k) ip) (\<lambda>ss.
     go_bind (reverse_services_loop k ss) (\<lambda>found.
       case found of
         Some s \<Rightarrow> Ret [s]
       | None \<Rightarrow>
           go_bind (api_EpIndexReverse (k_APIConn k) ip) (\<lambda>eps. reverse_endpoints_loop k ip eps [])))"

definition Reverse :: "dns_lib \<Rightarrow> Kubernetes \<Rightarrow> Request \<Rightarrow> bool \<Rightarrow> svc_result" where
  "Reverse x k state exact =
     (let ip = ExtractAddressFromReverse x (rq_Name state) in
      if ip = '''' then go_bind (Records x k state exact) (\<lambda>(_, e). Ret ([], e))
      else
        go_bind (serviceRecordForIP k ip (rq_Name state)) (\<lambda>records.
          if length records = 0 then Ret (records, Some errNoItems) else Ret (records, None)))"

section \<open>External services\<close>

fun external_ports_loop ::
  "Kubernetes \<Rightarrow> string \<Rightarrow> string \<Rightarrow> string \<Rightarrow> Service \<Rightarrow> string \<Rightarrow> ServicePort list \<Rightarrow>
   msg_Service list \<times> int \<Rightarrow> msg_Service list \<times> int" where
  "external_ports_loop k zonePath port protocol svc ip [] acc = acc"
| "external_ports_loop k zonePath port protocol svc ip (p # ps) acc =
     (if \<not> (match port (sp_Name p) \<and> match protocol (sp_Protocol p))
      then external_ports_loop k zonePath port protocol svc ip ps acc
      else
        let s = zero_msg_Service\<lparr>ms_Host := ip, ms_Port := sint (sp_Port p), ms_TTL := k_ttl k\<rparr>;
            s = s\<lparr>ms_Key := Join [zonePath, svc_Namespace svc, svc_Name svc] ''/''\<rparr>
        in external_ports_loop k zonePath port protocol svc ip ps (fst acc @ [s], RcodeSuccess))"

fun external_ips_loop ::
  "Kubernetes \<Rightarrow> string \<Rightarrow> string \<Rightarrow> string \<Rightarrow> Service \<Rightarrow> string list \<Rightarrow>
   msg_Service list \<times> int \<Rightarrow> msg_Service list \<times> int" where
  "external_ips_loop k zonePath port protocol svc [] acc = acc"
| "external_ips_loop k zonePath port protocol svc (ip # ips) acc =
     external_ips_loop k zonePath port protocol svc ips
       (external_ports_loop k zonePath port protocol svc ip (svc_Ports svc) acc)"

fun external_services_loop ::
  "Kubernetes \<Rightarrow> string \<Rightarrow> string \<Rightarrow> string \<Rightarrow> string \<Rightarrow> string \<Rightarrow> Service list \<Rightarrow>
   msg_Service list \<times> int \<Rightarrow> msg_Service list \<times> int" where
  "external_services_loop k zonePath namespace service port protocol [] acc = acc"
| "external_services_loop k zonePath namespace service port protocol (svc # svcs) acc =
     (if namespace \<noteq> svc_Namespace svc
      then external_services_loop k zonePath namespace service port protocol svcs acc
      else if service \<noteq> svc_Name svc
      then external_services_loop k zonePath namespace service port protocol svcs acc
      else external_services_loop k zonePath namespace service port protocol svcs
             (external_ips_loop k zonePath port protocol svc (svc_ExternalIPs svc) acc))"

definition External :: "dns_lib \<Rightarrow> Kubernetes \<Rightarrow> Request \<Rightarrow> (msg_Service list \<times> int) go" where
  "External x k state =
     (let segs = SplitDomainName x (TrimZone x (rq_Name state) (rq_Zone state));
          last = int (length segs) - 1 in
      if last < 0 then Ret ([], RcodeServerFailure)
      else
        let namespace = segs ! nat last in
        if \<not> namespaceExposed k namespace then Ret ([], RcodeNameError)
        else
          let last = last - 1 in
          if last < 0 then Ret ([], RcodeSuccess)
          else
            let service = segs ! nat last; last = last - 1 in
            go_bind
              (if last = 1
               then go_bind (stripUnderscore (segs ! nat last)) (\<lambda>protocol.
                    go_bind (stripUnderscore (segs ! nat (last - 1))) (\<lambda>port.
                      Ret (port, protocol, last - 2)))
               else Ret (''*'', ''*'', last))
              (\<lambda>(port, protocol, last).
                 if last \<noteq> -1 then Ret ([], RcodeNameError)
                 else
                   go_bind (api_SvcIndex (k_APIConn k) (ServiceKey service namespace)) (\<lambda>serviceList.
                     Ret (external_services_loop k (msg_Path x (rq_Zone state) coredns) namespace service
                            port protocol serviceList ([], RcodeNameError)))))"

definition ExternalAddress :: "Kubernetes \<Rightarrow> Request \<Rightarrow> RR list go" where
  "ExternalAddress k state = nsAddrs k True (rq_Zone state)"

section \<open>Search paths and metadata\<close>

definition podWithIP :: "Kubernetes \<Rightarrow> string \<Rightarrow> Pod option go" where
  "podWithIP k ip =
     (if k_podMode k \<noteq> podModeVerified then Ret None
      else
        go_bind (api_PodIndex (k_APIConn k) ip) (\<lambda>ps.
          if length ps = 0 then Ret None else Ret (Some (ps ! 0))))"

text \<open>A nil slice is the empty list.\<close>

definition AutoPath :: "dns_lib \<Rightarrow> Kubernetes \<Rightarrow> Request \<Rightarrow> string list go" where
  "AutoPath x k state =
     (let zone = Matches x (k_Zones k) (rq_Name state) in
      if zone = '''' then Ret []
      else if \<not> opt_initPodCache (k_opts k) then Ret []
      else
        go_bind (podWithIP k (rq_IP state)) (\<lambda>pod.
          case pod of
            None \<Rightarrow> Ret []
          | Some pod \<Rightarrow>
              let search = (if zone = ''.''
                            then [pod_Namespace pod @ ''.svc.'', ''svc.'', ''.'']
                            else [pod_Namespace pod @ ''.svc.'' @ zone, ''svc.'' @ zone, zone]);
                  search = search @ k_autoPathSearch k;
                  search = search @ [''''] in
              Ret search))"

definition Error :: "go_err \<Rightarrow> string" where
  "Error e =
     (case e of
        errNoItems \<Rightarrow> ''no items found''
      | errNsNotExposed \<Rightarrow> ''namespace is not exposed''
      | errInvalidRequest \<Rightarrow> ''invalid query name''
      | OtherErr m \<Rightarrow> m)"

text \<open>The values set in the query's context, in order.\<close>

definition Metadata :: "dns_lib \<Rightarrow> Kubernetes \<Rightarrow> Request \<Rightarrow> (string \<times> string) list go" where
  "Metadata x k state =
     go_bind (podWithIP k (rq_IP state)) (\<lambda>pod.
       let ctx = (case pod of
                    None \<Rightarrow> []
                  | Some pod \<Rightarrow> [(''kubernetes/client-namespace'', pod_Namespace pod),
                                 (''kubernetes/client-pod-name'', pod_Name pod)]);
           zone = Matches x (k_Zones k) (rq_Name state) in
       if zone = '''' then Ret ctx
       else
         go_bind (parseRequest x (rq_Name state) zone) (\<lambda>(r, err).
           case err of
             Some e \<Rightarrow> Ret (ctx @ [(''kubernetes/parse-error'', Error e)])
           | None \<Rightarrow> Ret (ctx @ [(''kubernetes/port-name'', rr_port r),
                                 (''kubernetes/protocol'', rr_protocol r),
                                 (''kubernetes/endpoint'', rr_endpoint r),
                                 (''kubernetes/service'', rr_service r),
                                 (''kubernetes/namespace'', rr_namespace r),
                                 (''kubernetes/kind'', rr_podOrSvc r)])))"

definition Ready :: "Kubernetes \<Rightarrow> bool" where
  "Ready k = api_HasSynced (k_APIConn k)"

section \<open>The service backend\<close>

definition kubernetes_backend :: "dns_lib \<Rightarrow> plugin_lib \<Rightarrow> Kubernetes \<Rightarrow> ServiceBackend" where
  "kubernetes_backend x pl k =
     \<lparr>sb_Services = Services x k, sb_Reverse = Reverse x k, sb_Lookup = Lookup pl k,
      sb_Records = Records x k, sb_IsNameError = IsNameError, sb_Serial = Serial k, sb_MinTTL = MinTTL k\<rparr>"

section \<open>Correctness of reverse lookups\<close>

definition reverse_visible :: "Kubernetes \<Rightarrow> string \<Rightarrow> bool" where
  "reverse_visible k ns \<longleftrightarrow> k_Namespaces k = {||} \<or> namespaceExposed k ns"

lemma hidden_iff: "(fcard (k_Namespaces k) > 0 \<and> \<not> namespaceExposed k ns) \<longleftrightarrow> \<not> reverse_visible k ns"
  using fcard_0_eq [of "k_Namespaces k"] by (simp add: reverse_visible_def neq0_conv [symmetric] del: neq0_conv)

definition ptr_to_service :: "Kubernetes \<Rightarrow> string \<Rightarrow> Service \<Rightarrow> msg_Service" where
  "ptr_to_service k zone s =
     zero_msg_Service\<lparr>ms_Host := Join [svc_Name s, svc_Namespace s, kindSvc, zone] ''.'', ms_TTL := k_ttl k\<rparr>"

definition ptr_to_endpoint :: "Kubernetes \<Rightarrow> string \<Rightarrow> Endpoints \<Rightarrow> EndpointAddress \<Rightarrow> msg_Service" where
  "ptr_to_endpoint k zone ep a =
     zero_msg_Service\<lparr>ms_Host := Join [endpointHostname a (k_endpointNameMode k), ep_Name ep, ep_Namespace ep,
                                       kindSvc, zone] ''.'', ms_TTL := k_ttl k\<rparr>"

lemma reverse_services_loop_eq:
  "primaryZone k = Ret zone \<Longrightarrow>
   reverse_services_loop k ss =
     Ret (case filter (\<lambda>s. reverse_visible k (svc_Namespace s)) ss of
            [] \<Rightarrow> None | s # _ \<Rightarrow> Some (ptr_to_service k zone s))"
  by (induction ss) (auto simp: hidden_iff Let_def ptr_to_service_def)

lemma reverse_addresses_loop_eq:
  "primaryZone k = Ret zone \<Longrightarrow>
   reverse_addresses_loop k ip ep as svcs =
     Ret (svcs @ [ptr_to_endpoint k zone ep a. a \<leftarrow> as, ea_IP a = ip])"
  by (induction as arbitrary: svcs) (auto simp: Let_def ptr_to_endpoint_def)

lemma reverse_subsets_loop_eq:
  "primaryZone k = Ret zone \<Longrightarrow>
   reverse_subsets_loop k ip ep es svcs =
     Ret (svcs @ [ptr_to_endpoint k zone ep a. s \<leftarrow> es, a \<leftarrow> sub_Addresses s, ea_IP a = ip])"
  by (induction es arbitrary: svcs) (auto simp: reverse_addresses_loop_eq)

lemma reverse_endpoints_loop_eq:
  "primaryZone k = Ret zone \<Longrightarrow>
   reverse_endpoints_loop k ip eps svcs =
     Ret (svcs @ [ptr_to_endpoint k zone ep a. ep \<leftarrow> eps, reverse_visible k (ep_Namespace ep),
                    s \<leftarrow> ep_Subsets ep, a \<leftarrow> sub_Addresses s, ea_IP a = ip])"
  by (induction eps arbitrary: svcs) (auto simp: hidden_iff reverse_subsets_loop_eq)

context controller_contract
begin

lemma serviceRecordForIP_sources:
  assumes "k_APIConn k = api" "primaryZone k = Ret zone"
  shows "\<exists>ms. serviceRecordForIP k ip name = Ret ms \<and>
     (let vis = {s \<in> svcs. ip \<in> insert (svc_ClusterIP s) (set (svc_ExternalIPs s)) \<and>
                           reverse_visible k (svc_Namespace s)} in
      if vis \<noteq> {} then \<exists>s \<in> vis. ms = [ptr_to_service k zone s]
      else set ms = {ptr_to_endpoint k zone ep a | ep sub a.
                       ep \<in> eps \<and> ip \<in> set (ep_IndexIP ep) \<and> reverse_visible k (ep_Namespace ep) \<and>
                       sub \<in> set (ep_Subsets ep) \<and> a \<in> set (sub_Addresses sub) \<and> ea_IP a = ip})"
proof -
  obtain ss where ss: "api_SvcIndexReverse api ip = Ret ss"
      "set ss = {s \<in> svcs. ip \<in> insert (svc_ClusterIP s) (set (svc_ExternalIPs s))}"
    using by_ip by blast
  obtain es where es: "api_EpIndexReverse api ip = Ret es" "set es = {e \<in> eps. ip \<in> set (ep_IndexIP e)}"
    using ep_by_ip by blast
  let ?V = "\<lambda>s. reverse_visible k (svc_Namespace s)"
  show ?thesis
  proof (cases "filter ?V ss")
    case Nil
    let ?ms = "[ptr_to_endpoint k zone ep a. ep \<leftarrow> es, reverse_visible k (ep_Namespace ep),
                    s \<leftarrow> ep_Subsets ep, a \<leftarrow> sub_Addresses s, ea_IP a = ip]"
    have "serviceRecordForIP k ip name = Ret ?ms"
      using assms Nil ss(1) es(1)
      by (simp add: serviceRecordForIP_def reverse_services_loop_eq reverse_endpoints_loop_eq)
    moreover have "{s \<in> svcs. ip \<in> insert (svc_ClusterIP s) (set (svc_ExternalIPs s)) \<and> ?V s} = {}"
      using Nil ss(2) by (auto simp: filter_empty_conv)
    moreover have "set ?ms = {ptr_to_endpoint k zone ep a | ep sub a.
                       ep \<in> eps \<and> ip \<in> set (ep_IndexIP ep) \<and> reverse_visible k (ep_Namespace ep) \<and>
                       sub \<in> set (ep_Subsets ep) \<and> a \<in> set (sub_Addresses sub) \<and> ea_IP a = ip}"
      using es(2) by auto
    ultimately show ?thesis unfolding Let_def by (intro exI conjI) (assumption, simp only: if_False refl not_True_eq_False)
  next
    case (Cons s rest)
    then have "s \<in> {s \<in> svcs. ip \<in> insert (svc_ClusterIP s) (set (svc_ExternalIPs s)) \<and> ?V s}"
    proof -
      have "s \<in> set (filter ?V ss)" using Cons by simp
      then show ?thesis using ss(2) by simp
    qed
    moreover have "serviceRecordForIP k ip name = Ret [ptr_to_service k zone s]"
      using assms Cons ss(1) by (simp add: serviceRecordForIP_def reverse_services_loop_eq)
    ultimately show ?thesis unfolding Let_def by auto
  qed
qed

end

context lawful_control
begin

lemmas serviceRecordForIP_cached = serviceRecordForIP_sources

end

text \<open>
  C15: the reverse lookup of an address names one service that has the address, as its cluster
  address or among its external ones, when there is one the plugin may show; otherwise it names
  exactly the endpoints that have the address.  What may be shown is decided by the configured
  namespaces: without any, everything is shown.
\<close>

theorem serviceRecordForIP_correct:
  assumes "lawful_store svc_indexers (dc_svcLister c)"
    and "dc_epLister c = Some ix" and "lawful_store ep_indexers ix"
    and "k_APIConn k = dnsControl_api c" and "primaryZone k = Ret zone"
  shows "\<exists>ms. serviceRecordForIP k ip name = Ret ms \<and>
     (let vis = {s \<in> cached_services c. ip \<in> insert (svc_ClusterIP s) (set (svc_ExternalIPs s)) \<and>
                           reverse_visible k (svc_Namespace s)} in
      if vis \<noteq> {} then \<exists>s \<in> vis. ms = [ptr_to_service k zone s]
      else set ms = {ptr_to_endpoint k zone ep a | ep sub a.
                       ep \<in> cached_endpoints c \<and> ip \<in> set (ep_IndexIP ep) \<and>
                       reverse_visible k (ep_Namespace ep) \<and>
                       sub \<in> set (ep_Subsets ep) \<and> a \<in> set (sub_Addresses sub) \<and> ea_IP a = ip})"
proof -
  have "lawful_control c" using assms(1-3) by unfold_locales auto
  then show ?thesis by (rule lawful_control.serviceRecordForIP_cached [OF _ assms(4,5)])
qed

lemma example_primaryZone: "primaryZone example_k = Ret ''cluster.local.''"
  by (simp add: primaryZone_def example_k_def)

theorem serviceRecordForIP_correct_witness:
  "\<exists>m. serviceRecordForIP example_k ''1.2.3.4'' ''q'' = Ret [m] \<and>
       ms_Host m = ''svc1.testns.svc.cluster.local.''"
proof -
  have "k_APIConn example_k = dnsControl_api example_control" by (simp add: example_k_def)
  moreover have "{s \<in> {example_service}. ''1.2.3.4'' \<in> insert (svc_ClusterIP s) (set (svc_ExternalIPs s)) \<and>
      reverse_visible example_k (svc_Namespace s)} = {example_service}"
    by (auto simp: example_service_def reverse_visible_def example_k_def)
  moreover have "ms_Host (ptr_to_service example_k ''cluster.local.'' example_service) = ''svc1.testns.svc.cluster.local.''"
    by (simp add: ptr_to_service_def example_service_def)
  ultimately show ?thesis
    using serviceRecordForIP_correct [OF example_lawful _ example_primaryZone, of "''1.2.3.4''" "''q''"]
    unfolding example_cached by (simp add: Let_def)
qed

section \<open>Correctness of external lookups\<close>

definition ext_push :: "msg_Service list \<Rightarrow> msg_Service list \<times> int \<Rightarrow> msg_Service list \<times> int" where
  "ext_push L acc = (fst acc @ L, if L = [] then snd acc else RcodeSuccess)"

lemma ext_push_simps [simp]:
  "ext_push [] acc = acc" "ext_push L (ext_push K acc) = ext_push (K @ L) acc"
  by (simp_all add: ext_push_def)

lemma ext_push_single: "(fst acc @ [s], RcodeSuccess) = ext_push [s] acc"
  by (simp add: ext_push_def)

definition external_ip_answer :: "Kubernetes \<Rightarrow> string \<Rightarrow> Service \<Rightarrow> string \<Rightarrow> ServicePort \<Rightarrow> msg_Service" where
  "external_ip_answer k zonePath svc ip p =
     zero_msg_Service\<lparr>ms_Host := ip, ms_Port := sint (sp_Port p), ms_TTL := k_ttl k,
       ms_Key := Join [zonePath, svc_Namespace svc, svc_Name svc] ''/''\<rparr>"

lemma external_ports_loop_eq:
  "external_ports_loop k zp port protocol svc ip ps acc =
     ext_push [external_ip_answer k zp svc ip p. p \<leftarrow> ps, match port (sp_Name p) \<and> match protocol (sp_Protocol p)] acc"
  by (induction ps arbitrary: acc) (auto simp: Let_def external_ip_answer_def ext_push_single)

lemma external_ips_loop_eq:
  "external_ips_loop k zp port protocol svc ips acc =
     ext_push [external_ip_answer k zp svc ip p. ip \<leftarrow> ips,
                 p \<leftarrow> svc_Ports svc, match port (sp_Name p) \<and> match protocol (sp_Protocol p)] acc"
  by (induction ips arbitrary: acc) (auto simp: external_ports_loop_eq)

lemma external_services_loop_eq:
  "external_services_loop k zp namespace service port protocol svcs acc =
     ext_push [external_ip_answer k zp svc ip p. svc \<leftarrow> svcs, svc_Namespace svc = namespace \<and> svc_Name svc = service,
                 ip \<leftarrow> svc_ExternalIPs svc,
                 p \<leftarrow> svc_Ports svc, match port (sp_Name p) \<and> match protocol (sp_Protocol p)] acc"
proof (induction svcs arbitrary: acc)
  case (Cons svc svcs)
  then show ?case
    by (cases "svc_Namespace svc = namespace \<and> svc_Name svc = service") (simp_all add: external_ips_loop_eq, blast+)
qed simp

lemma strip_label: "l \<noteq> [] \<Longrightarrow> stripUnderscore l = Ret (strip1 l)"
  by (cases l) (simp_all add: stripUnderscore_def strip1_def)

text \<open>
  C16: a query for the external addresses of a service in an exposed namespace, with or without a
  port and a protocol, returns exactly one answer per external address and wanted port of that
  service; it is NXDOMAIN when there is none.
\<close>

theorem External_correct:
  assumes "lawful_store svc_indexers (dc_svcLister c)"
    and "dc_epLister c = Some ix" and "lawful_store ep_indexers ix"
    and "k_APIConn k = dnsControl_api c" and "namespaceExposed k namespace"
    and "SplitDomainName x (TrimZone x (rq_Name state) (rq_Zone state)) = pre @ [service, namespace]"
    and "pre = [] \<and> port = ''*'' \<and> protocol = ''*'' \<or>
         pre = [a, b] \<and> a \<noteq> '''' \<and> b \<noteq> '''' \<and> port = strip1 a \<and> protocol = strip1 b"
  shows "\<exists>ms. External x k state = Ret (ms, if ms = [] then RcodeNameError else RcodeSuccess) \<and>
     set ms = {external_ip_answer k (msg_Path x (rq_Zone state) coredns) svc ip p | svc ip p.
                 svc \<in> cached_services c \<and> svc_Index svc = ServiceKey service namespace \<and>
                 svc_Namespace svc = namespace \<and> svc_Name svc = service \<and>
                 ip \<in> set (svc_ExternalIPs svc) \<and> p \<in> set (svc_Ports svc) \<and>
                 match port (sp_Name p) \<and> match protocol (sp_Protocol p)}"
proof -
  obtain ss where ss: "SvcIndex c (ServiceKey service namespace) = Ret ss"
      "set ss = {s \<in> cached_services c. svc_Index s = ServiceKey service namespace}"
    using lawful_control.lookups_exact [of c "ServiceKey service namespace"] assms(1-3)
    by (auto simp: lawful_control_def)
  let ?zp = "msg_Path x (rq_Zone state) coredns"
  let ?ms = "[external_ip_answer k ?zp svc ip p. svc \<leftarrow> ss, svc_Namespace svc = namespace \<and> svc_Name svc = service,
                 ip \<leftarrow> svc_ExternalIPs svc,
                 p \<leftarrow> svc_Ports svc, match port (sp_Name p) \<and> match protocol (sp_Protocol p)]"
  from assms(7) have "External x k state = Ret (ext_push ?ms ([], RcodeNameError))"
  proof (elim disjE conjE)
    assume "pre = []" and pp: "port = ''*''" "protocol = ''*''"
    with assms(5,6) ss(1) show ?thesis unfolding pp
      by (simp add: External_def Let_def assms(4) dnsControl_api_def external_services_loop_eq)
  next
    assume "pre = [a, b]" "a \<noteq> ''''" "b \<noteq> ''''" and pp: "port = strip1 a" "protocol = strip1 b"
    with assms(5,6) ss(1) show ?thesis unfolding pp
      by (simp add: External_def Let_def assms(4) dnsControl_api_def external_services_loop_eq strip_label)
  qed
  moreover have "ext_push ?ms ([], RcodeNameError) = (?ms, if ?ms = [] then RcodeNameError else RcodeSuccess)"
    by (simp add: ext_push_def)
  moreover have "set ?ms = {external_ip_answer k ?zp svc ip p | svc ip p.
                 svc \<in> cached_services c \<and> svc_Index svc = ServiceKey service namespace \<and>
                 svc_Namespace svc = namespace \<and> svc_Name svc = service \<and>
                 ip \<in> set (svc_ExternalIPs svc) \<and> p \<in> set (svc_Ports svc) \<and>
                 match port (sp_Name p) \<and> match protocol (sp_Protocol p)}"
    unfolding set_concat set_map ss(2)[symmetric] using ss(2) by (auto split: if_splits)
  ultimately show ?thesis by auto
qed

theorem External_correct_witness:
  "\<exists>ms. External ex_lib example_k
         \<lparr>rq_Name = ''svc1.testns.example.com.'', rq_QName = '''', rq_QType = TypeA, rq_IP = '''',
          rq_Zone = ''example.com.''\<rparr> = Ret (ms, RcodeSuccess) \<and>
        set ms = {zero_msg_Service\<lparr>ms_Host := ''1.2.3.4'', ms_Port := 80, ms_TTL := 5,
                    ms_Key := ''/c/com/example/testns/svc1''\<rparr>}"
proof -
  let ?q = "\<lparr>rq_Name = ''svc1.testns.example.com.'', rq_QName = '''', rq_QType = TypeA, rq_IP = '''',
             rq_Zone = ''example.com.''\<rparr>"
  have split: "SplitDomainName ex_lib (TrimZone ex_lib (rq_Name ?q) (rq_Zone ?q)) = [] @ [''svc1'', ''testns'']"
    by (simp add: ex_lib_simps)
  have exposed: "namespaceExposed example_k ''testns''" by (simp add: example_exposed)
  have api: "k_APIConn example_k = dnsControl_api example_control" by (simp add: example_k_def)
  have one: "{external_ip_answer example_k zp svc ip p | svc ip p.
                 svc \<in> {example_service} \<and> svc_Index svc = ServiceKey ''svc1'' ''testns'' \<and>
                 svc_Namespace svc = ''testns'' \<and> svc_Name svc = ''svc1'' \<and>
                 ip \<in> set (svc_ExternalIPs svc) \<and> p \<in> set (svc_Ports svc) \<and>
                 match ''*'' (sp_Name p) \<and> match ''*'' (sp_Protocol p)} =
      {external_ip_answer example_k zp example_service ''1.2.3.4'' \<lparr>sp_Name = ''http'', sp_Protocol = ''tcp'', sp_Port = 80\<rparr>}" for zp
    by (auto simp: example_service_def ServiceKey_def match_def wildcard_def)
  have "external_ip_answer example_k (msg_Path ex_lib ''example.com.'' coredns) example_service ''1.2.3.4''
           \<lparr>sp_Name = ''http'', sp_Protocol = ''tcp'', sp_Port = 80\<rparr> =
        zero_msg_Service\<lparr>ms_Host := ''1.2.3.4'', ms_Port := 80, ms_TTL := 5,
                    ms_Key := ''/c/com/example/testns/svc1''\<rparr>"
    by (simp add: external_ip_answer_def example_k_def example_service_def ex_lib_simps)
  then show ?thesis
    using External_correct [OF example_lawful api exposed split, of "''*''" "''*''" a b] unfolding example_cached one
    by (auto split: if_splits)
qed

section \<open>What the hooks know of the client\<close>

definition search_path :: "Kubernetes \<Rightarrow> string \<Rightarrow> Pod option \<Rightarrow> string list" where
  "search_path k zone pod =
     (case pod of
        None \<Rightarrow> []
      | Some p \<Rightarrow>
          (let suffix = (if zone = ''.'' then '''' else zone) in
           [pod_Namespace p @ ''.svc.'' @ suffix, ''svc.'' @ suffix, zone] @ k_autoPathSearch k @ ['''']))"

definition client_data :: "Pod option \<Rightarrow> (string \<times> string) list" where
  "client_data pod =
     (case pod of
        None \<Rightarrow> []
      | Some p \<Rightarrow> [(''kubernetes/client-namespace'', pod_Namespace p), (''kubernetes/client-pod-name'', pod_Name p)])"

definition request_data :: "recordRequest \<Rightarrow> (string \<times> string) list" where
  "request_data r =
     [(''kubernetes/port-name'', rr_port r), (''kubernetes/protocol'', rr_protocol r),
      (''kubernetes/endpoint'', rr_endpoint r), (''kubernetes/service'', rr_service r),
      (''kubernetes/namespace'', rr_namespace r), (''kubernetes/kind'', rr_podOrSvc r)]"

lemma podWithIP_cached:
  assumes "dc_podLister c = Some ix" "lawful_store pod_indexers ix"
    and "k_APIConn k = dnsControl_api c" "k_podMode k = podModeVerified"
  shows "\<exists>pod. podWithIP k ip = Ret pod \<and>
     (let pods = {p. ObjPod p \<in> set (ix_List ix) \<and> pod_PodIP p = ip} in
      if pods = {} then pod = None else pod \<in> Some ` pods)"
proof -
  obtain ps where ps: "PodIndex c ip = Ret ps" "set ps = {p. ObjPod p \<in> set (ix_List ix) \<and> pod_PodIP p = ip}"
    using PodIndex_exact [OF assms(1,2), of ip] by (auto simp: cached_pods_def assms(1))
  then have "podWithIP k ip = Ret (if ps = [] then None else Some (ps ! 0))"
    using assms(3,4) by (simp add: podWithIP_def dnsControl_api_def)
  then show ?thesis unfolding ps(2) [symmetric] by (auto simp: Let_def)
qed

text \<open>
  C22: with verified pods the hooks know the client.  Both identify the same cached pod with the
  sender's address, if there is one.  The search path of a query inside a zone starts in the
  namespace of that pod, goes on through the zone and the host's own search path, and ends with the
  name as it is; without a pod there is no search path.  The metadata name the pod and the parts of
  the request that the name spells.
\<close>

theorem client_hooks:
  assumes "dc_podLister c = Some ix" "lawful_store pod_indexers ix"
    and "k_APIConn k = dnsControl_api c" "k_podMode k = podModeVerified" "opt_initPodCache (k_opts k)"
    and "split_law x" "trim_law x zone" "valid_request r"
    and "rq_Name state = Join (request_labels r) ''.'' @ ''.'' @ zone"
    and "Matches x (k_Zones k) (rq_Name state) = zone" "zone \<noteq> ''''"
  shows "\<exists>pod. (let pods = {p. ObjPod p \<in> set (ix_List ix) \<and> pod_PodIP p = rq_IP state} in
                if pods = {} then pod = None else pod \<in> Some ` pods) \<and>
     AutoPath x k state = Ret (search_path k zone pod) \<and>
     Metadata x k state = Ret (client_data pod @ request_data r)"
proof -
  obtain pod where pod: "podWithIP k (rq_IP state) = Ret pod"
      "let pods = {p. ObjPod p \<in> set (ix_List ix) \<and> pod_PodIP p = rq_IP state} in
       if pods = {} then pod = None else pod \<in> Some ` pods"
    using podWithIP_cached [OF assms(1-4)] by blast
  have "AutoPath x k state = Ret (search_path k zone pod)"
    using assms(5,10,11) pod(1) by (simp add: AutoPath_def search_path_def Let_def split: option.split)
  moreover have "parseRequest x (rq_Name state) zone = Ret (r, None)"
    unfolding assms(9) by (rule parseRequest_request [OF assms(6-8)])
  then have "Metadata x k state = Ret (client_data pod @ request_data r)"
    using assms(10,11) pod(1) by (simp add: Metadata_def client_data_def request_data_def Let_def split: option.split)
  ultimately show ?thesis using pod(2) by blast
qed

theorem client_hooks_witness:
  "AutoPath ex_lib (pod_k pod_opts podModeVerified)
     \<lparr>rq_Name = ''svc1.testns.svc.cluster.local.'', rq_QName = ''svc1.testns.svc.cluster.local.'', rq_QType = TypeA,
      rq_IP = ''10.1.2.3'', rq_Zone = ''''\<rparr> =
   Ret [''testns.svc.cluster.local.'', ''svc.cluster.local.'', ''cluster.local.'', '''']"
proof -
  let ?k = "pod_k pod_opts podModeVerified" and ?c = "pod_control pod_opts"
  let ?p = "\<lparr>pod_Version = ''1'', pod_PodIP = ''10.1.2.3'', pod_Name = ''p'', pod_Namespace = ''testns''\<rparr>"
  let ?q = "\<lparr>rq_Name = ''svc1.testns.svc.cluster.local.'', rq_QName = ''svc1.testns.svc.cluster.local.'', rq_QType = TypeA,
      rq_IP = ''10.1.2.3'', rq_Zone = ''''\<rparr>"
  have st: "dc_podLister ?c = Some (store_of pod_indexers [ObjPod ?p])"
    "lawful_store pod_indexers (store_of pod_indexers [ObjPod ?p])"
    by (simp_all add: pod_control_def pod_opts_def newdnsController_def stores_def store_of_lawful pod_indexers_def)
  have k: "k_APIConn ?k = dnsControl_api ?c" "k_podMode ?k = podModeVerified" "opt_initPodCache (k_opts ?k)"
    by (simp_all add: pod_k_def pod_opts_def)
  have req: "valid_request svc1_request"
    "rq_Name ?q = Join (request_labels svc1_request) ''.'' @ ''.'' @ ''cluster.local.''"
    "Matches ex_lib (k_Zones ?k) (rq_Name ?q) = ''cluster.local.''" "''cluster.local.'' \<noteq> ''''"
    by (simp_all add: valid_request_def request_labels_def svc1_request_def star_request_def zero_recordRequest_def
        plain_label_def ex_lib_def ex_Matches_def pod_k_def example_k_def)
  have pods: "{p. ObjPod p \<in> set (ix_List (store_of pod_indexers [ObjPod ?p])) \<and> pod_PodIP p = rq_IP ?q} = {?p}"
    by (auto simp: store_of_def)
  show ?thesis
    using client_hooks [OF st k ex_split_law ex_trim_cluster req, unfolded pods]
    by (auto simp: search_path_def Let_def pod_k_def example_k_def)
qed
section \<open>The hooks do not crash\<close>

text \<open>The records that \<open>nsAddrs\<close> builds pass the type assertions of its callers.\<close>

lemma ns_record_asserts:
  "hdr_Rrtype (rr_hdr (ns_record n ip)) = TypeA \<Longrightarrow> rr_A_String (ns_record n ip) = Ret (IP_String ip)"
  "hdr_Rrtype (rr_hdr (ns_record n ip)) = TypeAAAA \<Longrightarrow> rr_AAAA_String (ns_record n ip) = Ret (IP_String ip)"
  by (auto simp: ns_record_def rr_A_String_def rr_AAAA_String_def split: if_splits)

lemma Services_loops_return:
  "set nss \<subseteq> range (\<lambda>(n, ip). ns_record n ip) \<Longrightarrow> \<not> panics (Services_NS_loop x k nss svcs)"
  "set nss \<subseteq> range (\<lambda>(n, ip). ns_record n ip) \<Longrightarrow> \<not> panics (Services_default_loop x k state nss svcs)"
  by (induction nss arbitrary: svcs) (auto simp: ns_record_asserts)

context total_controller
begin

lemma ns_endpoints_loop_returns:
  assumes "k_APIConn k = api" "ns_even acc"
  shows "\<exists>acc'. ns_endpoints_loop k external zone es acc = Ret acc' \<and> ns_even acc'"
  using assms(2)
proof (induction es arbitrary: acc)
  case (Cons ep es)
  obtain ss where "api_SvcIndex (k_APIConn k) (ServiceKey (ep_Name ep) (ep_Namespace ep)) = Ret ss"
    using SvcIndex_returns unfolding assms(1) by blast
  then show ?case using Cons ns_services_loop_pairs [OF Cons.prems] by simp
qed simp

lemma ns_localIPs_loop_returns:
  assumes "k_APIConn k = api" "ns_even acc"
  shows "\<exists>acc'. ns_localIPs_loop k external zone ips acc = Ret acc' \<and> ns_even acc'"
  using assms(2)
proof (induction ips arbitrary: acc)
  case (Cons ip ips)
  obtain es where "api_EpIndexReverse (k_APIConn k) (IP_String ip) = Ret es"
    using EpIndexReverse_returns unfolding assms(1) by blast
  moreover obtain acc' where "ns_endpoints_loop k external zone es acc = Ret acc'" "ns_even acc'"
    using ns_endpoints_loop_returns [OF assms(1) Cons.prems] by blast
  ultimately show ?case using Cons.IH by simp
qed simp

lemma nsAddrs_returns:
  assumes "k_APIConn k = api"
  shows "\<exists>rrs. nsAddrs k external zone = Ret rrs \<and> set rrs \<subseteq> range (\<lambda>(n, ip). ns_record n ip)"
proof -
  obtain names ips where "ns_localIPs_loop k external zone (k_localIPs k) ([], []) = Ret (names, ips)"
      "length names = length ips"
    using ns_localIPs_loop_returns [OF assms, of "([], [])" external zone "k_localIPs k"] by (auto simp: ns_even_def)
  then show ?thesis by (cases "ips = []") (auto simp: nsAddrs_def ns_records_loop_eq)
qed

lemma Services_returns:
  assumes "split_law x" "trim_cuts x" "valid_name (rq_Name state)"
    and "k_APIConn k = api" "pod_cache = (k_podMode k = podModeVerified)"
    and "k_podMode k \<in> {podModeDisabled, podModeInsecure, podModeVerified}"
  shows "\<not> panics (Services x k state exact)"
proof -
  obtain rrs where "nsAddrs k False (rq_Zone state) = Ret rrs" "set rrs \<subseteq> range (\<lambda>(n, ip). ns_record n ip)"
    using nsAddrs_returns [OF assms(4)] by blast
  moreover from this(2) obtain s1 s2 where
      "Services_NS_loop x k rrs [] = Ret s1" "Services_default_loop x k state rrs [] = Ret s2"
    using Services_loops_return by (meson not_panics_iff)
  moreover obtain s e where "Records x k state False = Ret (s, e)"
    using Records_returns [OF assms] by (metis not_panics_iff surj_pair)
  ultimately show ?thesis by (simp add: Services_def Let_def)
qed

lemma serviceRecordForIP_returns:
  assumes "k_APIConn k = api" "primaryZone k = Ret zone"
  shows "\<not> panics (serviceRecordForIP k ip name)"
proof -
  obtain ss es where "api_SvcIndexReverse (k_APIConn k) ip = Ret ss" "api_EpIndexReverse (k_APIConn k) ip = Ret es"
    using SvcIndexReverse_returns EpIndexReverse_returns unfolding assms(1) by blast
  then show ?thesis
    by (simp add: serviceRecordForIP_def reverse_services_loop_eq [OF assms(2)] reverse_endpoints_loop_eq [OF assms(2)]
        split: option.split)
qed

lemma Reverse_returns:
  assumes "split_law x" "trim_cuts x" "valid_name (rq_Name state)"
    and "k_APIConn k = api" "pod_cache = (k_podMode k = podModeVerified)"
    and "k_podMode k \<in> {podModeDisabled, podModeInsecure, podModeVerified}" "primaryZone k = Ret zone"
  shows "\<not> panics (Reverse x k state exact)"
proof -
  obtain s e where "Records x k state exact = Ret (s, e)"
    using Records_returns [OF assms(1-6)] by (metis not_panics_iff surj_pair)
  moreover obtain rs where "serviceRecordForIP k (ExtractAddressFromReverse x (rq_Name state)) (rq_Name state) = Ret rs"
    using serviceRecordForIP_returns [OF assms(4,7)] by (meson not_panics_iff)
  ultimately show ?thesis by (simp add: Reverse_def Let_def)
qed

lemma transfer_loop_returns:
  assumes "k_APIConn k = api"
  shows "\<not> panics (transfer_loop x l k zp svcs c)"
proof (induction svcs arbitrary: c)
  case (Cons svc svcs)
  obtain es where "api_EpIndex (k_APIConn k) (svc_Name svc @ ''.'' @ svc_Namespace svc) = Ret es"
    using EpIndex_returns unfolding assms by blast
  then show ?case using Cons by (simp add: Let_def split_beta)
qed simp

lemma Transfer_returns:
  assumes "k_APIConn k = api" "\<not> panics (SOA (rq_Zone state) state)"
  shows "\<not> panics (Transfer x l SOA k state)"
proof -
  obtain ss where "api_ServiceList (k_APIConn k) = Ret ss" using ServiceList_returns unfolding assms(1) by blast
  then have "\<not> panics (transfer x l k (rq_Zone state))"
    using transfer_loop_returns [OF assms(1)] by (simp add: transfer_def)
  then obtain rs where "transfer x l k (rq_Zone state) = Ret rs" unfolding not_panics_iff by blast
  then show ?thesis using assms(2) by (auto simp: Transfer_def Let_def not_panics_iff)
qed

lemma podWithIP_returns:
  assumes "k_APIConn k = api" "pod_cache = (k_podMode k = podModeVerified)"
  shows "\<not> panics (podWithIP k ip)"
proof (cases "k_podMode k = podModeVerified")
  case True
  then obtain ps where "api_PodIndex (k_APIConn k) ip = Ret ps" using PodIndex_returns assms by blast
  then show ?thesis by (simp add: podWithIP_def)
qed (simp add: podWithIP_def)

lemma External_returns:
  assumes "split_law x" "trim_cuts x" "valid_name (rq_Name state)" "k_APIConn k = api"
  shows "\<not> panics (External x k state)"
proof -
  let ?segs = "SplitDomainName x (TrimZone x (rq_Name state) (rq_Zone state))"
  have "'''' \<notin> set ?segs" by (rule split_trimmed [OF assms(1-3)])
  then have strip: "stripUnderscore (?segs ! i) = Ret (strip1 (?segs ! i))" if "i < length ?segs" for i
    using nth_mem [OF that] by (metis strip_label)
  obtain g where "\<And>i. api_SvcIndex (k_APIConn k) i = Ret (g i)"
    using SvcIndex_returns unfolding assms(4) by metis
  then show ?thesis by (auto simp: External_def Let_def strip)
qed

end

text \<open>
  What parsing the configuration and \<open>InitKubeCache\<close> establish: the controller was made from the
  options, pods are cached exactly when they are verified, and the primary zone exists.
\<close>

definition initialised :: "informers \<Rightarrow> Kubernetes \<Rightarrow> bool" where
  "initialised infs k \<longleftrightarrow>
     k_APIConn k = dnsControl_api (newdnsController infs (k_opts k)) \<and>
     opt_initPodCache (k_opts k) = (k_podMode k = podModeVerified) \<and>
     k_podMode k \<in> {podModeDisabled, podModeInsecure, podModeVerified} \<and>
     0 \<le> k_primaryZoneIndex k \<and> k_primaryZoneIndex k < int (length (k_Zones k))"

lemma initialised_total:
  assumes "initialised infs k" "opt_initEndpointsCache (k_opts k)"
  shows "total_controller (k_APIConn k) (k_podMode k = podModeVerified)"
  using newdnsController_total [OF assms(2), of infs] assms(1) by (simp add: initialised_def)

lemma initialised_primaryZone: "initialised infs k \<Longrightarrow> \<exists>zone. primaryZone k = Ret zone"
  by (simp add: initialised_def primaryZone_def)

text \<open>
  C21: in an initialised plugin that caches endpoints, none of the interfaces that other plugins
  call ever crashes, whatever syntactically valid name the query has (which is what unpacking a
  message gives) and whatever the caches contain: not the service backend, nor the external
  addresses, the search path and the metadata.
\<close>

theorem hooks_total:
  assumes "split_law x" "trim_cuts x" "valid_name (rq_Name state)"
    and "initialised infs k" "opt_initEndpointsCache (k_opts k)"
  shows "\<not> panics (Services x k state exact) \<and> \<not> panics (Reverse x k state exact) \<and>
         \<not> panics (Records x k state exact) \<and> \<not> panics (External x k state) \<and>
         \<not> panics (ExternalAddress k state) \<and> \<not> panics (AutoPath x k state) \<and>
         \<not> panics (Metadata x k state)"
proof -
  note total = initialised_total [OF assms(4,5)]
  have mode: "k_podMode k \<in> {podModeDisabled, podModeInsecure, podModeVerified}"
    using assms(4) by (simp add: initialised_def)
  obtain zone where zone: "primaryZone k = Ret zone" using initialised_primaryZone [OF assms(4)] by blast
  have "\<not> panics (Services x k state exact)" "\<not> panics (Reverse x k state exact)"
      "\<not> panics (Records x k state exact)" "\<not> panics (External x k state)"
    using total_controller.Services_returns [OF total assms(1-3) refl refl mode]
      total_controller.Reverse_returns [OF total assms(1-3) refl refl mode zone]
      total_controller.Records_returns [OF total assms(1-3) refl refl mode]
      total_controller.External_returns [OF total assms(1-3) refl] by blast+
  moreover have "\<not> panics (ExternalAddress k state)"
    using total_controller.nsAddrs_returns [OF total refl] by (metis ExternalAddress_def not_panics_iff)
  moreover obtain pod where "podWithIP k (rq_IP state) = Ret pod"
    using total_controller.podWithIP_returns [OF total refl refl] unfolding not_panics_iff by blast
  then have "\<not> panics (AutoPath x k state)" "\<not> panics (Metadata x k state)"
    using parseRequest_total [OF assms(1-3), of "Matches x (k_Zones k) (rq_Name state)"]
    by (auto simp: AutoPath_def Metadata_def Let_def not_panics_iff split: option.split)
  ultimately show ?thesis by blast
qed

lemma example_initialised:
  "initialised (stores [ObjOther ''x'', ObjService example_service] [] [] [ObjNamespace ''testns'']) example_k"
  by (simp add: initialised_def example_k_def example_control_def)

theorem hooks_total_witness:
  "\<not> panics (Services ex_lib example_k bad_query False) \<and> \<not> panics (Metadata ex_lib example_k bad_query)"
proof -
  have "opt_initEndpointsCache (k_opts example_k)" by (simp add: example_k_def)
  from hooks_total [OF ex_split_law ex_trim_cuts bad_query_valid example_initialised this, of False]
  show ?thesis by blast
qed

end
