(* ===== verification/Handler.thy ===== *)
theory Handler
  imports Plugin Grpc
begin

text \<open>
  \<open>src/handler.go\<close>: the entry point for every query.  A query reads and may refresh the registry of
  pods under chaos, looks up records, and either forges an answer or answers like the plugin this
  one was derived from.

  The reply of a query lists all messages written to the client, in order, including those of a
  zone transfer.
\<close>

section \<open>Operations\<close>

definition Name :: string where
  "Name = ''k8s_dns_chaos''"

text \<open>\<open>s[n:]\<close> for a string of length \<open>len(s)\<close> and \<open>n = len(s) - m\<close>.\<close>

definition last_bytes :: "string \<Rightarrow> nat \<Rightarrow> string go" where
  "last_bytes s m =
     (if int (length s) - int m < 0 then Panic SliceOutOfRange
      else Ret (drop (nat (int (length s) - int m)) s))"

text \<open>The messages written so far, the records, the additional records, the zone and the error.\<close>

type_synonym lookup_result = "(dns_Msg list \<times> RR list \<times> RR list \<times> string \<times> go_err option) go"

definition fake_lookup :: "dns_lib \<Rightarrow> plugin_lib \<Rightarrow> Kubernetes \<Rightarrow> string \<Rightarrow> Request \<Rightarrow> lookup_result" where
  "fake_lookup x pl k zone state =
     (let fake = NewWithQuestion pl state (rq_QName state) TypeA;
          fake = fake\<lparr>rq_Zone := rq_Zone state\<rparr> in
      go_bind (plugin_A pl (kubernetes_backend x pl k) zone fake) (\<lambda>(_, err). Ret ([], [], [], zone, err)))"

definition getRecords ::
  "dns_lib \<Rightarrow> plugin_lib \<Rightarrow> xfr_lib \<Rightarrow> Kubernetes \<Rightarrow> Request \<Rightarrow> lookup_result" where
  "getRecords x pl l k state =
     (let qname = rq_QName state;
          zone = Matches x (k_Zones k) qname in
      go_bind (last_bytes qname (length zone)) (\<lambda>zone.
        let state = state\<lparr>rq_Zone := zone\<rparr>;
            b = kubernetes_backend x pl k;
            only_records = (\<lambda>res. go_bind res (\<lambda>(records, err). Ret ([], records, [], zone, err)));
            with_extra = (\<lambda>res. go_bind res (\<lambda>(records, extra, err). Ret ([], records, extra, zone, err))) in
        if rq_QType state = TypeAXFR \<or> rq_QType state = TypeIXFR then
          go_bind (Transfer x l (plugin_SOA pl b) k state) (\<lambda>(_, ch).
            Ret (case ch of None \<Rightarrow> [] | Some es \<Rightarrow> tr_Out l state es, [], [], zone, None))
        else if rq_QType state = TypeA then only_records (plugin_A pl b zone state)
        else if rq_QType state = TypeAAAA then only_records (plugin_AAAA pl b zone state)
        else if rq_QType state = TypeTXT then only_records (plugin_TXT pl b zone state)
        else if rq_QType state = TypeCNAME then only_records (plugin_CNAME pl b zone state)
        else if rq_QType state = TypePTR then only_records (plugin_PTR pl b zone state)
        else if rq_QType state = TypeMX then with_extra (plugin_MX pl b zone state)
        else if rq_QType state = TypeSRV then with_extra (plugin_SRV pl b zone state)
        else if rq_QType state = TypeSOA then only_records (plugin_SOA pl b zone state)
        else if rq_QType state = TypeNS then
          if rq_Name state = zone then with_extra (plugin_NS pl b zone state)
          else fake_lookup x pl k zone state
        else fake_lookup x pl k zone state))"

text \<open>What follows when the query is not forged.\<close>

definition reply_records ::
  "dns_lib \<Rightarrow> plugin_lib \<Rightarrow> Kubernetes \<Rightarrow> Request \<Rightarrow> RR list \<Rightarrow> RR list \<Rightarrow> string \<Rightarrow> go_err option \<Rightarrow> reply go" where
  "reply_records x pl k state records extra zone err =
     (if IsNameError err then
        if length zone = 0 then NextOrFailure pl Name state
        else if Fall_Through pl (rq_Name state) then NextOrFailure pl Name state
        else if \<not> api_HasSynced (k_APIConn k)
        then BackendError pl (kubernetes_backend x pl k) zone RcodeServerFailure state
        else BackendError pl (kubernetes_backend x pl k) zone RcodeNameError state
      else if err \<noteq> None then Ret \<lparr>rp_Rcode = RcodeServerFailure, rp_Err = err, rp_Written = []\<rparr>
      else if length records = 0 then BackendError pl (kubernetes_backend x pl k) zone RcodeSuccess state
      else
        let m = SetReply pl state;
            m = m\<lparr>m_Authoritative := True\<rparr>;
            m = m\<lparr>m_Answer := m_Answer m @ records\<rparr>;
            m = m\<lparr>m_Extra := m_Extra m @ extra\<rparr>
        in Ret \<lparr>rp_Rcode = RcodeSuccess, rp_Err = None, rp_Written = [m]\<rparr>)"

definition after_writing :: "dns_Msg list \<Rightarrow> reply \<Rightarrow> reply" where
  "after_writing ws r = r\<lparr>rp_Written := ws @ rp_Written r\<rparr>"

text \<open>
  What a query sees of the outside: the API client, the clock at the two moments it is read, and
  the random draws.
\<close>

record query_env =
  qe_client :: pod_client
  qe_now :: int
  qe_now' :: int
  qe_draws :: "nat \<Rightarrow> nat"

text \<open>
  The request is built from the writer and the message, so its zone is empty; only the copy that
  \<open>getRecords\<close> works on has one.
\<close>

definition ServeDNS ::
  "dns_lib \<Rightarrow> plugin_lib \<Rightarrow> xfr_lib \<Rightarrow> 'sel trie_lib \<Rightarrow> query_env \<Rightarrow> Kubernetes \<Rightarrow> Request \<Rightarrow>
   'sel registry \<Rightarrow> 'sel registry \<times> reply go" where
  "ServeDNS x pl l trie env k r reg =
     (let state = r\<lparr>rq_Zone := ''''\<rparr>;
          sourceIP = rq_IP state;
          (reg, found) = getChaosPod (qe_client env) (qe_now env) (qe_now' env) sourceIP reg in
      (reg,
       go_bind found (\<lambda>(chaosPod, _).
       go_bind (getRecords x pl l k state) (\<lambda>(written, records, extra, zone, err).
         let podInfo = (case chaosPod of None \<Rightarrow> None | Some a \<Rightarrow> fmlookup (pod_heap reg) a) in
         go_bind (needChaos trie podInfo (rq_QName state)) (\<lambda>chaos.
         go_bind
           (if chaos then
              (case podInfo of
                 None \<Rightarrow> Panic NilDereference
               | Some p \<Rightarrow> Ret (chaosDNS pl (qe_draws env) state p))
            else reply_records x pl k state records extra zone err)
           (\<lambda>reply. Ret (after_writing written reply)))))))"

section \<open>The zone of a query\<close>

lemma last_bytes_suffix: "m \<le> length s \<Longrightarrow> last_bytes s m = Ret (drop (length s - m) s)"
  by (simp add: last_bytes_def nat_diff_distrib')

lemma matches_law_length: "matches_law x \<Longrightarrow> length (Matches x zs q) \<le> length q"
  by (metis le0 list.size(3) matches_law_def)

definition query_zone :: "dns_lib \<Rightarrow> Kubernetes \<Rightarrow> string \<Rightarrow> string" where
  "query_zone x k qname = drop (length qname - length (Matches x (k_Zones k) qname)) qname"

lemma query_zone_slice:
  "matches_law x \<Longrightarrow> last_bytes qname (length (Matches x (k_Zones k) qname)) = Ret (query_zone x k qname)"
  by (simp add: query_zone_def last_bytes_suffix matches_law_length)

lemma query_zone_length:
  "matches_law x \<Longrightarrow> length (query_zone x k qname) = length (Matches x (k_Zones k) qname)"
  using matches_law_length [of x "k_Zones k" qname] by (simp add: query_zone_def)

section \<open>Who is answered how\<close>

text \<open>
  The abstract view of the registry for a query: the entry its source address leads to, whether the
  API server confirms an overdue entry, and whether the entry selects the queried name.
\<close>

definition registered :: "'sel registry \<Rightarrow> string \<Rightarrow> 'sel PodInfo option" where
  "registered reg ip =
     (case fmlookup (ipPodMap reg) ip of None \<Rightarrow> None | Some a \<Rightarrow> fmlookup (pod_heap reg) a)"

definition confirmed :: "query_env \<Rightarrow> 'sel PodInfo \<Rightarrow> bool" where
  "confirmed env p \<longleftrightarrow>
     \<not> IsOverdue (qe_now env) p \<or> snd (getPodFromCluster (qe_client env) (pi_Namespace p) (pi_Name p)) = None"

definition selects :: "'sel trie_lib \<Rightarrow> 'sel PodInfo \<Rightarrow> string \<Rightarrow> bool" where
  "selects trie p name \<longleftrightarrow>
     pi_Scope p = ScopeAll \<or>
     (\<exists>sel rules. pi_Selector p = Some sel \<and> trie_Match trie sel name '''' = IBool True # rules)"

text \<open>An entry whose selector can be asked.\<close>

definition armed :: "'sel PodInfo \<Rightarrow> bool" where
  "armed p \<longleftrightarrow> pi_Scope p = ScopeAll \<or> pi_Selector p \<noteq> None"

definition pod_interface :: "pod_client \<Rightarrow> bool" where
  "pod_interface client \<longleftrightarrow> (\<forall>ns n. getPodFromCluster client ns n \<noteq> (None, None))"

text \<open>What the plugin answers when chaos plays no part.\<close>

definition plain_reply ::
  "dns_lib \<Rightarrow> plugin_lib \<Rightarrow> xfr_lib \<Rightarrow> Kubernetes \<Rightarrow> Request \<Rightarrow> reply go" where
  "plain_reply x pl l k r =
     (let state = r\<lparr>rq_Zone := ''''\<rparr> in
      go_bind (getRecords x pl l k state) (\<lambda>(written, records, extra, zone, err).
      go_bind (reply_records x pl k state records extra zone err) (\<lambda>reply. Ret (after_writing written reply))))"

definition forged_reply ::
  "dns_lib \<Rightarrow> plugin_lib \<Rightarrow> xfr_lib \<Rightarrow> (nat \<Rightarrow> nat) \<Rightarrow> Kubernetes \<Rightarrow> Request \<Rightarrow> 'sel PodInfo \<Rightarrow> reply go" where
  "forged_reply x pl l draws k r p =
     (let state = r\<lparr>rq_Zone := ''''\<rparr> in
      go_bind (getRecords x pl l k state) (\<lambda>(written, _, _, _, _).
        Ret (after_writing written (chaosDNS pl draws state p))))"

lemma needChaos_armed: "armed p \<Longrightarrow> needChaos trie (Some p) name = Ret (selects trie p name)"
  by (auto simp: needChaos_def armed_def selects_def Let_def split: option.splits list.splits iface.splits)

lemma needChaos_refreshed:
  "needChaos trie (Some (p\<lparr>pi_IP := ip, pi_LastUpdateTime := t\<rparr>)) name = needChaos trie (Some p) name"
  "chaosDNS pl draws state (p\<lparr>pi_IP := ip, pi_LastUpdateTime := t\<rparr>) = chaosDNS pl draws state p"
  by (simp_all add: needChaos_def chaosDNS_def)

text \<open>
  The entry that a query finds is the registered one, but for its address and its age.  When the
  API server is asked and gives neither a pod nor an error, the lookup crashes.
\<close>

definition no_pod :: "query_env \<Rightarrow> 'sel PodInfo \<Rightarrow> bool" where
  "no_pod env p \<longleftrightarrow>
     IsOverdue (qe_now env) p \<and>
     getPodFromCluster (qe_client env) (pi_Namespace p) (pi_Name p) = (None, None)"

lemma pod_interface_no_pod: "pod_interface (qe_client env) \<Longrightarrow> \<not> no_pod env p"
  by (simp add: pod_interface_def no_pod_def)

lemma getChaosPod_registered:
  assumes "registry_wf reg"
  shows "let res = getChaosPod (qe_client env) (qe_now env) (qe_now' env) ip reg in
         case registered reg ip of
           None \<Rightarrow> res = (reg, Ret (None, None))
         | Some p \<Rightarrow>
             if no_pod env p then res = (reg, Panic NilDereference)
             else if confirmed env p
             then \<exists>reg' a ip' t. res = (reg', Ret (Some a, None)) \<and>
                    fmlookup (pod_heap reg') a = Some (p\<lparr>pi_IP := ip', pi_LastUpdateTime := t\<rparr>)
             else \<exists>err. res = (reg, Ret (None, Some err))"
proof (cases "fmlookup (ipPodMap reg) ip")
  case None
  then show ?thesis by (simp add: registered_def getChaosPod_def)
next
  case (Some a)
  then obtain p where p: "fmlookup (pod_heap reg) a = Some p" using registry_wf_ipD [OF assms(1)] by blast
  have same: "p = p\<lparr>pi_IP := pi_IP p, pi_LastUpdateTime := pi_LastUpdateTime p\<rparr>" by simp
  obtain v e where pod: "getPodFromCluster (qe_client env) (pi_Namespace p) (pi_Name p) = (v, e)"
    by (metis surj_pair)
  with Some p show ?thesis
    by (auto simp: registered_def getChaosPod_def no_pod_def confirmed_def Let_def split: option.splits)
      (use same in metis)+
qed

lemma needChaos_unarmed: "\<not> armed p \<Longrightarrow> needChaos trie (Some p) name = Panic NilDereference"
  by (simp add: needChaos_def armed_def)

lemma ServeDNS_general:
  assumes "registry_wf reg"
  shows "snd (ServeDNS x pl l trie env k r reg) =
     (case registered reg (rq_IP r) of
        None \<Rightarrow> plain_reply x pl l k r
      | Some p \<Rightarrow>
          if no_pod env p then Panic NilDereference
          else if \<not> confirmed env p then plain_reply x pl l k r
          else if \<not> armed p
          then go_bind (getRecords x pl l k (r\<lparr>rq_Zone := ''''\<rparr>)) (\<lambda>_. Panic NilDereference)
          else if selects trie p (rq_QName r) then forged_reply x pl l (qe_draws env) k r p
          else plain_reply x pl l k r)"
proof (cases "registered reg (rq_IP r)")
  case None
  then have "getChaosPod (qe_client env) (qe_now env) (qe_now' env) (rq_IP r) reg = (reg, Ret (None, None))"
    using getChaosPod_registered [OF assms, of env "rq_IP r"] by simp
  with None show ?thesis by (simp add: ServeDNS_def Let_def plain_reply_def needChaos_def)
next
  case (Some p)
  note found = getChaosPod_registered [OF assms, of env "rq_IP r", unfolded Some option.simps Let_def]
  consider (nil) "no_pod env p" | (alive) "\<not> no_pod env p" "confirmed env p"
    | (gone) "\<not> no_pod env p" "\<not> confirmed env p" by blast
  then show ?thesis
  proof cases
    case nil
    with found Some show ?thesis by (simp add: ServeDNS_def Let_def)
  next
    case alive
    with found obtain reg' a ip t where
        "getChaosPod (qe_client env) (qe_now env) (qe_now' env) (rq_IP r) reg = (reg', Ret (Some a, None))"
        "fmlookup (pod_heap reg') a = Some (p\<lparr>pi_IP := ip, pi_LastUpdateTime := t\<rparr>)"
      by auto
    with alive Some show ?thesis
      by (cases "armed p")
        (simp_all add: ServeDNS_def Let_def needChaos_refreshed needChaos_armed needChaos_unarmed
          plain_reply_def forged_reply_def case_prod_beta')
  next
    case gone
    with found obtain err where
        "getChaosPod (qe_client env) (qe_now env) (qe_now' env) (rq_IP r) reg = (reg, Ret (None, Some err))"
      by auto
    with gone Some show ?thesis by (simp add: ServeDNS_def Let_def plain_reply_def needChaos_def)
  qed
qed

lemma ServeDNS_cases:
  assumes "registry_wf reg" "pod_interface (qe_client env)"
    and "pred_option armed (registered reg (rq_IP r))"
  shows "snd (ServeDNS x pl l trie env k r reg) =
     (case registered reg (rq_IP r) of
        None \<Rightarrow> plain_reply x pl l k r
      | Some p \<Rightarrow>
          if confirmed env p \<and> selects trie p (rq_QName r)
          then forged_reply x pl l (qe_draws env) k r p else plain_reply x pl l k r)"
  using assms(2,3) unfolding ServeDNS_general [OF assms(1)]
  by (cases "registered reg (rq_IP r)") (auto simp: pod_interface_no_pod)

text \<open>
  C1: how every query is answered, over any well-formed registry.  A query from an address that is
  not registered is answered as by the plugin without chaos.  For a registered address, an entry
  that is overdue is confirmed with the API server: when that gives neither a pod nor an error the
  query crashes, and when it gives an error the answer is the one without chaos.  An entry that is
  fresh or confirmed but has neither the scope \<open>all\<close> nor a selector (which only the configuration
  file can make) crashes the query once the records are looked up.  Otherwise the query is forged
  exactly when the entry selects the queried name, and answered without chaos when it does not; the
  forged reply does not depend on the records, but the messages of a zone transfer have been written
  before it.
\<close>

theorem ServeDNS_decides:
  assumes "registry_wf reg"
  shows "snd (ServeDNS x pl l trie env k r reg) =
     (case registered reg (rq_IP r) of
        None \<Rightarrow> plain_reply x pl l k r
      | Some p \<Rightarrow>
          if no_pod env p then Panic NilDereference
          else if \<not> confirmed env p then plain_reply x pl l k r
          else if \<not> armed p
          then go_bind (getRecords x pl l k (r\<lparr>rq_Zone := ''''\<rparr>)) (\<lambda>_. Panic NilDereference)
          else if selects trie p (rq_QName r) then forged_reply x pl l (qe_draws env) k r p
          else plain_reply x pl l k r)"
  by (rule ServeDNS_general [OF assms])

section \<open>From the request to the forged answer and back\<close>

lemma ServeDNS_unregistered:
  "fmlookup (ipPodMap reg) (rq_IP r) = None \<Longrightarrow>
   ServeDNS x pl l trie env k r reg = (reg, plain_reply x pl l k r)"
  by (simp add: ServeDNS_def Let_def plain_reply_def needChaos_def getChaosPod_def)

text \<open>
  C2: the life of a chaos, from the control service to the client.  After \<open>SetDNSChaos\<close> has
  registered a pod, a query from the pod's address in the next ten seconds for a name that the
  request selects gets the forged reply of the requested action; after \<open>CancelDNSChaos\<close> the same
  query is answered as if there were no chaos.
\<close>

theorem chaos_lifecycle:
  assumes "registry_wf reg" "registry_synced reg"
    and "build_selector trie (NewTrieSelector trie) (req_Patterns req) = Inr sel"
    and "req_Pods req = ps @ pod # qs"
    and "all_found (cluster_answers cenv 0 (req_Pods req))"
    and "cluster_answers cenv 0 (req_Pods req) ! length ps = (Some v, None)"
    and "distinct (map pod_key (req_Pods req))"
    and "ap_PodIP v \<notin> answered_ips (cluster_answers cenv (Suc (length ps)) qs)"
    and "\<And>q b p. q \<in> set qs \<Longrightarrow> pod_lookup (podMap reg) (pod_key q) = Some b \<Longrightarrow>
           fmlookup (pod_heap reg) b = Some p \<Longrightarrow> pi_IP p \<noteq> ap_PodIP v"
    and "rq_IP r = ap_PodIP v" "qe_now env - env_now (cenv (length ps)) \<le> 10000000000"
    and "req_Patterns req = [] \<or> (\<exists>rules. trie_Match trie sel (rq_QName r) '''' = IBool True # rules)"
  shows "let reg' = fst (SetDNSChaos trie cenv req reg);
             reg'' = fst (CancelDNSChaos (req_Name req) reg') in
         (\<exists>p. registered reg' (rq_IP r) = Some p \<and> pi_Action p = req_Action req \<and>
              ServeDNS x pl l trie env k r reg' = (reg', forged_reply x pl l (qe_draws env) k r p)) \<and>
         ServeDNS x pl l trie env k r reg'' = (reg'', plain_reply x pl l k r)"
proof -
  let ?reg = "fst (SetDNSChaos trie cenv req reg)"
  let ?reg' = "fst (CancelDNSChaos (req_Name req) ?reg)"
  let ?scope = "if req_Patterns req = [] then ScopeAll else ''''"
  let ?p = "new_PodInfo pod (req_Action req) ?scope sel v (env_now (cenv (length ps)))"
  obtain a where a: "fmlookup (ipPodMap ?reg) (rq_IP r) = Some a" "fmlookup (pod_heap ?reg) a = Some ?p"
    using SetDNSChaos_entry [OF assms(1,3-8)] assms(9,10) by metis
  have fresh: "\<not> IsOverdue (qe_now env) ?p" using assms(11) by (simp add: IsOverdue_def new_PodInfo_def)
  have "needChaos trie (Some ?p) (rq_QName r) = Ret True"
    using assms(12) by (auto simp: needChaos_def new_PodInfo_def Let_def)
  then have forged: "ServeDNS x pl l trie env k r ?reg = (?reg, forged_reply x pl l (qe_draws env) k r ?p)"
    using a by (simp add: ServeDNS_def Let_def getChaosPod_fresh [OF a fresh] forged_reply_def split_beta)
  have "registry_ok ?reg" using SetDNSChaos_ok [of reg] assms(1,2) by (simp add: registry_ok_def)
  moreover have "fmlookup (chaosMap ?reg) (req_Name req) = Some req"
    using SetDNSChaos_chaosMap by simp
  moreover have "(pi_Namespace ?p, pi_Name ?p) \<in> pod_key ` set (req_Pods req)"
    using assms(4) by (simp add: new_PodInfo_def pod_key_def)
  ultimately have "fmlookup (ipPodMap ?reg') (rq_IP r) \<noteq> Some b" for b
    using CancelDNSChaos_ips [of ?reg "req_Name req" req "rq_IP r" b] a by (auto simp: registry_ok_def)
  then have "ServeDNS x pl l trie env k r ?reg' = (?reg', plain_reply x pl l k r)"
    by (intro ServeDNS_unregistered) (meson option.exhaust)
  moreover have "registered ?reg (rq_IP r) = Some ?p" "pi_Action ?p = req_Action req"
    using a by (simp_all add: registered_def new_PodInfo_def)
  ultimately show ?thesis unfolding Let_def using forged by blast
qed

section \<open>The server as a machine\<close>

text \<open>What reaches the plugin at run time: calls of the control service and queries.\<close>

datatype 'sel server_event =
    SvAdmin "'sel admin_event"
  | SvQuery dns_lib plugin_lib xfr_lib "'sel trie_lib" query_env Kubernetes Request

fun server_step :: "'sel server_event \<Rightarrow> 'sel registry \<Rightarrow> 'sel registry" where
  "server_step (SvAdmin e) reg = admin_step e reg"
| "server_step (SvQuery x pl l trie env k r) reg = fst (ServeDNS x pl l trie env k r reg)"

text \<open>Every entry can be asked; entries made at run time have a pattern trie.\<close>

definition server_inv :: "'sel registry \<Rightarrow> bool" where
  "server_inv reg \<longleftrightarrow>
     registry_wf reg \<and> (\<forall>a p. fmlookup (pod_heap reg) a = Some p \<longrightarrow> armed p)"

lemma unregister_inv: "server_inv reg \<Longrightarrow> server_inv (unregister pod reg)"
  by (simp add: server_inv_def unregister_wf)

lemma add_pod_inv: "server_inv reg \<Longrightarrow> armed p \<Longrightarrow> server_inv (add_pod p reg)"
  using add_pod_wf [of reg p] by (auto simp: server_inv_def add_pod_def Let_def split: if_splits)

lemma SetDNSChaos_inv: "server_inv reg \<Longrightarrow> server_inv (fst (SetDNSChaos trie env req reg))"
proof -
  assume "server_inv reg"
  then have "server_inv (reg\<lparr>chaosMap := m\<rparr>)" for m by (simp add: server_inv_def)
  then have "server_inv (fst (set_pods env i act sc sel pods (reg\<lparr>chaosMap := m\<rparr>)))" for i act sc sel pods m
    by (intro set_pods_preserves [where P = server_inv]) (auto intro: unregister_inv add_pod_inv simp: new_PodInfo_def armed_def)
  then show ?thesis using \<open>\<And>m. server_inv (reg\<lparr>chaosMap := m\<rparr>)\<close> by (simp add: SetDNSChaos_def Let_def split: sum.split)
qed

lemma CancelDNSChaos_inv: "server_inv reg \<Longrightarrow> server_inv (fst (CancelDNSChaos name reg))"
  using CancelDNSChaos_wf [of reg name] CancelDNSChaos_eq(4) [of reg name]
  by (cases "fmlookup (chaosMap reg) name") (auto simp: server_inv_def CancelDNSChaos_def)

lemma getChaosPod_inv: "server_inv reg \<Longrightarrow> server_inv (fst (getChaosPod client now now' ip reg))"
  using getChaosPod_wf [of reg client now now' ip]
  by (auto simp: server_inv_def getChaosPod_def Let_def armed_def split: option.splits prod.splits if_splits)

lemma ServeDNS_registry:
  "fst (ServeDNS x pl l trie env k r reg) =
     fst (getChaosPod (qe_client env) (qe_now env) (qe_now' env) (rq_IP r) reg)"
  by (simp add: ServeDNS_def Let_def split_beta)

interpretation server: invariant_machine server_step server_inv
proof
  fix s :: "'a registry" and e
  assume "server_inv s"
  then show "server_inv (server_step e s)"
  proof (cases e)
    case (SvAdmin ev)
    with \<open>server_inv s\<close> show ?thesis by (cases ev) (auto intro: SetDNSChaos_inv CancelDNSChaos_inv)
  qed (simp add: ServeDNS_registry getChaosPod_inv)
qed

lemma empty_registry_inv: "server_inv empty_registry"
  using empty_registry_wf by (simp add: server_inv_def empty_registry_def)

section \<open>Every query is answered\<close>

text \<open>
  The backend that the plugin hands to package \<open>plugin\<close> does not crash on a query with a
  syntactically valid name.  Its method \<open>Lookup\<close> only forwards to the upstream resolver.
\<close>

definition backend_safe :: "ServiceBackend \<Rightarrow> bool" where
  "backend_safe b \<longleftrightarrow>
     (\<forall>state exact. valid_name (rq_Name state) \<longrightarrow>
        \<not> panics (sb_Services b state exact) \<and> \<not> panics (sb_Reverse b state exact) \<and>
        \<not> panics (sb_Records b state exact))"

text \<open>
  The functions of package \<open>plugin\<close> that the handler calls for a query are not in the plugin's hands.
  The one that makes the records crashes, for the type of the query:
\<close>

definition generator_panics :: "plugin_lib \<Rightarrow> ServiceBackend \<Rightarrow> string \<Rightarrow> Request \<Rightarrow> bool" where
  "generator_panics pl b zone state \<longleftrightarrow>
     (let t = rq_QType state;
          fake = (NewWithQuestion pl state (rq_QName state) TypeA)\<lparr>rq_Zone := rq_Zone state\<rparr> in
      if t \<in> {TypeAXFR, TypeIXFR, TypeSOA} then panics (plugin_SOA pl b zone state)
      else if t = TypeA then panics (plugin_A pl b zone state)
      else if t = TypeAAAA then panics (plugin_AAAA pl b zone state)
      else if t = TypeTXT then panics (plugin_TXT pl b zone state)
      else if t = TypeCNAME then panics (plugin_CNAME pl b zone state)
      else if t = TypePTR then panics (plugin_PTR pl b zone state)
      else if t = TypeMX then panics (plugin_MX pl b zone state)
      else if t = TypeSRV then panics (plugin_SRV pl b zone state)
      else if t = TypeNS \<and> rq_Name state = zone then panics (plugin_NS pl b zone state)
      else panics (plugin_A pl b zone fake))"

text \<open>One of the functions that write the answer crashes.\<close>

definition writer_panics :: "plugin_lib \<Rightarrow> ServiceBackend \<Rightarrow> string \<Rightarrow> Request \<Rightarrow> bool" where
  "writer_panics pl b zone state \<longleftrightarrow>
     panics (NextOrFailure pl Name state) \<or>
     (\<exists>rcode \<in> {RcodeSuccess, RcodeServerFailure, RcodeNameError}. panics (BackendError pl b zone rcode state))"

definition library_crash :: "dns_lib \<Rightarrow> plugin_lib \<Rightarrow> Kubernetes \<Rightarrow> Request \<Rightarrow> bool" where
  "library_crash x pl k r \<longleftrightarrow>
     (let b = kubernetes_backend x pl k; zone = query_zone x k (rq_QName r) in
      generator_panics pl b zone (r\<lparr>rq_Zone := zone\<rparr>) \<or> writer_panics pl b zone (r\<lparr>rq_Zone := ''''\<rparr>))"

lemma go_bind_returns: "\<not> panics m \<Longrightarrow> (\<And>v. m = Ret v \<Longrightarrow> \<not> panics (f v)) \<Longrightarrow> \<not> panics (go_bind m f)"
  by (cases m) auto

lemma panics_bind_Ret:
  "panics (go_bind m (\<lambda>(a, b). Ret (f a b))) = panics m"
  "panics (go_bind m' (\<lambda>(a, b, c). Ret (g a b c))) = panics m'"
  by (simp_all add: panics_def go_bind_def split: go.split)

context total_controller
begin

lemma backend_returns:
  assumes "split_law x" "trim_cuts x" "k_APIConn k = api" "pod_cache = (k_podMode k = podModeVerified)"
    and "k_podMode k \<in> {podModeDisabled, podModeInsecure, podModeVerified}" "primaryZone k = Ret zone"
  shows "backend_safe (kubernetes_backend x pl k)"
  using Services_returns [OF assms(1,2) _ assms(3-5)] Reverse_returns [OF assms(1,2) _ assms(3-6)]
    Records_returns [OF assms(1,2) _ assms(3-5)]
  by (simp add: backend_safe_def kubernetes_backend_def)

lemma getRecords_returns:
  assumes "matches_law x" "k_APIConn k = api"
    and "\<not> generator_panics pl (kubernetes_backend x pl k) (query_zone x k (rq_QName r))
           (r\<lparr>rq_Zone := query_zone x k (rq_QName r)\<rparr>)"
  shows "\<not> panics (getRecords x pl l k (r\<lparr>rq_Zone := z\<rparr>))"
proof -
  have "\<not> panics (Transfer x l SOA k s)" if "\<not> panics (SOA (rq_Zone s) s)" for SOA s
    using Transfer_returns [of k SOA s x l] assms(2) that by blast
  with assms(3) show ?thesis
    by (auto simp: getRecords_def fake_lookup_def generator_panics_def Let_def
        query_zone_slice [OF assms(1)] panics_bind_Ret split: if_splits)
qed

end

lemma initialised_backend_safe:
  assumes "split_law x" "trim_cuts x" "initialised infs k" "opt_initEndpointsCache (k_opts k)"
  shows "backend_safe (kubernetes_backend x pl k)"
proof -
  have "k_podMode k \<in> {podModeDisabled, podModeInsecure, podModeVerified}"
    using assms(3) by (simp add: initialised_def)
  moreover obtain zone where "primaryZone k = Ret zone" using initialised_primaryZone [OF assms(3)] by blast
  ultimately show ?thesis
    by (rule total_controller.backend_returns [OF initialised_total [OF assms(3,4)] assms(1,2) refl refl])
qed

lemma reply_records_returns:
  assumes "\<not> writer_panics pl (kubernetes_backend x pl k) zone state"
  shows "\<not> panics (reply_records x pl k state rs ex zone err)"
  using assms by (cases "zone = []") (simp_all add: reply_records_def writer_panics_def Let_def)

lemma getRecords_zone:
  "matches_law x \<Longrightarrow> getRecords x pl l k r = Ret (ws, rs, ex, zone, err) \<Longrightarrow>
   zone = query_zone x k (rq_QName r)"
  by (auto simp: getRecords_def fake_lookup_def Let_def query_zone_slice go_bind_eq_Ret split: if_splits)

lemma server_run_replies:
  fixes trie :: "'sel trie_lib"
  assumes "matches_law x" "initialised infs k" "server_inv reg"
    and "opt_initEndpointsCache (k_opts k)" "pod_interface (qe_client env)" "\<not> library_crash x pl k r"
  shows "\<exists>reply. snd (ServeDNS x pl l trie env k r (fold server_step es reg)) = Ret reply"
proof -
  let ?reg = "fold server_step es reg" and ?s = "r\<lparr>rq_Zone := ''''\<rparr>"
  have inv: "server_inv ?reg" by (rule server.run_keeps [OF assms(3)])
  have "pred_option armed (registered ?reg (rq_IP r))"
    using inv by (auto simp: server_inv_def registered_def armed_def pred_option_def split: option.splits)
  moreover have "registry_wf ?reg" using inv by (simp add: server_inv_def)
  ultimately have cases: "snd (ServeDNS x pl l trie env k r ?reg) = plain_reply x pl l k r \<or>
      (\<exists>p. registered ?reg (rq_IP r) = Some p \<and>
           snd (ServeDNS x pl l trie env k r ?reg) = forged_reply x pl l (qe_draws env) k r p)"
    using ServeDNS_cases [OF _ assms(5), of ?reg r] by (auto split: option.split)
  have "\<not> panics (getRecords x pl l k ?s)"
    using assms(6)
    by (intro total_controller.getRecords_returns [OF initialised_total [OF assms(2,4)] assms(1) refl])
      (simp add: library_crash_def Let_def)
  then obtain ws rs ex zone err where rec: "getRecords x pl l k ?s = Ret (ws, rs, ex, zone, err)"
    unfolding not_panics_iff by (metis prod_cases5)
  from getRecords_zone [OF assms(1) rec] have "zone = query_zone x k (rq_QName r)" by simp
  then have "\<not> panics (reply_records x pl k ?s rs ex zone err)"
    using assms(6) by (intro reply_records_returns) (simp add: library_crash_def Let_def)
  then have "\<not> panics (plain_reply x pl l k r)" "\<not> panics (forged_reply x pl l (qe_draws env) k r p)"
    for p :: "'sel PodInfo"
    by (simp_all add: plain_reply_def forged_reply_def rec go_bind_returns)
  with cases show ?thesis by (auto simp: not_panics_iff [symmetric])
qed

section \<open>Transfers and names outside the zones\<close>

lemma plain_transfer:
  assumes "matches_law x" "rq_QType r \<in> {TypeAXFR, TypeIXFR}"
  shows "plain_reply x pl l k r =
    (let b = kubernetes_backend x pl k; zone = query_zone x k (rq_QName r) in
     go_bind (Transfer x l (plugin_SOA pl b) k (r\<lparr>rq_Zone := zone\<rparr>)) (\<lambda>(_, ch).
     go_bind (BackendError pl b zone RcodeSuccess (r\<lparr>rq_Zone := ''''\<rparr>)) (\<lambda>reply.
       Ret (after_writing (case ch of None \<Rightarrow> [] | Some es \<Rightarrow> tr_Out l (r\<lparr>rq_Zone := zone\<rparr>) es) reply))))"
proof -
  have "rq_QType r = TypeAXFR \<or> rq_QType r = TypeIXFR" using assms(2) by simp
  then show ?thesis
    by (simp add: plain_reply_def getRecords_def Let_def query_zone_slice [OF assms(1)] go_bind_assoc case_prod_beta'
        reply_records_def IsNameError_def cong: option.case_cong)
qed

text \<open>
  C39: the response code of a zone transfer is lost.  Whatever \<open>Transfer\<close> returns, the handler goes
  on to send an empty answer with code success: after the messages of a transfer that took place,
  and in place of the refusal when the client is not allowed to transfer the zone.
\<close>

theorem transfer_code_lost:
  assumes "matches_law x" "rq_QType r \<in> {TypeAXFR, TypeIXFR}"
    and "Transfer x l (plugin_SOA pl (kubernetes_backend x pl k)) k (r\<lparr>rq_Zone := query_zone x k (rq_QName r)\<rparr>) =
           Ret (rcode, ch)"
    and "BackendError pl (kubernetes_backend x pl k) (query_zone x k (rq_QName r)) RcodeSuccess (r\<lparr>rq_Zone := ''''\<rparr>) =
           Ret nodata"
  shows "\<exists>reply. plain_reply x pl l k r = Ret reply \<and>
           rp_Rcode reply = rp_Rcode nodata \<and> rp_Err reply = rp_Err nodata \<and>
           (case ch of
              None \<Rightarrow> rp_Written reply = rp_Written nodata
            | Some es \<Rightarrow> rp_Written reply =
                           tr_Out l (r\<lparr>rq_Zone := query_zone x k (rq_QName r)\<rparr>) es @ rp_Written nodata) \<and>
           (transferAllowed k r \<or> rcode = RcodeRefused \<and> ch = None)"
proof -
  have "transferAllowed k (r\<lparr>rq_Zone := z\<rparr>) = transferAllowed k r" for z by (simp add: transferAllowed_def)
  then have "transferAllowed k r \<or> rcode = RcodeRefused \<and> ch = None"
    using assms(3) by (auto simp: Transfer_def)
  then show ?thesis
    using plain_transfer [OF assms(1,2), of pl l k] assms(3,4) by (auto simp: Let_def after_writing_def split: option.split)
qed

text \<open>
  Documented behaviour of \<open>plugin.TXT\<close>: no services and no error give no records and no error.
\<close>

definition txt_law :: "plugin_lib \<Rightarrow> bool" where
  "txt_law pl \<longleftrightarrow>
     (\<forall>b zone state. sb_Services b state False = Ret ([], None) \<longrightarrow> plugin_TXT pl b zone state = Ret ([], None))"

text \<open>
  A TXT query for a name outside all zones of the plugin is not passed on to the next plugin
  but answered with an empty answer for the zone with the empty name, unless the whole name is
  \<open>dns-version\<close>.
\<close>

theorem foreign_TXT_answered:
  assumes "Matches x (k_Zones k) (rq_QName r) = ''''" "rq_QType r = TypeTXT" "txt_law pl"
    and "SplitDomainName x (TrimZone x (rq_Name r) '''') \<noteq> [''dns-version'']"
  shows "plain_reply x pl l k r =
     BackendError pl (kubernetes_backend x pl k) '''' RcodeSuccess (r\<lparr>rq_Zone := ''''\<rparr>)"
proof -
  have "Services x k (r\<lparr>rq_Zone := ''''\<rparr>) False = Ret ([], None)"
    using assms(2,4) by (cases "SplitDomainName x (TrimZone x (rq_Name r) '''')") (auto simp: Services_def Let_def)
  then have "plugin_TXT pl (kubernetes_backend x pl k) '''' (r\<lparr>rq_Zone := ''''\<rparr>) = Ret ([], None)"
    using assms(3) by (simp add: txt_law_def kubernetes_backend_def)
  moreover have "go_bind m (\<lambda>reply. Ret (after_writing [] reply)) = m" for m
    by (cases m) (simp_all add: after_writing_def)
  ultimately show ?thesis
    using assms(1,2) by (simp add: plain_reply_def getRecords_def Let_def last_bytes_suffix reply_records_def IsNameError_def)
qed

section \<open>Examples\<close>

definition ex_records :: "uint16 \<Rightarrow> ServiceBackend \<Rightarrow> string \<Rightarrow> Request \<Rightarrow> rr_result" where
  "ex_records typ b zone state =
     go_bind (sb_Services b state False) (\<lambda>(svcs, err).
       Ret (if err = None
            then map (\<lambda>s. RR_Other \<lparr>hdr_Name = rq_QName state, hdr_Rrtype = typ, hdr_Class = ClassINET,
                                    hdr_Ttl = ms_TTL s\<rparr> (ms_Host s)) svcs
            else [], err))"

definition ex_records_extra :: "uint16 \<Rightarrow> ServiceBackend \<Rightarrow> string \<Rightarrow> Request \<Rightarrow> rr_extra_result" where
  "ex_records_extra typ b zone state =
     go_bind (ex_records typ b zone state) (\<lambda>(rrs, err). Ret (rrs, [], err))"

definition empty_msg :: dns_Msg where
  "empty_msg = \<lparr>m_Id = 0, m_Authoritative = False, m_Answer = [], m_Extra = []\<rparr>"

definition ex_plugin :: plugin_lib where
  "ex_plugin =
     \<lparr>plugin_A = ex_records TypeA, plugin_AAAA = ex_records TypeAAAA, plugin_TXT = ex_records TypeTXT,
      plugin_CNAME = ex_records TypeCNAME, plugin_PTR = ex_records TypePTR,
      plugin_MX = ex_records_extra TypeMX, plugin_SRV = ex_records_extra TypeSRV,
      plugin_SOA = (\<lambda>b. ex_SOA), plugin_NS = ex_records_extra TypeNS,
      BackendError = (\<lambda>b zone rcode state. Ret \<lparr>rp_Rcode = rcode, rp_Err = None, rp_Written = [empty_msg]\<rparr>),
      NextOrFailure = (\<lambda>n state. Ret \<lparr>rp_Rcode = RcodeServerFailure, rp_Err = None, rp_Written = []\<rparr>),
      Fall_Through = (\<lambda>_. False), Upstream_Lookup = (\<lambda>state n t. Ret (None, None)),
      NewWithQuestion = (\<lambda>state n t. state\<lparr>rq_Name := n, rq_QName := n, rq_QType := t\<rparr>),
      SetReply = (\<lambda>_. empty_msg)\<rparr>"

lemma ex_generator_safe:
  assumes "\<And>exact. \<not> panics (sb_Services b state exact)"
    and "\<And>exact. \<not> panics (sb_Services b (state\<lparr>rq_Name := rq_QName state, rq_QType := TypeA\<rparr>) exact)"
  shows "\<not> generator_panics ex_plugin b zone state"
proof -
  have one: "\<not> panics (ex_records t b z s)" if "\<not> panics (sb_Services b s False)" for t z s
    unfolding ex_records_def by (rule go_bind_returns [OF that]) auto
  moreover have "\<not> panics (ex_records_extra t b z s)" if "\<not> panics (sb_Services b s False)" for t z s
    unfolding ex_records_extra_def by (rule go_bind_returns [OF one [OF that]]) auto
  ultimately show ?thesis
    using assms by (simp add: generator_panics_def ex_plugin_def ex_SOA_def Let_def)
qed

lemma ex_library_returns:
  assumes "backend_safe (kubernetes_backend x ex_plugin k)" "valid_name (rq_Name r)" "valid_name (rq_QName r)"
  shows "\<not> library_crash x ex_plugin k r"
  unfolding library_crash_def Let_def
proof (intro notI, elim disjE)
  assume "generator_panics ex_plugin (kubernetes_backend x ex_plugin k) (query_zone x k (rq_QName r))
            (r\<lparr>rq_Zone := query_zone x k (rq_QName r)\<rparr>)"
  then show False
    by (rule ex_generator_safe [THEN notE, rotated -1]) (use assms in \<open>auto simp: backend_safe_def\<close>)
qed (simp add: writer_panics_def ex_plugin_def)

lemma ex_txt_law: "txt_law ex_plugin"
  by (simp add: txt_law_def ex_plugin_def ex_records_def)

definition ex_query_env :: query_env where
  "ex_query_env = \<lparr>qe_client = ex_client, qe_now = 5, qe_now' = 6, qe_draws = id\<rparr>"

definition a_query :: "string \<Rightarrow> Request" where
  "a_query ip = \<lparr>rq_Name = ''svc1.testns.svc.cluster.local.'', rq_QName = ''svc1.testns.svc.cluster.local.'',
                 rq_QType = TypeA, rq_IP = ip, rq_Zone = ''''\<rparr>"

lemma a_query_valid: "valid_name (rq_Name (a_query ip))" "valid_name (rq_QName (a_query ip))"
  by (rule valid_nameI [of "[''svc1'', ''testns'', ''svc'', ''cluster'', ''local'']"];
      simp add: a_query_def domain_label_def)+

lemma ex_pod_interface: "pod_interface ex_client"
  by (simp add: pod_interface_def getPodFromCluster_def ex_client_def)

definition all_pod :: "string list PodInfo" where
  "all_pod =
     \<lparr>pi_Namespace = ''default'', pi_Name = ''a'', pi_Action = ActionRandom, pi_Scope = ScopeAll, pi_Selector = None,
      pi_IP = ''10.0.0.1'', pi_LastUpdateTime = 0\<rparr>"

theorem ServeDNS_decides_witness:
  "snd (ServeDNS ex_lib ex_plugin ex_xfr ex_trie ex_query_env example_k (a_query ''10.0.0.1'')
          (add_pod all_pod empty_registry)) =
     forged_reply ex_lib ex_plugin ex_xfr id example_k (a_query ''10.0.0.1'') all_pod"
proof -
  have reg: "registered (add_pod all_pod empty_registry) ''10.0.0.1'' = Some all_pod"
    by (simp add: registered_def add_pod_def all_pod_def Let_def empty_registry_def)
  moreover have "armed all_pod" "confirmed ex_query_env all_pod" "\<not> no_pod ex_query_env all_pod"
      "selects ex_trie all_pod name" for name
    by (simp_all add: armed_def all_pod_def confirmed_def no_pod_def IsOverdue_def ex_query_env_def selects_def)
  moreover have "rq_IP (a_query ''10.0.0.1'') = ''10.0.0.1''" "qe_draws ex_query_env = id"
    by (simp_all add: a_query_def ex_query_env_def)
  ultimately show ?thesis
    using ServeDNS_decides [OF add_pod_wf [OF empty_registry_wf], of ex_lib ex_plugin ex_xfr ex_trie
        ex_query_env example_k "a_query ''10.0.0.1''" all_pod]
    by simp
qed

theorem chaos_lifecycle_witness:
  "let r = (a_query ''10.0.0.1'')\<lparr>rq_QName := ''x.com.''\<rparr>;
       reg = fst (CancelDNSChaos ''c'' ex_registry) in
   (\<exists>p. registered ex_registry ''10.0.0.1'' = Some p \<and> pi_Action p = ActionRandom \<and>
        ServeDNS ex_lib ex_plugin ex_xfr ex_trie ex_query_env example_k r ex_registry =
          (ex_registry, forged_reply ex_lib ex_plugin ex_xfr id example_k r p)) \<and>
   ServeDNS ex_lib ex_plugin ex_xfr ex_trie ex_query_env example_k r reg =
     (reg, plain_reply ex_lib ex_plugin ex_xfr example_k r)"
proof -
  let ?v = "ex_api_pod ''a'' ''10.0.0.1''" and ?r = "(a_query ''10.0.0.1'')\<lparr>rq_QName := ''x.com.''\<rparr>"
  let ?req = "ex_req [''a'', ''b'']"
  have pods: "req_Pods ?req = [] @ ex_pod ''a'' # [ex_pod ''b'']" by (simp add: ex_req_def)
  have found: "all_found (cluster_answers ex_env 0 (req_Pods ?req))"
      "cluster_answers ex_env 0 (req_Pods ?req) ! length [] = (Some ?v, None)"
      "distinct (map pod_key (req_Pods ?req))"
      "ap_PodIP ?v \<notin> answered_ips (cluster_answers ex_env (Suc (length [])) [ex_pod ''b''])"
    by (simp_all add: ex_simps answered_ips_def)
  have free: "fmlookup (pod_heap (empty_registry :: string list registry)) b = None" for b
    by (simp add: empty_registry_def)
  have query: "rq_IP ?r = ap_PodIP ?v" "qe_now ex_query_env - env_now (ex_env (length [])) \<le> 10000000000"
      "req_Patterns ?req = [] \<or> (\<exists>rules. trie_Match ex_trie [''x.com.'', ''x.com''] (rq_QName ?r) '''' = IBool True # rules)"
    by (simp_all add: a_query_def ex_simps ex_query_env_def)
  have "req_Name ?req = ''c''" "req_Action ?req = ActionRandom" "qe_draws ex_query_env = id" "rq_IP ?r = ''10.0.0.1''"
    by (simp_all add: ex_req_def ex_query_env_def a_query_def)
  then show ?thesis
    using chaos_lifecycle [where x = ex_lib and pl = ex_plugin and l = ex_xfr and k = example_k,
        OF empty_registry_wf empty_registry_synced ex_selector pods found _ query] free
    unfolding ex_registry_def Let_def by simp
qed

theorem foreign_TXT_answered_witness:
  "plain_reply ex_lib ex_plugin ex_xfr example_k ((a_query ''10.0.0.1'')\<lparr>rq_Name := ''example.com.'', rq_QName := ''example.com.'', rq_QType := TypeTXT\<rparr>) =
     Ret \<lparr>rp_Rcode = RcodeSuccess, rp_Err = None, rp_Written = [empty_msg]\<rparr>"
  by (subst foreign_TXT_answered [OF _ _ ex_txt_law])
    (simp_all add: ex_lib_simps ex_Matches_def example_k_def a_query_def ex_plugin_def)

theorem transfer_code_lost_witness:
  "plain_reply ex_lib ex_plugin ex_xfr example_k axfr_query =
     Ret \<lparr>rp_Rcode = RcodeSuccess, rp_Err = None, rp_Written = [empty_msg]\<rparr> \<and>
   Transfer ex_lib ex_xfr ex_SOA example_k axfr_query = Ret (RcodeRefused, None)"
proof -
  have zone: "query_zone ex_lib example_k (rq_QName axfr_query) = ''cluster.local.''"
    by (simp add: query_zone_def ex_lib_def ex_Matches_def example_k_def axfr_query_def)
  have same: "axfr_query\<lparr>rq_Zone := ''cluster.local.''\<rparr> = axfr_query" by (simp add: axfr_query_def)
  have type: "rq_QType axfr_query = TypeAXFR" by (simp add: axfr_query_def)
  have refused: "Transfer ex_lib ex_xfr SOA example_k axfr_query = Ret (RcodeRefused, None)" for SOA
    by (simp add: Transfer_def transferAllowed_def example_k_def)
  have "BackendError ex_plugin b z c s = Ret \<lparr>rp_Rcode = c, rp_Err = None, rp_Written = [empty_msg]\<rparr>" for b z c s
    by (simp add: ex_plugin_def)
  from transfer_code_lost [OF ex_matches_law _ _ this, of axfr_query ex_xfr example_k RcodeRefused None]
  obtain reply where "plain_reply ex_lib ex_plugin ex_xfr example_k axfr_query = Ret reply" "rp_Rcode reply = RcodeSuccess"
      "rp_Err reply = None" "rp_Written reply = [empty_msg]"
    by (auto simp: zone same refused type)
  then show ?thesis using refused by (cases reply) simp
qed

end
