(* ===== verification/Setup.thy ===== *)
theory Setup
  imports Handler
begin

text \<open>
  \<open>src/setup.go\<close> and the initialisation part of \<open>src/kubernetes.go\<close>: how the configuration is read,
  the client and the controller are made, the pods named in the configuration are looked up, and
  how start-up waits for the caches.

  The tokens of a configuration stanza arrive as data: the arguments after the plugin's name and,
  for each line of the block, its directive and arguments.  What the directives hand to other
  packages (names to normalise, label selectors, transfer lists, client configurations) is
  computed by parameters.
\<close>

section \<open>Data\<close>

record stanza =
  st_args :: "string list"
  st_block :: "(string \<times> string list) list"

datatype setup_err =
    ErrOnce
  | ArgErr
  | NonReverseZoneNeeded
  | WrongPods string
  | BadLabelSelector string go_err
  | BadNamespaceLabelSelector string go_err
  | AtoiErr string
  | TtlOutOfRange int
  | TransferErr go_err
  | TransferFromUnsupported
  | BadIgnore string
  | UnknownProperty string
  | NamespacesAndLabels
  | InitErr go_err
  | ClientErr go_err
  | SelectorErr go_err
  | GrpcErr go_err

text \<open>
  Functions of other packages: \<open>plugin.Host.Normalize\<close>, \<open>meta.ParseToLabelSelector\<close>,
  \<open>parse.Transfer\<close> on the arguments of its line, and the result of reading \<open>/etc/resolv.conf\<close> with
  its search list normalised.
\<close>

record 'ls setup_lib =
  Normalize :: "string \<Rightarrow> string"
  ParseToLabelSelector :: "string \<Rightarrow> go_err + 'ls"
  parse_Transfer :: "string list \<Rightarrow> go_err + string list \<times> string list"
  ClientConfigFromFile :: "go_err + string list"

text \<open>
  The struct \<open>Kubernetes\<close> while the configuration is read: no controller yet, and the settings that
  only matter for connecting.  A kubeconfig is its path and context; the arguments of \<open>fallthrough\<close>
  are \<open>None\<close> when the directive is absent.
\<close>

record ('ls, 'sel) Config =
  cf_Zones :: "string list"
  cf_APIServerList :: "string list"
  cf_APICertAuth :: string
  cf_APIClientCert :: string
  cf_APIClientKey :: string
  cf_ClientConfig :: "(string \<times> string) option"
  cf_Namespaces :: "string fset"
  cf_podMode :: string
  cf_endpointNameMode :: bool
  cf_Fall :: "string list option"
  cf_ttl :: uint32
  cf_opts :: dnsControlOpts
  cf_labelSelector :: "'ls option"
  cf_namespaceLabelSelector :: "'ls option"
  cf_primaryZoneIndex :: int
  cf_autoPathSearch :: "string list"
  cf_TransferTo :: "string list"
  cf_grpcPort :: int
  cf_registry :: "'sel registry"

abbreviation (input) defaultTTL :: uint32 where "defaultTTL \<equiv> 5"

section \<open>Reading the configuration\<close>

definition New :: "string list \<Rightarrow> ('ls, 'sel) Config" where
  "New zones =
     \<lparr>cf_Zones = zones, cf_APIServerList = [], cf_APICertAuth = '''', cf_APIClientCert = '''',
      cf_APIClientKey = '''', cf_ClientConfig = None, cf_Namespaces = {||}, cf_podMode = podModeDisabled,
      cf_endpointNameMode = False, cf_Fall = None, cf_ttl = defaultTTL,
      cf_opts = \<lparr>opt_initPodCache = False, opt_initEndpointsCache = False, opt_ignoreEmptyService = False\<rparr>,
      cf_labelSelector = None, cf_namespaceLabelSelector = None, cf_primaryZoneIndex = 0,
      cf_autoPathSearch = [], cf_TransferTo = [], cf_grpcPort = 0, cf_registry = empty_registry\<rparr>"

definition searchFromResolvConf :: "'ls setup_lib \<Rightarrow> string list" where
  "searchFromResolvConf sl = (case ClientConfigFromFile sl of Inl err \<Rightarrow> [] | Inr search \<Rightarrow> search)"

text \<open>The index of the first zone that is not a reverse zone, \<open>-1\<close> when there is none.\<close>

fun primary_loop :: "dns_lib \<Rightarrow> int \<Rightarrow> string list \<Rightarrow> int" where
  "primary_loop x i [] = -1"
| "primary_loop x i (z # zs) = (if IsReverse x z > 0 then primary_loop x (i + 1) zs else i)"

text \<open>
  One pod of a \<open>chaos\<close> line: a new entry without a selector, an address and a time, filed under its
  name only.
\<close>

definition corefile_pod :: "string \<Rightarrow> string \<Rightarrow> string \<Rightarrow> string \<Rightarrow> 'sel PodInfo" where
  "corefile_pod namespace name action scope =
     \<lparr>pi_Namespace = namespace, pi_Name = name, pi_Action = action, pi_Scope = scope, pi_Selector = None,
      pi_IP = '''', pi_LastUpdateTime = zero_time\<rparr>"

definition file_pod :: "'sel PodInfo \<Rightarrow> 'sel registry \<Rightarrow> 'sel registry" where
  "file_pod podInfo k =
     (let a = heap_next k in
      k\<lparr>pod_heap := fmupd a podInfo (pod_heap k), heap_next := Suc a,
        podMap := pod_put (pi_Namespace podInfo, pi_Name podInfo) a (podMap k)\<rparr>)"

fun chaos_args_loop ::
  "string \<Rightarrow> string \<Rightarrow> string list \<Rightarrow> 'sel registry \<Rightarrow> setup_err + 'sel registry" where
  "chaos_args_loop action scope [] k = Inr k"
| "chaos_args_loop action scope (arg # args) k =
     (case SplitN2 arg CHR ''.'' of
        [namespace, name] \<Rightarrow>
          chaos_args_loop action scope args (file_pod (corefile_pod namespace name action scope) k)
      | _ \<Rightarrow> Inl ArgErr)"

definition parse_directive ::
  "'ls setup_lib \<Rightarrow> string \<Rightarrow> string list \<Rightarrow> ('ls, 'sel) Config \<Rightarrow> setup_err + ('ls, 'sel) Config" where
  "parse_directive sl val args k8s =
     (if val = ''endpoint_pod_names'' then
        if length args > 0 then Inl ArgErr else Inr (k8s\<lparr>cf_endpointNameMode := True\<rparr>)
      else if val = ''pods'' then
        if length args = 1 then
          if args ! 0 \<in> {podModeDisabled, podModeInsecure, podModeVerified}
          then Inr (k8s\<lparr>cf_podMode := args ! 0\<rparr>) else Inl (WrongPods (args ! 0))
        else Inl ArgErr
      else if val = ''namespaces'' then
        if length args > 0
        then Inr (k8s\<lparr>cf_Namespaces := fold finsert args (cf_Namespaces k8s)\<rparr>) else Inl ArgErr
      else if val = ''endpoint'' then
        if length args > 0 then Inr (k8s\<lparr>cf_APIServerList := args\<rparr>) else Inl ArgErr
      else if val = ''tls'' then
        if length args = 3
        then Inr (k8s\<lparr>cf_APIClientCert := args ! 0, cf_APIClientKey := args ! 1, cf_APICertAuth := args ! 2\<rparr>)
        else Inl ArgErr
      else if val = ''labels'' then
        if length args > 0 then
          let labelSelectorString = Join args '' '' in
          (case ParseToLabelSelector sl labelSelectorString of
             Inl err \<Rightarrow> Inl (BadLabelSelector labelSelectorString err)
           | Inr ls \<Rightarrow> Inr (k8s\<lparr>cf_labelSelector := Some ls\<rparr>))
        else Inl ArgErr
      else if val = ''namespace_labels'' then
        if length args > 0 then
          let namespaceLabelSelectorString = Join args '' '' in
          (case ParseToLabelSelector sl namespaceLabelSelectorString of
             Inl err \<Rightarrow> Inl (BadNamespaceLabelSelector namespaceLabelSelectorString err)
           | Inr nls \<Rightarrow> Inr (k8s\<lparr>cf_namespaceLabelSelector := Some nls\<rparr>))
        else Inl ArgErr
      else if val = ''fallthrough'' then Inr (k8s\<lparr>cf_Fall := Some args\<rparr>)
      else if val = ''ttl'' then
        if length args = 0 then Inl ArgErr
        else
          (case Atoi (args ! 0) of
             None \<Rightarrow> Inl (AtoiErr (args ! 0))
           | Some t \<Rightarrow>
               if t < 0 \<or> t > 3600 then Inl (TtlOutOfRange t) else Inr (k8s\<lparr>cf_ttl := of_int t\<rparr>))
      else if val = ''transfer'' then
        (case parse_Transfer sl args of
           Inl err \<Rightarrow> Inl (TransferErr err)
         | Inr (tos, froms) \<Rightarrow>
             if length froms \<noteq> 0 then Inl TransferFromUnsupported else Inr (k8s\<lparr>cf_TransferTo := tos\<rparr>))
      else if val = ''noendpoints'' then
        if length args \<noteq> 0 then Inl ArgErr
        else Inr (k8s\<lparr>cf_opts := (cf_opts k8s)\<lparr>opt_initEndpointsCache := False\<rparr>\<rparr>)
      else if val = ''ignore'' then
        if length args > 0 then
          if args ! 0 = ''empty_service''
          then Inr (k8s\<lparr>cf_opts := (cf_opts k8s)\<lparr>opt_ignoreEmptyService := True\<rparr>\<rparr>)
          else Inl (BadIgnore (args ! 0))
        else Inr k8s
      else if val = ''kubeconfig'' then
        if length args = 2 then Inr (k8s\<lparr>cf_ClientConfig := Some (args ! 0, args ! 1)\<rparr>) else Inl ArgErr
      else if val = ''grpcport'' then
        if length args = 1 then
          (case Atoi (args ! 0) of
             None \<Rightarrow> Inl (AtoiErr (args ! 0)) | Some port \<Rightarrow> Inr (k8s\<lparr>cf_grpcPort := port\<rparr>))
        else Inr k8s
      else if val = ''chaos'' then
        if length args \<ge> 3 then
          (case chaos_args_loop (args ! 0) (args ! 1) (drop 2 args) (cf_registry k8s) of
             Inl err \<Rightarrow> Inl err
           | Inr reg \<Rightarrow> Inr (k8s\<lparr>cf_registry := reg\<rparr>))
        else Inl ArgErr
      else Inl (UnknownProperty val))"

fun block_loop ::
  "'ls setup_lib \<Rightarrow> (string \<times> string list) list \<Rightarrow> ('ls, 'sel) Config \<Rightarrow> setup_err + ('ls, 'sel) Config" where
  "block_loop sl [] k8s = Inr k8s"
| "block_loop sl ((val, args) # ls) k8s =
     (case parse_directive sl val args k8s of Inl err \<Rightarrow> Inl err | Inr k8s \<Rightarrow> block_loop sl ls k8s)"

definition ParseStanza ::
  "dns_lib \<Rightarrow> 'ls setup_lib \<Rightarrow> string list \<Rightarrow> stanza \<Rightarrow> setup_err + ('ls, 'sel) Config" where
  "ParseStanza x sl ServerBlockKeys c =
     (let k8s = New [''''];
          k8s = k8s\<lparr>cf_autoPathSearch := searchFromResolvConf sl\<rparr>;
          k8s = k8s\<lparr>cf_opts := \<lparr>opt_initPodCache = False, opt_initEndpointsCache = True,
                               opt_ignoreEmptyService = False\<rparr>\<rparr>;
          zones = st_args c;
          k8s = (if length zones \<noteq> 0 then k8s\<lparr>cf_Zones := map (Normalize sl) zones\<rparr>
                 else k8s\<lparr>cf_Zones := map (Normalize sl) ServerBlockKeys\<rparr>);
          k8s = k8s\<lparr>cf_primaryZoneIndex := primary_loop x 0 (cf_Zones k8s)\<rparr> in
      if cf_primaryZoneIndex k8s = -1 then Inl NonReverseZoneNeeded
      else
        (case block_loop sl (st_block c) k8s of
           Inl err \<Rightarrow> Inl err
         | Inr k8s \<Rightarrow>
             if fcard (cf_Namespaces k8s) \<noteq> 0 \<and> cf_namespaceLabelSelector k8s \<noteq> None
             then Inl NamespacesAndLabels else Inr k8s))"

text \<open>The loop over the stanzas, with their number so far; a nil pointer is \<open>None\<close>.\<close>

fun stanza_loop ::
  "dns_lib \<Rightarrow> 'ls setup_lib \<Rightarrow> string list \<Rightarrow> nat \<Rightarrow> stanza list \<Rightarrow> ('ls, 'sel) Config option \<Rightarrow>
   setup_err + ('ls, 'sel) Config option" where
  "stanza_loop x sl keys i [] k8s = Inr k8s"
| "stanza_loop x sl keys i (c # cs) k8s =
     (if i > 0 then Inl ErrOnce
      else case ParseStanza x sl keys c of
             Inl err \<Rightarrow> Inl err
           | Inr k8s \<Rightarrow> stanza_loop x sl keys (i + 1) cs (Some k8s))"

definition kubernetesParse ::
  "dns_lib \<Rightarrow> 'ls setup_lib \<Rightarrow> string list \<Rightarrow> stanza list \<Rightarrow> setup_err + ('ls, 'sel) Config option" where
  "kubernetesParse x sl keys cs = stanza_loop x sl keys 0 cs None"

section \<open>Connecting\<close>

text \<open>What \<open>getClientConfig\<close> overrides when an endpoint is configured.\<close>

record overrides =
  ov_Server :: string
  ov_CertificateAuthority :: string
  ov_ClientCertificate :: string
  ov_ClientKey :: string

text \<open>
  Package \<open>client-go\<close>, at the moment of start-up: loading a client configuration from a kubeconfig,
  from within the cluster, or from overrides; setting its content type; the client made from it,
  with the pods it sees in successive calls and the stores its informers fill for given selectors.
\<close>

record kube_client =
  kc_pods :: "nat \<Rightarrow> call_env"
  kc_informers :: "string option \<Rightarrow> string option \<Rightarrow> informers"

record ('ls, 'rc) client_lib =
  kubeconfig_ClientConfig :: "string \<times> string \<Rightarrow> go_err + 'rc"
  InClusterConfig :: "go_err + 'rc"
  overrides_ClientConfig :: "overrides \<Rightarrow> go_err + 'rc"
  set_ContentType :: "string \<Rightarrow> 'rc \<Rightarrow> 'rc"
  NewForConfig :: "'rc \<Rightarrow> go_err + kube_client"
  LabelSelectorAsSelector :: "'ls \<Rightarrow> go_err + string"

abbreviation protobuf :: string where "protobuf \<equiv> ''application/vnd.kubernetes.protobuf''"

definition getClientConfig :: "('ls, 'rc) client_lib \<Rightarrow> ('ls, 'sel) Config \<Rightarrow> go_err + 'rc" where
  "getClientConfig cl k =
     (case cf_ClientConfig k of
        Some config \<Rightarrow> kubeconfig_ClientConfig cl config
      | None \<Rightarrow>
          (case cf_APIServerList k of
             [] \<Rightarrow>
               (case InClusterConfig cl of
                  Inl err \<Rightarrow> Inl err
                | Inr cc \<Rightarrow> Inr (set_ContentType cl protobuf cc))
           | server # _ \<Rightarrow>
               let info = \<lparr>ov_Server = server, ov_CertificateAuthority = '''', ov_ClientCertificate = '''',
                           ov_ClientKey = ''''\<rparr>;
                   info = (if length (cf_APICertAuth k) > 0
                           then info\<lparr>ov_CertificateAuthority := cf_APICertAuth k\<rparr> else info);
                   info = (if length (cf_APIClientCert k) > 0
                           then info\<lparr>ov_ClientCertificate := cf_APIClientCert k\<rparr> else info);
                   info = (if length (cf_APIClientKey k) > 0
                           then info\<lparr>ov_ClientKey := cf_APIClientKey k\<rparr> else info) in
               (case overrides_ClientConfig cl info of
                  Inl err \<Rightarrow> Inl err
                | Inr cc \<Rightarrow> Inr (set_ContentType cl protobuf cc))))"

text \<open>\<open>if ls != nil { selector, err = LabelSelectorAsSelector(ls) ... }\<close>; a nil selector is \<open>None\<close>.\<close>

definition make_selector :: "('ls, 'rc) client_lib \<Rightarrow> 'ls option \<Rightarrow> go_err + string option" where
  "make_selector cl ls =
     (case ls of
        None \<Rightarrow> Inr None
      | Some l \<Rightarrow> (case LabelSelectorAsSelector cl l of Inl err \<Rightarrow> Inl err | Inr s \<Rightarrow> Inr (Some s)))"

text \<open>The running plugin: its lookup configuration, its chaos maps and the port of its control service.\<close>

definition kubernetes_of :: "('ls, 'sel) Config \<Rightarrow> dnsControlOpts \<Rightarrow> dnsController \<Rightarrow> Kubernetes" where
  "kubernetes_of k opts conn =
     \<lparr>k_Zones = cf_Zones k, k_APIConn = conn, k_Namespaces = cf_Namespaces k, k_podMode = cf_podMode k,
      k_endpointNameMode = cf_endpointNameMode k, k_ttl = cf_ttl k, k_opts = opts,
      k_primaryZoneIndex = cf_primaryZoneIndex k, k_localIPs = [], k_autoPathSearch = cf_autoPathSearch k,
      k_TransferTo = cf_TransferTo k\<rparr>"

text \<open>
  The order in which the two nested loops over the pod table visit the entries is the runtime's
  choice; an admissible order visits every registered address once.
\<close>

definition visits_pods :: "pod_table \<Rightarrow> addr list \<Rightarrow> bool" where
  "visits_pods t order \<longleftrightarrow> set order = {a. \<exists>key. pod_lookup t key = Some a} \<and> distinct order"

type_synonym 'sel init_result = "(setup_err + Kubernetes) go \<times> 'sel registry"

definition InitKubeCache ::
  "('ls, 'rc) client_lib \<Rightarrow> addr list \<Rightarrow> ('ls, 'sel) Config \<Rightarrow> 'sel init_result" where
  "InitKubeCache cl order k =
     (case getClientConfig cl k of
        Inl err \<Rightarrow> (Ret (Inl (InitErr err)), cf_registry k)
      | Inr config \<Rightarrow>
     (case NewForConfig cl config of
        Inl err \<Rightarrow> (Ret (Inl (ClientErr err)), cf_registry k)
      | Inr kubeClient \<Rightarrow>
     (case make_selector cl (cf_labelSelector k) of
        Inl err \<Rightarrow> (Ret (Inl (SelectorErr err)), cf_registry k)
      | Inr selector \<Rightarrow>
     (case make_selector cl (cf_namespaceLabelSelector k) of
        Inl err \<Rightarrow> (Ret (Inl (SelectorErr err)), cf_registry k)
      | Inr namespaceSelector \<Rightarrow>
          let opts = (cf_opts k)\<lparr>opt_initPodCache := (cf_podMode k = podModeVerified)\<rparr>;
              infs = kc_informers kubeClient selector namespaceSelector;
              running = kubernetes_of k opts (dnsControl_api (newdnsController infs opts)) in
          (case init_pods (kc_pods kubeClient) 0 order (cf_registry k) of
             (reg, Panic p) \<Rightarrow> (Panic p, reg)
           | (reg, Ret (Some err)) \<Rightarrow> (Ret (Inl (InitErr err)), reg)
           | (reg, Ret None) \<Rightarrow> (Ret (Inr running), reg))))))"

text \<open>
  The start-up hook of \<open>RegisterKubeCache\<close>: a ticker every 100 milliseconds and a timer of 5
  seconds.  \<open>synced i\<close> is what the controller reports at the \<open>i\<close>-th tick; when the last tick and
  the timer are ready together, \<open>select\<close> picks one of them.  The result is the time it returns.
  Ticks are taken to come at exact multiples of 100 milliseconds and \<open>HasSynced\<close> to answer at once;
  the goroutine that runs the controller is what makes \<open>synced\<close> true.
\<close>

function wait_sync :: "(nat \<Rightarrow> bool) \<Rightarrow> bool \<Rightarrow> nat \<Rightarrow> nat" where
  "wait_sync synced timer_first i =
     (if 100 * i > 5000 \<or> 100 * i = 5000 \<and> timer_first then 5000
      else if synced i then 100 * i
      else wait_sync synced timer_first (Suc i))"
  by pat_completeness auto
termination by (relation "measure (\<lambda>(_, _, i). 51 - i)") auto

text \<open>
  \<open>setup\<close>: parse, initialise, register the hooks and start the control service.  The start-up hook
  for the bound addresses is applied to the plugin it returns.
\<close>

definition setup_plugin ::
  "dns_lib \<Rightarrow> 'ls setup_lib \<Rightarrow> ('ls, 'rc) client_lib \<Rightarrow> (int \<Rightarrow> go_err option) \<Rightarrow> (go_err + string list) \<Rightarrow>
   string list \<Rightarrow> string list \<Rightarrow> addr list \<Rightarrow> stanza list \<Rightarrow> (setup_err + Kubernetes \<times> 'sel registry) go" where
  "setup_plugin x sl cl listen interfaceAddrs listenHosts keys order cs =
     (case kubernetesParse x sl keys cs of
        Inl err \<Rightarrow> Ret (Inl err)
      | Inr None \<Rightarrow> Panic NilDereference
      | Inr (Some config) \<Rightarrow>
          (case InitKubeCache cl order config of
             (Panic p, _) \<Rightarrow> Panic p
           | (Ret (Inl err), _) \<Rightarrow> Ret (Inl err)
           | (Ret (Inr k), reg) \<Rightarrow>
               (case CreateGRPCServer listen (cf_grpcPort config) of
                  Some err \<Rightarrow> Ret (Inl (GrpcErr err))
                | None \<Rightarrow> Ret (Inr (k\<lparr>k_localIPs := boundIPs interfaceAddrs listenHosts\<rparr>, reg)))))"

section \<open>What an accepted configuration satisfies\<close>

lemma file_pod_wf: "registry_wf k \<Longrightarrow> registry_wf (file_pod p k)"
  unfolding registry_wf_def file_pod_def Let_def
  by (auto split: if_splits) (metis less_SucI less_irrefl option.distinct(1))+

lemma file_pod_frame [simp, frame_simps]:
  "ipPodMap (file_pod p k) = ipPodMap k" "chaosMap (file_pod p k) = chaosMap k"
  by (simp_all add: file_pod_def Let_def)

text \<open>What holds of the registry through the pods of a \<open>chaos\<close> line.\<close>

lemma chaos_args_loop_preserves:
  assumes "\<And>ns n k. P k \<Longrightarrow> P (file_pod (corefile_pod ns n action scope) k)"
    and "chaos_args_loop action scope args k = Inr k'" "P k"
  shows "P k'"
  using assms(2,3) by (induction args arbitrary: k) (auto intro: assms(1) split: list.splits)

definition corefile_registry :: "'sel registry \<Rightarrow> bool" where
  "corefile_registry k \<longleftrightarrow>
     registry_wf k \<and> ipPodMap k = fmempty \<and> chaosMap k = fmempty \<and>
     (\<forall>a p. fmlookup (pod_heap k) a = Some p \<longrightarrow> pi_Selector p = None)"

lemma corefile_registry_file:
  "corefile_registry k \<Longrightarrow> corefile_registry (file_pod (corefile_pod ns n action scope) k)"
  using file_pod_wf [of k "corefile_pod ns n action scope"]
  by (auto simp: corefile_registry_def) (auto simp: file_pod_def corefile_pod_def Let_def split: if_splits)

definition config_ok :: "('ls, 'sel) Config \<Rightarrow> bool" where
  "config_ok k \<longleftrightarrow>
     unat (cf_ttl k) \<le> 3600 \<and> cf_podMode k \<in> {podModeDisabled, podModeInsecure, podModeVerified} \<and>
     corefile_registry (cf_registry k)"

lemma ttl_bound: "0 \<le> t \<Longrightarrow> t \<le> 3600 \<Longrightarrow> unat (of_int t :: uint32) \<le> 3600"
proof -
  assume "0 \<le> t" "t \<le> 3600"
  then have "of_int t = (of_nat (nat t) :: uint32)" "nat t \<le> 3600" by simp_all
  then show ?thesis by (simp add: unat_of_nat take_bit_nat_eq_self)
qed

lemma parse_directive_ok:
  assumes "parse_directive sl val args k = Inr k'" "config_ok k"
  shows "config_ok k'"
  using assms
  by (auto simp: parse_directive_def config_ok_def Let_def ttl_bound
      intro: chaos_args_loop_preserves [where P = corefile_registry, OF corefile_registry_file]
      split: if_splits sum.splits option.splits)

lemma parse_directive_frame:
  assumes "parse_directive sl val args k = Inr k'"
  shows "cf_Zones k' = cf_Zones k \<and> cf_primaryZoneIndex k' = cf_primaryZoneIndex k \<and>
         cf_autoPathSearch k' = cf_autoPathSearch k \<and> opt_initPodCache (cf_opts k') = opt_initPodCache (cf_opts k)"
  using assms by (auto simp: parse_directive_def Let_def split: if_splits sum.splits option.splits)

lemma block_loop_ok:
  "block_loop sl ls k = Inr k' \<Longrightarrow> config_ok k \<Longrightarrow> config_ok k'"
  by (induction sl ls k rule: block_loop.induct) (auto split: sum.splits dest: parse_directive_ok)

lemma block_loop_frame:
  "block_loop sl ls k = Inr k' \<Longrightarrow>
   cf_Zones k' = cf_Zones k \<and> cf_primaryZoneIndex k' = cf_primaryZoneIndex k \<and>
   cf_autoPathSearch k' = cf_autoPathSearch k \<and> opt_initPodCache (cf_opts k') = opt_initPodCache (cf_opts k)"
  by (induction sl ls k rule: block_loop.induct) (auto split: sum.splits dest: parse_directive_frame)

lemma primary_loop_first:
  assumes "primary_loop x i zs \<noteq> -1" "0 \<le> i"
  shows "\<exists>n < length zs. primary_loop x i zs = i + int n \<and> \<not> IsReverse x (zs ! n) > 0 \<and>
           (\<forall>j < n. IsReverse x (zs ! j) > 0)"
  using assms
proof (induction zs arbitrary: i)
  case (Cons z zs)
  show ?case
  proof (cases "IsReverse x z > 0")
    case True
    with Cons.prems Cons.IH [of "i + 1"] obtain n where
      "n < length zs" "primary_loop x (i + 1) zs = i + 1 + int n" "\<not> IsReverse x (zs ! n) > 0"
      "\<forall>j < n. IsReverse x (zs ! j) > 0" by auto
    with True show ?thesis by (intro exI [of _ "Suc n"]) (auto simp: nth_Cons split: nat.splits)
  qed auto
qed simp

lemma ParseStanza_inv:
  assumes "ParseStanza x sl keys c = Inr k"
  shows "config_ok k \<and> opt_initPodCache (cf_opts k) = False \<and>
         cf_Zones k = map (Normalize sl) (if st_args c = [] then keys else st_args c) \<and>
         cf_primaryZoneIndex k = primary_loop x 0 (cf_Zones k) \<and> cf_primaryZoneIndex k \<noteq> -1 \<and>
         (cf_Namespaces k = {||} \<or> cf_namespaceLabelSelector k = None)"
proof -
  let ?zones = "map (Normalize sl) (if st_args c = [] then keys else st_args c)"
  let ?k0 = "(New [''''] :: ('a, 'b) Config)
     \<lparr>cf_Zones := ?zones, cf_primaryZoneIndex := primary_loop x 0 ?zones, cf_autoPathSearch := searchFromResolvConf sl,
      cf_opts := \<lparr>opt_initPodCache = False, opt_initEndpointsCache = True, opt_ignoreEmptyService = False\<rparr>\<rparr>"
  have ok: "config_ok ?k0"
    using empty_registry_wf by (auto simp: config_ok_def New_def corefile_registry_def empty_registry_def)
  from assms have "block_loop sl (st_block c) ?k0 = Inr k" "primary_loop x 0 ?zones \<noteq> -1"
      "fcard (cf_Namespaces k) = 0 \<or> cf_namespaceLabelSelector k = None"
    by (auto simp: ParseStanza_def Let_def New_def split: if_splits sum.splits)
  with block_loop_ok [OF this(1) ok] block_loop_frame [OF this(1)] show ?thesis by (simp add: fcard_0_eq)
qed

text \<open>
  C24: an accepted configuration is sane.  The TTL is at most an hour, the pod mode is one of the
  three, the zones are the given ones (or those of the server block) normalised, the primary zone
  is the first that is not a reverse zone, namespaces are not selected both by name and by label,
  and the chaos entries are well formed, none of them reachable by an address yet.
\<close>

theorem ParseStanza_sane:
  assumes "ParseStanza x sl keys c = Inr k"
  shows "unat (cf_ttl k) \<le> 3600 \<and> cf_podMode k \<in> {podModeDisabled, podModeInsecure, podModeVerified} \<and>
         cf_Zones k = map (Normalize sl) (if st_args c = [] then keys else st_args c) \<and>
         (\<exists>n < length (cf_Zones k). cf_primaryZoneIndex k = int n \<and> \<not> IsReverse x (cf_Zones k ! n) > 0 \<and>
            (\<forall>j < n. IsReverse x (cf_Zones k ! j) > 0)) \<and>
         (cf_Namespaces k = {||} \<or> cf_namespaceLabelSelector k = None) \<and>
         registry_wf (cf_registry k) \<and> ipPodMap (cf_registry k) = fmempty"
  using ParseStanza_inv [OF assms] primary_loop_first [of x 0 "cf_Zones k"]
  by (auto simp: config_ok_def corefile_registry_def)

section \<open>Which stanzas are accepted\<close>

text \<open>
  The lines that no stanza may contain: what each directive refuses.  Any arguments are allowed on a
  \<open>fallthrough\<close> line, and further arguments on \<open>ttl\<close> and \<open>ignore\<close> lines; an \<open>ignore\<close> line
  without an argument and a \<open>grpcport\<close> line with none or several are allowed too.
\<close>

definition known_directives :: "string set" where
  "known_directives =
     {''endpoint_pod_names'', ''pods'', ''namespaces'', ''endpoint'', ''tls'', ''labels'', ''namespace_labels'',
      ''fallthrough'', ''ttl'', ''transfer'', ''noendpoints'', ''ignore'', ''kubeconfig'', ''grpcport'', ''chaos''}"

definition malformed :: "'ls setup_lib \<Rightarrow> string \<times> string list \<Rightarrow> bool" where
  "malformed sl = (\<lambda>(val, args).
     val \<notin> known_directives \<or>
     val \<in> {''endpoint_pod_names'', ''noendpoints''} \<and> args \<noteq> [] \<or>
     val = ''pods'' \<and> args \<notin> {[podModeDisabled], [podModeInsecure], [podModeVerified]} \<or>
     val \<in> {''namespaces'', ''endpoint'', ''labels'', ''namespace_labels''} \<and> args = [] \<or>
     val \<in> {''labels'', ''namespace_labels''} \<and> isl (ParseToLabelSelector sl (Join args '' '')) \<or>
     val = ''tls'' \<and> length args \<noteq> 3 \<or>
     val = ''kubeconfig'' \<and> length args \<noteq> 2 \<or>
     val = ''ttl'' \<and> (args = [] \<or> (\<forall>t \<in> {0..3600}. Atoi (hd args) \<noteq> Some t)) \<or>
     val = ''transfer'' \<and> (\<forall>tos. parse_Transfer sl args \<noteq> Inr (tos, [])) \<or>
     val = ''ignore'' \<and> args \<noteq> [] \<and> hd args \<noteq> ''empty_service'' \<or>
     val = ''grpcport'' \<and> length args = 1 \<and> Atoi (hd args) = None \<or>
     val = ''chaos'' \<and> (length args < 3 \<or> (\<exists>arg \<in> set (drop 2 args). CHR ''.'' \<notin> set arg)))"

lemma chaos_args_loop_accepts:
  "(\<exists>k'. chaos_args_loop action scope args k = Inr k') \<longleftrightarrow> (\<forall>arg \<in> set args. CHR ''.'' \<in> set arg)"
proof (induction args arbitrary: k)
  case (Cons arg args)
  show ?case
  proof (cases "CHR ''.'' \<in> set arg")
    case True
    then obtain a b where "SplitN2 arg CHR ''.'' = [a, b]" by (simp add: SplitN2_def)
    with True Cons.IH show ?thesis by simp
  next
    case False
    then show ?thesis by (auto simp: SplitN2_def)
  qed
qed simp

lemma parse_chaos_accepts:
  "(\<exists>k'. parse_directive sl ''chaos'' args k = Inr k') \<longleftrightarrow> \<not> malformed sl (''chaos'', args)"
  using chaos_args_loop_accepts [of "args ! 0" "args ! 1" "drop 2 args" "cf_registry k"]
  by (auto simp: parse_directive_def malformed_def known_directives_def split: sum.split)


lemma parse_directive_accepts:
  "(\<exists>k'. parse_directive sl val args k = Inr k') \<longleftrightarrow> \<not> malformed sl (val, args)"
proof (cases "val \<in> known_directives")
  case True
  then show ?thesis
    unfolding known_directives_def insert_iff empty_iff
  proof (elim disjE)
    assume "val = ''chaos''"
    then show ?thesis using parse_chaos_accepts by blast
  qed (auto simp: parse_directive_def malformed_def known_directives_def length_Suc_conv isl_def Let_def
        hd_conv_nth split: sum.splits option.splits if_splits)
next
  case False
  then show ?thesis by (simp add: parse_directive_def malformed_def) (simp add: known_directives_def)
qed

lemma fold_finsert_empty: "fold finsert xs S = {||} \<longleftrightarrow> S = {||} \<and> xs = []"
  by (induction xs arbitrary: S) auto

lemma parse_directive_selectors:
  assumes "parse_directive sl val args k = Inr k'"
  shows "(cf_Namespaces k' = {||} \<longleftrightarrow> cf_Namespaces k = {||} \<and> val \<noteq> ''namespaces'') \<and>
         (cf_namespaceLabelSelector k' = None \<longleftrightarrow> cf_namespaceLabelSelector k = None \<and> val \<noteq> ''namespace_labels'')"
  using assms
  by (auto simp: parse_directive_def Let_def fold_finsert_empty split: if_splits sum.splits option.splits)

definition has_line :: "string \<Rightarrow> (string \<times> string list) list \<Rightarrow> bool" where
  "has_line val ls \<longleftrightarrow> val \<in> fst ` set ls"

lemma block_loop_selectors:
  "block_loop sl ls k = Inr k' \<Longrightarrow>
   (cf_Namespaces k' = {||} \<longleftrightarrow> cf_Namespaces k = {||} \<and> \<not> has_line ''namespaces'' ls) \<and>
   (cf_namespaceLabelSelector k' = None \<longleftrightarrow>
      cf_namespaceLabelSelector k = None \<and> \<not> has_line ''namespace_labels'' ls)"
  by (induction sl ls k rule: block_loop.induct)
    (auto simp: has_line_def split: sum.splits dest!: parse_directive_selectors)

lemma block_loop_accepts:
  "(\<exists>k'. block_loop sl ls k = Inr k') \<longleftrightarrow> (\<forall>l \<in> set ls. \<not> malformed sl l)"
proof (induction sl ls k rule: block_loop.induct)
  case (2 sl val args ls k)
  then show ?case using parse_directive_accepts [of sl val args k] by (auto split: sum.split)
qed simp

lemma primary_loop_exists:
  "0 \<le> i \<Longrightarrow> primary_loop x i zs = -1 \<longleftrightarrow> (\<forall>z \<in> set zs. IsReverse x z > 0)"
  by (induction zs arbitrary: i) auto

text \<open>
  C25: a stanza is accepted exactly when one of its zones (or of the server block's, when it names
  none) is not a reverse zone, none of its lines is malformed, and it does not have both a
  \<open>namespaces\<close> and a \<open>namespace_labels\<close> line; every other stanza is rejected, wherever the
  offending line stands and whatever the other lines say.  Lines are malformed in the sense of the
  code, for each of its fifteen directives, which lets through an \<open>ignore\<close> line without an argument
  and a \<open>grpcport\<close> line without exactly one, and refuses a \<open>chaos\<close> line that names no pod.
\<close>

theorem ParseStanza_accepts:
  "(\<exists>k. (ParseStanza x sl keys c :: setup_err + ('ls, 'sel) Config) = Inr k) \<longleftrightarrow>
     (\<exists>z \<in> set (if st_args c = [] then keys else st_args c). \<not> IsReverse x (Normalize sl z) > 0) \<and>
     (\<forall>l \<in> set (st_block c). \<not> malformed sl l) \<and>
     \<not> (has_line ''namespaces'' (st_block c) \<and> has_line ''namespace_labels'' (st_block c))"
proof -
  let ?zones = "map (Normalize sl) (if st_args c = [] then keys else st_args c)"
  let ?k0 = "(New [''''] :: ('ls, 'sel) Config)
     \<lparr>cf_Zones := ?zones, cf_primaryZoneIndex := primary_loop x 0 ?zones, cf_autoPathSearch := searchFromResolvConf sl,
      cf_opts := \<lparr>opt_initPodCache = False, opt_initEndpointsCache = True, opt_ignoreEmptyService = False\<rparr>\<rparr>"
  have eq: "ParseStanza x sl keys c =
      (if primary_loop x 0 ?zones = -1 then Inl NonReverseZoneNeeded
       else case block_loop sl (st_block c) ?k0 of
              Inl err \<Rightarrow> Inl err
            | Inr k \<Rightarrow> if fcard (cf_Namespaces k) \<noteq> 0 \<and> cf_namespaceLabelSelector k \<noteq> None
                       then Inl NamespacesAndLabels else Inr k)"
    by (simp add: ParseStanza_def Let_def New_def)
  have "(\<exists>k. (ParseStanza x sl keys c :: setup_err + ('ls, 'sel) Config) = Inr k) \<longleftrightarrow>
      primary_loop x 0 ?zones \<noteq> -1 \<and>
      (\<exists>k'. block_loop sl (st_block c) ?k0 = Inr k' \<and>
            (cf_Namespaces k' = {||} \<or> cf_namespaceLabelSelector k' = None))"
    unfolding eq by (auto simp: fcard_0_eq split: sum.split)
  also have "\<dots> \<longleftrightarrow> primary_loop x 0 ?zones \<noteq> -1 \<and> (\<exists>k'. block_loop sl (st_block c) ?k0 = Inr k') \<and>
      \<not> (has_line ''namespaces'' (st_block c) \<and> has_line ''namespace_labels'' (st_block c))"
    using block_loop_selectors [of sl "st_block c" ?k0] by (auto simp: New_def)
  finally show ?thesis
    unfolding block_loop_accepts by (simp add: primary_loop_exists Bex_def conj_assoc)
qed

section \<open>Pods of the configuration\<close>

text \<open>The entry filed under a namespace and a name.\<close>

definition filed :: "'sel registry \<Rightarrow> string \<times> string \<Rightarrow> 'sel PodInfo option" where
  "filed k key = (case pod_lookup (podMap k) key of None \<Rightarrow> None | Some a \<Rightarrow> fmlookup (pod_heap k) a)"

lemma filed_file_pod:
  assumes "registry_wf k"
  shows "filed (file_pod p k) key = (if key = (pi_Namespace p, pi_Name p) then Some p else filed k key)"
proof -
  have "a \<noteq> heap_next k" if "pod_lookup (podMap k) key = Some a" for a
    using that registry_wf_podD [OF assms, of "fst key" "snd key" a] registry_wf_fresh [OF assms] by auto
  then show ?thesis by (auto simp: filed_def file_pod_def Let_def split: option.split)
qed

definition print_pod :: "string \<times> string \<Rightarrow> string" where
  "print_pod key = fst key @ ''.'' @ snd key"

lemma SplitN2_print_pod: "CHR ''.'' \<notin> set (fst key) \<Longrightarrow> SplitN2 (print_pod key) CHR ''.'' = [fst key, snd key]"
  using SplitN2_Join [of "CHR ''.''" "fst key" "snd key"] by (simp add: print_pod_def)

lemma chaos_args_loop_files:
  assumes "registry_wf k" "list_all (\<lambda>key. CHR ''.'' \<notin> set (fst key)) pods"
  shows "\<exists>k'. chaos_args_loop action scope (map print_pod pods) k = Inr k' \<and> registry_wf k' \<and>
           filed k' = (\<lambda>key. if key \<in> set pods then Some (corefile_pod (fst key) (snd key) action scope)
                            else filed k key)"
  using assms
proof (induction pods arbitrary: k)
  case (Cons key pods)
  let ?k = "file_pod (corefile_pod (fst key) (snd key) action scope) k"
  have "registry_wf ?k" using Cons.prems(1) by (rule file_pod_wf)
  with Cons.IH [of ?k] Cons.prems obtain k' where
    "chaos_args_loop action scope (map print_pod pods) ?k = Inr k'" "registry_wf k'"
    "filed k' = (\<lambda>key. if key \<in> set pods then Some (corefile_pod (fst key) (snd key) action scope) else filed ?k key)"
    by auto
  moreover have "filed ?k = (\<lambda>key'. if key' = key then Some (corefile_pod (fst key) (snd key) action scope) else filed k key')"
    by (rule ext) (auto simp: filed_file_pod [OF Cons.prems(1)], auto simp: corefile_pod_def)
  ultimately show ?case using Cons.prems(2) by (auto simp: SplitN2_print_pod fun_eq_iff)
qed auto

text \<open>
  C26: writing the pods of a \<open>chaos\<close> line as \<open>Namespace.PodName\<close> and parsing the line files exactly
  these pods with the action and the scope of the line, and leaves the pods of other lines alone;
  only the first dot separates, so a pod's name may contain dots.
\<close>

theorem chaos_line_roundtrip:
  assumes "registry_wf (cf_registry k)" "pods \<noteq> []" "list_all (\<lambda>key. CHR ''.'' \<notin> set (fst key)) pods"
  shows "\<exists>k'. parse_directive sl ''chaos'' (action # scope # map print_pod pods) k = Inr k' \<and>
           filed (cf_registry k') =
             (\<lambda>key. if key \<in> set pods then Some (corefile_pod (fst key) (snd key) action scope)
                    else filed (cf_registry k) key) \<and>
           k'\<lparr>cf_registry := cf_registry k\<rparr> = k"
proof -
  from chaos_args_loop_files [OF assms(1,3)] obtain reg where
    "chaos_args_loop action scope (map print_pod pods) (cf_registry k) = Inr reg"
    "filed reg = (\<lambda>key. if key \<in> set pods then Some (corefile_pod (fst key) (snd key) action scope)
                        else filed (cf_registry k) key)" by blast
  moreover have "length pods \<ge> 1" using assms(2) by (cases pods) auto
  ultimately show ?thesis by (simp add: parse_directive_def)
qed

section \<open>Start-up\<close>

declare wait_sync.simps [simp del]

lemma wait_sync_from:
  "i \<le> 50 \<Longrightarrow>
   wait_sync synced timer_first i =
     (if \<exists>j \<in> {i..<50}. synced j then 100 * (LEAST j. i \<le> j \<and> synced j) else 5000)"
proof (induction "50 - i" arbitrary: i)
  case 0
  then have "i = 50" by simp
  moreover have "wait_sync synced b 51 = 5000" for b by (subst wait_sync.simps) simp
  ultimately show ?case by (subst wait_sync.simps) simp
next
  case (Suc n)
  then have i: "i < 50" by simp
  show ?case
  proof (cases "synced i")
    case True
    then have "(LEAST j. i \<le> j \<and> synced j) = i" by (intro Least_equality) auto
    moreover have "\<exists>j \<in> {i..<50}. synced j" using True i by auto
    ultimately show ?thesis using i True by (subst wait_sync.simps) simp
  next
    case False
    then have same: "i \<le> j \<and> synced j \<longleftrightarrow> Suc i \<le> j \<and> synced j" for j
      by (metis Suc_leD le_antisym not_less_eq_eq)
    then have "(\<exists>j \<in> {i..<50}. synced j) \<longleftrightarrow> (\<exists>j \<in> {Suc i..<50}. synced j)"
      by (meson atLeastLessThan_iff)
    moreover have "wait_sync synced timer_first i = wait_sync synced timer_first (Suc i)"
      using i False by (subst wait_sync.simps) simp
    ultimately show ?thesis using Suc.hyps(1) [of "Suc i"] Suc.hyps(2) i same by simp
  qed
qed

text \<open>
  C27: start-up never blocks: the hook returns after at most five seconds whatever the API server
  does, and at the first tick at which the caches are filled when there is one before that.
\<close>

theorem wait_sync_bounded:
  "wait_sync synced timer_first 1 \<le> 5000 \<and>
   (if \<exists>i \<in> {1..<50}. synced i
    then wait_sync synced timer_first 1 = 100 * (LEAST i. 1 \<le> i \<and> synced i)
    else wait_sync synced timer_first 1 = 5000)"
proof -
  have "(LEAST i. 1 \<le> i \<and> synced i) \<le> 50" if "i \<in> {1..<50}" "synced i" for i
    using that by (intro Least_le [THEN order_trans]) auto
  then show ?thesis using wait_sync_from [of 1 synced timer_first] by auto
qed

section \<open>From the configuration to the running server\<close>

text \<open>
  Looking up the pods of the configuration keeps the registry well formed and its maps in step:
  each entry is visited once, gets its address, and is entered under it.
\<close>

definition init_ready :: "'sel registry \<Rightarrow> addr list \<Rightarrow> bool" where
  "init_ready k as \<longleftrightarrow>
     registry_wf k \<and> registry_synced k \<and> distinct as \<and>
     (\<forall>a \<in> set as. (\<exists>key. pod_lookup (podMap k) key = Some a) \<and> (\<forall>ip. fmlookup (ipPodMap k) ip \<noteq> Some a))"

lemma init_ready_step:
  assumes "init_ready k (a # as)" "fmlookup (pod_heap k) a = Some p"
  shows "init_ready (k\<lparr>pod_heap := fmupd a (p\<lparr>pi_IP := ip, pi_LastUpdateTime := t\<rparr>) (pod_heap k),
                       ipPodMap := fmupd ip a (ipPodMap k)\<rparr>) as"
proof -
  let ?k = "k\<lparr>pod_heap := fmupd a (p\<lparr>pi_IP := ip, pi_LastUpdateTime := t\<rparr>) (pod_heap k),
              ipPodMap := fmupd ip a (ipPodMap k)\<rparr>"
  have wf: "registry_wf k" and sync: "registry_synced k" using assms(1) by (auto simp: init_ready_def)
  obtain ns n where "pod_lookup (podMap k) (ns, n) = Some a" using assms(1) by (auto simp: init_ready_def)
  moreover from registry_wf_podD [OF wf this] assms(2) have "pi_Namespace p = ns" "pi_Name p = n" by auto
  ultimately have key: "pod_lookup (podMap k) (pi_Namespace p, pi_Name p) = Some a" by simp
  have free: "fmlookup (ipPodMap k) ip' \<noteq> Some a" for ip' using assms(1) by (auto simp: init_ready_def)
  have "registry_wf ?k" using wf assms(2) unfolding registry_wf_def by (auto split: if_splits) (metis option.inject)+
  moreover have "registry_synced ?k"
    unfolding registry_synced_def
  proof (intro allI impI)
    fix ip' b assume "fmlookup (ipPodMap ?k) ip' = Some b"
    then consider "ip' = ip" "b = a" | "ip' \<noteq> ip" "fmlookup (ipPodMap k) ip' = Some b" by (auto split: if_splits)
    then show "\<exists>q. fmlookup (pod_heap ?k) b = Some q \<and> pi_IP q = ip' \<and>
        pod_lookup (podMap ?k) (pi_Namespace q, pi_Name q) = Some b"
    proof cases
      case 1
      then show ?thesis using key by simp
    next
      case 2
      then show ?thesis using free synced_addD [OF sync 2(2)] by auto
    qed
  qed
  ultimately show ?thesis using assms(1) by (auto simp: init_ready_def)
qed

lemma init_pods_ready:
  assumes "init_ready k as"
  shows "registry_wf (fst (init_pods env i as k)) \<and> registry_synced (fst (init_pods env i as k))"
  using assms
proof (induction as arbitrary: i k)
  case (Cons a as)
  then obtain p where p: "fmlookup (pod_heap k) a = Some p"
    by (auto simp: init_ready_def dest: registry_wf_podD)
  have "registry_wf k" "registry_synced k" using Cons.prems by (auto simp: init_ready_def)
  then show ?case
    using p Cons.IH [OF init_ready_step [OF Cons.prems p]] by (auto split: prod.splits option.splits)
qed (auto simp: init_ready_def)

text \<open>Once all pods are looked up, the address of each of them leads to an entry.\<close>

definition reachable_pods :: "'sel registry \<Rightarrow> addr set \<Rightarrow> bool" where
  "reachable_pods k pending \<longleftrightarrow>
     (\<forall>key a p. pod_lookup (podMap k) key = Some a \<and> a \<notin> pending \<and> fmlookup (pod_heap k) a = Some p \<longrightarrow>
        fmlookup (ipPodMap k) (pi_IP p) \<noteq> None)"

lemma init_pods_reachable:
  "init_pods env i as k = (k', Ret None) \<Longrightarrow> reachable_pods k (set as) \<Longrightarrow> reachable_pods k' {}"
proof (induction as arbitrary: i k)
  case (Cons a as)
  then obtain p v where "fmlookup (pod_heap k) a = Some p"
      "getPodFromCluster (env_client (env i)) (pi_Namespace p) (pi_Name p) = (Some v, None)"
    by (auto split: option.splits prod.splits)
  moreover have "reachable_pods (k\<lparr>pod_heap := fmupd a (p\<lparr>pi_IP := ap_PodIP v, pi_LastUpdateTime := t\<rparr>) (pod_heap k),
      ipPodMap := fmupd (ap_PodIP v) a (ipPodMap k)\<rparr>) (set as)" for t
    using Cons.prems(2) unfolding reachable_pods_def by (auto split: if_splits) metis
  ultimately show ?case using Cons.IH Cons.prems(1) by simp
qed simp

text \<open>The other fields of the entries stay.\<close>

lemma init_pods_entries:
  "fmlookup (pod_heap (fst (init_pods env i as k))) a = Some p \<Longrightarrow>
   \<exists>q. fmlookup (pod_heap k) a = Some q \<and> p = q\<lparr>pi_IP := pi_IP p, pi_LastUpdateTime := pi_LastUpdateTime p\<rparr>"
proof (induction as arbitrary: i k)
  case (Cons b as)
  show ?case
  proof (cases "fmlookup (pod_heap k) b")
    case (Some q)
    obtain v e where pod: "getPodFromCluster (env_client (env i)) (pi_Namespace q) (pi_Name q) = (v, e)" by (metis surj_pair)
    have stop: ?thesis if "fst (init_pods env i (b # as) k) = k"
      using Cons.prems unfolding that by (intro exI [of _ p]) simp
    show ?thesis
    proof (cases "\<exists>w. v = Some w \<and> e = None")
      case True
      then obtain w where "v = Some w" "e = None" by blast
      with Some Cons.prems pod have "fmlookup (pod_heap (fst (init_pods env (Suc i) as
          (k\<lparr>pod_heap := fmupd b (q\<lparr>pi_IP := ap_PodIP w, pi_LastUpdateTime := env_now (env i)\<rparr>) (pod_heap k),
             ipPodMap := fmupd (ap_PodIP w) b (ipPodMap k)\<rparr>)))) a = Some p" by simp
      from Cons.IH [OF this] show ?thesis using Some by (auto split: if_splits)
    next
      case False
      with Some pod show ?thesis by (intro stop) (cases v; cases e; simp)
    qed
  next
    case None
    then show ?thesis using Cons.prems by (intro exI [of _ p]) simp
  qed
qed simp

lemma kubernetesParse_stanza:
  assumes "kubernetesParse x sl keys cs = Inr (Some k)"
  shows "\<exists>c. cs = [c] \<and> ParseStanza x sl keys c = Inr k"
proof (cases cs)
  case (Cons c cs')
  with assms show ?thesis by (cases cs') (auto simp: kubernetesParse_def split: sum.splits)
qed (use assms in \<open>simp add: kubernetesParse_def\<close>)

lemma pod_update_selector: "p = q\<lparr>pi_IP := ip, pi_LastUpdateTime := t\<rparr> \<Longrightarrow> pi_Selector p = pi_Selector q"
  by simp

lemma pod_update_scope: "p = q\<lparr>pi_IP := ip, pi_LastUpdateTime := t\<rparr> \<Longrightarrow> pi_Scope p = pi_Scope q"
  by simp

definition running_opts :: "('ls, 'sel) Config \<Rightarrow> dnsControlOpts" where
  "running_opts k = (cf_opts k)\<lparr>opt_initPodCache := (cf_podMode k = podModeVerified)\<rparr>"

lemma InitKubeCache_running:
  assumes "InitKubeCache cl order k = (Ret (Inr running), reg)"
  shows "\<exists>infs env. running = kubernetes_of k (running_opts k) (dnsControl_api (newdnsController infs (running_opts k))) \<and>
           init_pods env 0 order (cf_registry k) = (reg, Ret None)"
  using assms
  by (auto simp: InitKubeCache_def Let_def running_opts_def split: sum.splits go.splits prod.splits option.splits)

lemma setup_plugin_steps:
  fixes reg :: "'sel registry" and config :: "('ls, 'sel) Config"
  assumes "setup_plugin x sl cl listen ifaces hosts keys order cs = Ret (Inr (k, reg))"
    and "kubernetesParse x sl keys cs = Inr (Some config)"
  shows "\<exists>running. InitKubeCache cl order config = (Ret (Inr running), reg) \<and>
           k = running\<lparr>k_localIPs := boundIPs ifaces hosts\<rparr>"
  using assms by (auto simp: setup_plugin_def split: go.splits prod.splits sum.splits option.splits)

lemma setup_plugin_inv:
  fixes reg :: "'sel registry"
  assumes "setup_plugin x sl cl listen ifaces hosts keys order cs = Ret (Inr (k, reg))"
    and "kubernetesParse x sl keys cs = Inr (Some (config :: ('ls, 'sel) Config))"
    and "visits_pods (podMap (cf_registry config)) order"
  shows "(\<exists>infs. initialised infs k) \<and> unat (k_ttl k) \<le> 3600 \<and> registry_wf reg \<and> registry_synced reg \<and>
         reachable_pods reg {} \<and> opt_initEndpointsCache (k_opts k) = opt_initEndpointsCache (cf_opts config) \<and>
         (\<forall>a p. fmlookup (pod_heap reg) a = Some p \<longrightarrow>
            (\<exists>q. fmlookup (pod_heap (cf_registry config)) a = Some q \<and>
                 p = q\<lparr>pi_IP := pi_IP p, pi_LastUpdateTime := pi_LastUpdateTime p\<rparr>))"
proof -
  obtain c where "ParseStanza x sl keys c = Inr config" using kubernetesParse_stanza [OF assms(2)] by blast
  note parsed = ParseStanza_inv [OF this]
  from parsed primary_loop_first [of x 0 "cf_Zones config"]
  have zone: "0 \<le> cf_primaryZoneIndex config" "cf_primaryZoneIndex config < int (length (cf_Zones config))" by auto
  have ok: "config_ok config" using parsed by blast
  then have reg0: "corefile_registry (cf_registry config)" by (simp add: config_ok_def)
  then have "init_ready (cf_registry config) order"
    using assms(3) by (auto simp: init_ready_def visits_pods_def corefile_registry_def registry_synced_def)
  note ready = init_pods_ready [OF this]
  obtain infs env where init: "init_pods env 0 order (cf_registry config) = (reg, Ret None)"
      and k: "k = (kubernetes_of config (running_opts config)
                     (dnsControl_api (newdnsController infs (running_opts config))))
                  \<lparr>k_localIPs := boundIPs ifaces hosts\<rparr>"
    using setup_plugin_steps [OF assms(1,2)] InitKubeCache_running by blast
  have "initialised infs k"
    using zone ok unfolding k by (auto simp: initialised_def kubernetes_of_def config_ok_def running_opts_def)
  moreover have "unat (k_ttl k) \<le> 3600" using ok unfolding k by (simp add: kubernetes_of_def config_ok_def)
  moreover have "opt_initEndpointsCache (k_opts k) = opt_initEndpointsCache (cf_opts config)"
    unfolding k by (simp add: kubernetes_of_def running_opts_def)
  moreover have "reachable_pods (cf_registry config) (set order)"
    using assms(3) by (auto simp: reachable_pods_def visits_pods_def)
  then have "reachable_pods reg {}" by (rule init_pods_reachable [OF init])
  ultimately show ?thesis
    using ready [of env 0] init_pods_entries [of env 0 order "cf_registry config"] unfolding init fst_conv by blast
qed

text \<open>
  C10: a successful start-up leaves the plugin ready to serve: the controller is built from the
  options, pods are cached exactly in verified mode, the primary zone exists, the TTL is at most an
  hour, and the chaos registry is well formed with both maps in step, in either direction: an
  address leads to the registered entry that carries it, and the address of every pod of the
  configuration leads to an entry, whatever the order in which the runtime visits these pods.
\<close>

theorem setup_establishes:
  fixes reg :: "'sel registry" and config :: "('ls, 'sel) Config"
  assumes "setup_plugin x sl cl listen ifaces hosts keys order cs = Ret (Inr (k, reg))"
    and "kubernetesParse x sl keys cs = Inr (Some config)"
    and "visits_pods (podMap (cf_registry config)) order"
  shows "(\<exists>infs. initialised infs k) \<and> unat (k_ttl k) \<le> 3600 \<and> registry_wf reg \<and> registry_synced reg \<and>
    (\<forall>key a p. pod_lookup (podMap reg) key = Some a \<and> fmlookup (pod_heap reg) a = Some p \<longrightarrow>
       fmlookup (ipPodMap reg) (pi_IP p) \<noteq> None)"
  using setup_plugin_inv [OF assms] by (simp add: reachable_pods_def)

lemma setup_no_selector:
  fixes reg :: "'sel registry" and config :: "('ls, 'sel) Config"
  assumes "setup_plugin x sl cl listen ifaces hosts keys order cs = Ret (Inr (k, reg))"
    and "kubernetesParse x sl keys cs = Inr (Some config)"
    and "visits_pods (podMap (cf_registry config)) order"
    and "fmlookup (pod_heap reg) a = Some p"
  shows "pi_Selector p = None"
proof -
  obtain c where "ParseStanza x sl keys c = Inr config" using kubernetesParse_stanza [OF assms(2)] by blast
  from ParseStanza_inv [OF this] have "corefile_registry (cf_registry config)" by (simp add: config_ok_def)
  moreover obtain q where "fmlookup (pod_heap (cf_registry config)) a = Some q"
      "p = q\<lparr>pi_IP := pi_IP p, pi_LastUpdateTime := pi_LastUpdateTime p\<rparr>"
    using setup_plugin_inv [OF assms(1-3)] assms(4) by blast
  ultimately show ?thesis unfolding corefile_registry_def by (metis pod_update_selector)
qed

text \<open>
  C36: chaos from the configuration works for the scope \<open>all\<close> only.  A query from a pod that the
  configuration puts under chaos, answered right after start-up, is forged when the scope is
  \<open>all\<close>; for every other scope, in particular the documented scopes \<open>inner\<close> and \<open>outer\<close>, the
  handler dereferences the missing selector and the query crashes.
\<close>

theorem corefile_chaos:
  fixes reg :: "'sel registry" and config :: "('ls, 'sel) Config"
  assumes "setup_plugin x sl cl listen ifaces hosts keys order cs = Ret (Inr (k, reg))"
    and "kubernetesParse x sl keys cs = Inr (Some config)"
    and "visits_pods (podMap (cf_registry config)) order"
    and "registered reg (rq_IP r) = Some p" "confirmed env p" "pod_interface (qe_client env)"
    and "\<not> panics (getRecords x pl l k (r\<lparr>rq_Zone := ''''\<rparr>))"
  shows "snd (ServeDNS x pl l trie env k r reg) =
     (if pi_Scope p = ScopeAll then forged_reply x pl l (qe_draws env) k r p else Panic NilDereference)"
proof -
  have wf: "registry_wf reg" using setup_plugin_inv [OF assms(1-3)] by blast
  obtain a where "fmlookup (ipPodMap reg) (rq_IP r) = Some a" "fmlookup (pod_heap reg) a = Some p"
    using assms(4) by (auto simp: registered_def split: option.splits)
  then have none: "pi_Selector p = None" using setup_no_selector [OF assms(1-3)] by blast
  have "\<not> no_pod env p" by (rule pod_interface_no_pod [OF assms(6)])
  moreover obtain res where "getRecords x pl l k (r\<lparr>rq_Zone := ''''\<rparr>) = Ret res"
    using assms(7) unfolding not_panics_iff by blast
  ultimately show ?thesis
    using none assms(4,5) unfolding ServeDNS_general [OF wf] by (simp add: armed_def selects_def)
qed

text \<open>
  C3: from the configuration to the last reply.  When start-up succeeds, endpoints are cached and
  all chaos lines of the configuration have the scope \<open>all\<close>, the plugin's own code never crashes on
  a query, after any sequence of control calls and queries: the backend that it hands to package
  \<open>plugin\<close> returns for every syntactically valid name, and every query is answered unless one of the
  functions of package \<open>plugin\<close> that the handler calls for it crashes itself.  This takes from the
  libraries the behaviour of \<open>SplitDomainName\<close> and \<open>TrimZone\<close> on valid names, that \<open>Matches\<close>
  returns a suffix of the name, and that the API client gives a pod or an error.
\<close>

theorem served_after_setup:
  fixes reg :: "'sel registry" and config :: "('ls, 'sel) Config"
  assumes "setup_plugin x sl cl listen ifaces hosts keys order cs = Ret (Inr (k, reg))"
    and "kubernetesParse x sl keys cs = Inr (Some config)"
    and "visits_pods (podMap (cf_registry config)) order"
    and "opt_initEndpointsCache (cf_opts config)"
    and "\<And>a p. fmlookup (pod_heap (cf_registry config)) a = Some p \<Longrightarrow> pi_Scope p = ScopeAll"
    and "split_law x" "trim_cuts x" "matches_law x" "pod_interface (qe_client env)"
  shows "backend_safe (kubernetes_backend x pl k) \<and>
     ((\<exists>reply. snd (ServeDNS x pl l trie env k r (fold server_step es reg)) = Ret reply) \<or>
      library_crash x pl k r)"
proof -
  note inv = setup_plugin_inv [OF assms(1-3)]
  have "armed p" if "fmlookup (pod_heap reg) a = Some p" for a p
    using inv that assms(5) unfolding armed_def by (metis pod_update_scope)
  then have "server_inv reg" using inv by (simp add: server_inv_def)
  moreover obtain infs where init: "initialised infs k" using inv by blast
  moreover have eps: "opt_initEndpointsCache (k_opts k)" using inv assms(4) by blast
  ultimately have "(\<exists>reply. snd (ServeDNS x pl l trie env k r (fold server_step es reg)) = Ret reply) \<or>
      library_crash x pl k r"
    using server_run_replies [OF assms(8)] assms(9) by blast
  with initialised_backend_safe [OF assms(6,7) init eps] show ?thesis by blast
qed

section \<open>Examples\<close>

definition ex_setup :: "string setup_lib" where
  "ex_setup =
     \<lparr>Normalize = (\<lambda>s. s @ ''.''), ParseToLabelSelector = Inr,
      parse_Transfer = (\<lambda>args. if args \<noteq> [] \<and> hd args = ''to'' then Inr (tl args, []) else Inl (OtherErr ''transfer'')),
      ClientConfigFromFile = Inl (OtherErr ''no file'')\<rparr>"

definition ex_stanza :: "string \<Rightarrow> stanza" where
  "ex_stanza scope =
     \<lparr>st_args = [''cluster.local''],
      st_block = [(''pods'', [''insecure'']), (''ttl'', [''30'']), (''chaos'', [''error'', scope, ''default.a''])]\<rparr>"

definition ex_corefile_registry :: "string \<Rightarrow> string list registry" where
  "ex_corefile_registry scope = file_pod (corefile_pod ''default'' ''a'' ActionError scope) empty_registry"

definition ex_config :: "string \<Rightarrow> (string, string list) Config" where
  "ex_config scope =
     (New [''cluster.local.''])
       \<lparr>cf_opts := \<lparr>opt_initPodCache = False, opt_initEndpointsCache = True, opt_ignoreEmptyService = False\<rparr>,
        cf_podMode := podModeInsecure, cf_ttl := 30, cf_registry := ex_corefile_registry scope\<rparr>"

definition ex_client_lib :: "(string, unit) client_lib" where
  "ex_client_lib =
     \<lparr>kubeconfig_ClientConfig = (\<lambda>_. Inr ()), InClusterConfig = Inr (), overrides_ClientConfig = (\<lambda>_. Inr ()),
      set_ContentType = (\<lambda>_ c. c),
      NewForConfig = (\<lambda>_. Inr \<lparr>kc_pods = ex_env, kc_informers = (\<lambda>_ _. stores [] [] [] [])\<rparr>),
      LabelSelectorAsSelector = Inr\<rparr>"

lemma ex_parsed: "ParseStanza ex_lib ex_setup [] (ex_stanza scope) = Inr (ex_config scope)"
proof -
  have "Atoi ''30'' = Some 30" by (simp add: Atoi_def is_digit_def digit_val_def byte_of_def)
  moreover have "SplitN2 ''default.a'' CHR ''.'' = [''default'', ''a'']" by (simp add: SplitN2_def)
  ultimately show ?thesis
    by (simp add: ParseStanza_def ex_stanza_def parse_directive_def ex_setup_def searchFromResolvConf_def New_def
        ex_lib_def ex_config_def ex_corefile_registry_def)
qed

lemma ex_kubernetesParse: "kubernetesParse ex_lib ex_setup [] [ex_stanza scope] = Inr (Some (ex_config scope))"
  by (simp add: kubernetesParse_def ex_parsed)

theorem ParseStanza_sane_witness:
  "unat (cf_ttl (ex_config ScopeAll)) \<le> 3600 \<and> registry_wf (cf_registry (ex_config ScopeAll))"
  using ParseStanza_sane [OF ex_parsed] by blast

theorem ParseStanza_accepts_witness:
  "(\<exists>k. (ParseStanza ex_lib ex_setup [] (ex_stanza ScopeAll) :: setup_err + (string, string list) Config) = Inr k) \<and>
   \<not> (\<exists>k. (ParseStanza ex_lib ex_setup [] ((ex_stanza ScopeAll)\<lparr>st_block := [(''tls'', [''cert''])]\<rparr>)
            :: setup_err + (string, string list) Config) = Inr k)"
proof -
  have "malformed ex_setup (''tls'', [''cert''])" by (simp add: malformed_def)
  then show ?thesis
    using ParseStanza_accepts [where x = ex_lib and sl = ex_setup and keys = "[]" and 'sel = "string list" and
        c = "(ex_stanza ScopeAll)\<lparr>st_block := [(''tls'', [''cert''])]\<rparr>"]
    by (simp add: ex_parsed)
qed

theorem chaos_line_roundtrip_witness:
  "\<exists>k'. parse_directive ex_setup ''chaos'' [''error'', ''all'', ''ns.a.b''] (ex_config ScopeAll) = Inr k' \<and>
        filed (cf_registry k') (''ns'', ''a.b'') = Some (corefile_pod ''ns'' ''a.b'' ActionError ScopeAll)"
proof -
  have "registry_wf (cf_registry (ex_config ScopeAll))"
    by (simp add: ex_config_def ex_corefile_registry_def file_pod_wf empty_registry_wf)
  from chaos_line_roundtrip [OF this, of "[(''ns'', ''a.b'')]" ex_setup ActionError ScopeAll]
  show ?thesis by (auto simp: print_pod_def)
qed

text \<open>The plugin and the registry that this configuration leads to.\<close>

definition ex_started_k :: "string \<Rightarrow> Kubernetes" where
  "ex_started_k scope =
     kubernetes_of (ex_config scope) (running_opts (ex_config scope))
       (dnsControl_api (newdnsController (stores [] [] [] []) (running_opts (ex_config scope))))"

definition ex_started_pod :: "string \<Rightarrow> string list PodInfo" where
  "ex_started_pod scope =
     (corefile_pod ''default'' ''a'' ActionError scope)\<lparr>pi_IP := ''10.0.0.1'', pi_LastUpdateTime := 0\<rparr>"

definition ex_started_reg :: "string \<Rightarrow> string list registry" where
  "ex_started_reg scope =
     (ex_corefile_registry scope)
       \<lparr>pod_heap := fmupd 0 (ex_started_pod scope) (pod_heap (ex_corefile_registry scope)),
        ipPodMap := fmupd ''10.0.0.1'' 0 (ipPodMap (ex_corefile_registry scope))\<rparr>"

lemma ex_order: "visits_pods (podMap (cf_registry (ex_config scope))) [0]"
proof -
  have "pod_lookup fmempty key = None" for key by (simp add: pod_lookup_def split: prod.split)
  then show ?thesis
    by (auto simp: visits_pods_def ex_config_def ex_corefile_registry_def file_pod_def Let_def empty_registry_def
        split: if_splits)
qed

lemma ex_setup_plugin:
  "setup_plugin ex_lib ex_setup ex_client_lib (\<lambda>_. None) (Inr []) [] [] [0] [ex_stanza scope] =
     Ret (Inr (ex_started_k scope, ex_started_reg scope))"
proof -
  have "getClientConfig ex_client_lib (ex_config scope) = Inr ()" for scope
    by (simp add: getClientConfig_def ex_config_def New_def ex_client_lib_def)
  moreover have "make_selector ex_client_lib (cf_labelSelector (ex_config scope)) = Inr None"
      "make_selector ex_client_lib (cf_namespaceLabelSelector (ex_config scope)) = Inr None"
    by (simp_all add: make_selector_def ex_config_def New_def)
  moreover have "init_pods ex_env 0 [0] (cf_registry (ex_config scope)) = (ex_started_reg scope, Ret None)"
    by (simp add: ex_config_def ex_started_reg_def ex_started_pod_def ex_corefile_registry_def file_pod_def Let_def
        empty_registry_def getPodFromCluster_def ex_env_def ex_client_def ex_api_pod_def corefile_pod_def)
  moreover have "boundIPs (Inr []) [] = []" "k_localIPs (ex_started_k scope) = []"
    by (simp_all add: boundIPs_def ex_started_k_def kubernetes_of_def)
  ultimately show ?thesis
    by (simp add: setup_plugin_def ex_kubernetesParse InitKubeCache_def Let_def CreateGRPCServer_def
        ex_started_k_def running_opts_def ex_client_lib_def)
qed

theorem setup_establishes_witness:
  "(\<exists>infs. initialised infs (ex_started_k ScopeInner)) \<and> registry_synced (ex_started_reg ScopeInner)"
  using setup_establishes [OF ex_setup_plugin ex_kubernetesParse ex_order, of ScopeInner] by blast

lemma ex_started_registered: "registered (ex_started_reg scope) ''10.0.0.1'' = Some (ex_started_pod scope)"
  by (simp add: registered_def ex_started_reg_def)

lemma ex_started_init: "(\<exists>infs. initialised infs (ex_started_k scope)) \<and> opt_initEndpointsCache (k_opts (ex_started_k scope))"
  using setup_plugin_inv [OF ex_setup_plugin ex_kubernetesParse ex_order, of scope]
  by (simp add: ex_started_k_def kubernetes_of_def running_opts_def ex_config_def)

lemma ex_started_no_crash: "\<not> library_crash ex_lib ex_plugin (ex_started_k scope) (a_query ip)"
proof -
  obtain infs where "initialised infs (ex_started_k scope)" "opt_initEndpointsCache (k_opts (ex_started_k scope))"
    using ex_started_init by blast
  from initialised_backend_safe [OF ex_split_law ex_trim_cuts this]
  show ?thesis by (rule ex_library_returns) (simp_all add: a_query_valid)
qed

lemma ex_started_safe: "\<not> panics (getRecords ex_lib ex_plugin ex_xfr (ex_started_k scope) ((a_query ip)\<lparr>rq_Zone := z\<rparr>))"
proof -
  obtain infs where "initialised infs (ex_started_k scope)" "opt_initEndpointsCache (k_opts (ex_started_k scope))"
    using ex_started_init by blast
  from total_controller.getRecords_returns [OF initialised_total [OF this] ex_matches_law refl] ex_started_no_crash
  show ?thesis by (simp add: library_crash_def Let_def)
qed

theorem corefile_chaos_witness:
  "snd (ServeDNS ex_lib ex_plugin ex_xfr ex_trie ex_query_env (ex_started_k ScopeInner) (a_query ''10.0.0.1'')
          (ex_started_reg ScopeInner)) = Panic NilDereference"
proof -
  have "registered (ex_started_reg ScopeInner) (rq_IP (a_query ''10.0.0.1'')) = Some (ex_started_pod ScopeInner)"
    by (simp add: ex_started_registered a_query_def)
  moreover have "confirmed ex_query_env (ex_started_pod ScopeInner)" "pi_Scope (ex_started_pod ScopeInner) = ScopeInner"
    by (simp_all add: confirmed_def IsOverdue_def ex_query_env_def ex_started_pod_def corefile_pod_def)
  ultimately show ?thesis
    using corefile_chaos [OF ex_setup_plugin ex_kubernetesParse ex_order, where r = "a_query ''10.0.0.1''" and
        env = ex_query_env and pl = ex_plugin and l = ex_xfr and trie = ex_trie, of ScopeInner] ex_started_safe
    by (simp add: ex_query_env_def ex_pod_interface)
qed

theorem served_after_setup_witness:
  "\<exists>reply. snd (ServeDNS ex_lib ex_plugin ex_xfr ex_trie ex_query_env (ex_started_k ScopeAll) (a_query ''10.0.0.1'')
     (fold server_step [SvAdmin (AdSet ex_trie ex_env (ex_req [''a'', ''b'']))] (ex_started_reg ScopeAll))) = Ret reply"
proof -
  have "opt_initEndpointsCache (cf_opts (ex_config ScopeAll))" by (simp add: ex_config_def)
  moreover have "pi_Scope p = ScopeAll" if "fmlookup (pod_heap (cf_registry (ex_config ScopeAll))) a = Some p" for a p
    using that by (auto simp: ex_config_def ex_corefile_registry_def file_pod_def Let_def empty_registry_def
        corefile_pod_def split: if_splits)
  moreover have "pod_interface (qe_client ex_query_env)" by (simp add: ex_query_env_def ex_pod_interface)
  ultimately show ?thesis
    using served_after_setup [OF ex_setup_plugin ex_kubernetesParse ex_order _ _ ex_split_law ex_trim_cuts ex_matches_law,
        where env = ex_query_env and pl = ex_plugin and r = "a_query ''10.0.0.1''"] ex_started_no_crash
    by blast
qed

end
