(* ===== verification/Informer.thy ===== *)
theory Informer
  imports Controller
begin

text \<open>
  \<open>src/object/informer.go\<close> and \<open>src/metrics.go\<close>: how the changes that the API server reports reach
  the caches of the controller, and the latency metric.

  A batch of changes to one object is a list of deltas.  The store of client-go is a parameter; it
  is known by the objects it holds under their keys.  A conversion empties the API object it is
  given, and what is done with that object afterwards sees it empty.
\<close>

section \<open>Data\<close>

datatype DeltaType = Sync | Added | Updated | Deleted | OtherDelta

record Delta =
  d_Type :: DeltaType
  d_Object :: api_obj

text \<open>The methods of \<open>cache.Indexer\<close> that are used, and the stored objects by key.\<close>

record 'st store_lib =
  cs_Get :: "obj option \<Rightarrow> 'st \<Rightarrow> go_err + obj option"
  cs_Add :: "obj option \<Rightarrow> 'st \<Rightarrow> go_err + 'st"
  cs_Update :: "obj option \<Rightarrow> 'st \<Rightarrow> go_err + 'st"
  cs_Delete :: "obj option \<Rightarrow> 'st \<Rightarrow> go_err + 'st"
  cs_items :: "'st \<Rightarrow> (string, obj) fmap"

datatype process_err = ConvertErr convert_err | StoreErr go_err

text \<open>The store, the controller that is notified, and the latencies observed so far.\<close>

record 'st informer =
  in_store :: 'st
  in_dns :: dnsControl
  in_latencies :: "int list"

section \<open>The latency metric\<close>

abbreviation EndpointsLastChangeTriggerTime :: string where
  "EndpointsLastChangeTriggerTime \<equiv> ''endpoints.kubernetes.io/last-change-trigger-time''"

text \<open>
  \<open>parse\<close> is \<open>time.Parse\<close>; it returns the zero time with an error.  The result is the duration
  observed, if any.  The annotations are read before the pointer is compared with nil.
\<close>

definition recordDNSProgrammingLatency ::
  "(string \<Rightarrow> int option) \<Rightarrow> int \<Rightarrow> Service list \<Rightarrow> api_Endpoints option \<Rightarrow> int option go" where
  "recordDNSProgrammingLatency parse now svcs endpoints =
     (case endpoints of
        None \<Rightarrow> Panic NilDereference
      | Some endpoints \<Rightarrow>
          let lastChangeTriggerTime =
                (case map_of (ae_Annotations endpoints) EndpointsLastChangeTriggerTime of
                   None \<Rightarrow> zero_time
                 | Some stringVal \<Rightarrow> (case parse stringVal of None \<Rightarrow> zero_time | Some ts \<Rightarrow> ts));
              isHeadless = (case svcs of [svc] \<Rightarrow> svc_ClusterIP svc = ClusterIPNone | _ \<Rightarrow> False) in
          if \<not> isHeadless \<or> lastChangeTriggerTime = zero_time then Ret None
          else Ret (Some (now - lastChangeTriggerTime)))"

definition getServices :: "dnsControl \<Rightarrow> api_Endpoints \<Rightarrow> Service list go" where
  "getServices dns endpoints = SvcIndex dns (EndpointsKey (ae_Name endpoints) (ae_Namespace endpoints))"

definition dnsControl_recordLatency ::
  "(string \<Rightarrow> int option) \<Rightarrow> int \<Rightarrow> dnsControl \<Rightarrow> api_obj \<Rightarrow> int option go" where
  "dnsControl_recordLatency parse now dns ob =
     (case ob of
        ApiEndpoints endpoints \<Rightarrow>
          go_bind (getServices dns endpoints) (\<lambda>svcs. recordDNSProgrammingLatency parse now svcs (Some endpoints))
      | _ \<Rightarrow> Panic FailedTypeAssertion)"

section \<open>Processing deltas\<close>

type_synonym latency_func = "dnsControl \<Rightarrow> api_obj \<Rightarrow> int option go"

text \<open>\<open>if recordLatency != nil \{ recordLatency(...) \}\<close> at the end of a case.\<close>

definition with_latency ::
  "latency_func option \<Rightarrow> api_obj \<Rightarrow> 'st informer \<Rightarrow> 'st informer \<times> process_err option go" where
  "with_latency recordLatency ob s =
     (case recordLatency of
        None \<Rightarrow> (s, Ret None)
      | Some f \<Rightarrow>
          (case f (in_dns s) ob of
             Panic p \<Rightarrow> (s, Panic p)
           | Ret None \<Rightarrow> (s, Ret None)
           | Ret (Some d) \<Rightarrow> (s\<lparr>in_latencies := in_latencies s @ [d]\<rparr>, Ret None)))"

text \<open>The two cases of the loop body; the object comes with its API object after the conversion.\<close>

definition process_upsert ::
  "'st store_lib \<Rightarrow> ToFunc \<Rightarrow> latency_func option \<Rightarrow> int \<Rightarrow> api_obj \<Rightarrow> 'st informer \<Rightarrow>
   'st informer \<times> process_err option go" where
  "process_upsert cs convert recordLatency now dob s =
     (let ((ob, err), dob) = convert dob in
      case err of
        Some e \<Rightarrow> (s, Ret (Some (ConvertErr e)))
      | None \<Rightarrow>
          (case cs_Get cs ob (in_store s) of
             Inr (Some old) \<Rightarrow>
               (case cs_Update cs ob (in_store s) of
                  Inl e \<Rightarrow> (s, Ret (Some (StoreErr e)))
                | Inr st \<Rightarrow>
                    let s = s\<lparr>in_store := st\<rparr> in
                    (case detectChanges now (Some old) ob (in_dns s) of
                       Panic p \<Rightarrow> (s, Panic p)
                     | Ret dns \<Rightarrow> with_latency recordLatency dob (s\<lparr>in_dns := dns\<rparr>)))
           | _ \<Rightarrow>
               (case cs_Add cs ob (in_store s) of
                  Inl e \<Rightarrow> (s, Ret (Some (StoreErr e)))
                | Inr st \<Rightarrow>
                    with_latency recordLatency dob
                      (s\<lparr>in_store := st, in_dns := updateModifed now (in_dns s)\<rparr>))))"

definition process_delete ::
  "'st store_lib \<Rightarrow> ToFunc \<Rightarrow> latency_func option \<Rightarrow> int \<Rightarrow> api_obj \<Rightarrow> 'st informer \<Rightarrow>
   'st informer \<times> process_err option go" where
  "process_delete cs convert recordLatency now dob s =
     (let (ok, (ob, err), dob) =
            (case dob of
               ApiDeletedFinalStateUnknown key \<Rightarrow> (True, (Some (ObjDeletedFinalStateUnknown key), None), dob)
             | _ \<Rightarrow> (False, convert dob)) in
      if err \<noteq> None \<and> err \<noteq> Some errPodTerminating then (s, Ret (Some (ConvertErr (the err))))
      else
        (case cs_Delete cs ob (in_store s) of
           Inl e \<Rightarrow> (s, Ret (Some (StoreErr e)))
         | Inr st \<Rightarrow>
             let s = s\<lparr>in_store := st, in_dns := updateModifed now (in_dns s)\<rparr> in
             if \<not> ok then with_latency recordLatency dob s else (s, Ret None)))"

definition process_delta ::
  "'st store_lib \<Rightarrow> ToFunc \<Rightarrow> latency_func option \<Rightarrow> int \<Rightarrow> Delta \<Rightarrow> 'st informer \<Rightarrow>
   'st informer \<times> process_err option go" where
  "process_delta cs convert recordLatency now d s =
     (if d_Type d = Sync \<or> d_Type d = Added \<or> d_Type d = Updated
      then process_upsert cs convert recordLatency now (d_Object d) s
      else if d_Type d = Deleted then process_delete cs convert recordLatency now (d_Object d) s
      else (s, Ret None))"

text \<open>The loop, which an error or a panic ends; \<open>now i\<close> is the clock at the \<open>i\<close>-th delta.\<close>

fun DefaultProcessor ::
  "'st store_lib \<Rightarrow> ToFunc \<Rightarrow> latency_func option \<Rightarrow> (nat \<Rightarrow> int) \<Rightarrow> nat \<Rightarrow> Delta list \<Rightarrow> 'st informer \<Rightarrow>
   'st informer \<times> process_err option go" where
  "DefaultProcessor cs convert recordLatency now i [] s = (s, Ret None)"
| "DefaultProcessor cs convert recordLatency now i (d # ds) s =
     (case process_delta cs convert recordLatency (now i) d s of
        (s, Ret None) \<Rightarrow> DefaultProcessor cs convert recordLatency now (Suc i) ds s
      | (s, res) \<Rightarrow> (s, res))"

section \<open>The cache follows the API server\<close>

text \<open>
  Documented behaviour of \<open>cache.Indexer\<close>, for the objects of the one kind that its index functions
  accept: they are stored under their keys, one per key, and deleted by their key, also when only
  the tombstone that stands for the object is given.
\<close>

definition store_law :: "'st store_lib \<Rightarrow> (obj \<Rightarrow> string) \<Rightarrow> (obj \<Rightarrow> bool) \<Rightarrow> bool" where
  "store_law cs key kind \<longleftrightarrow>
     (\<forall>ob st. kind ob \<longrightarrow>
        cs_Get cs (Some ob) st = Inr (fmlookup (cs_items cs st) (key ob)) \<and>
        (\<exists>st'. cs_Add cs (Some ob) st = Inr st' \<and> cs_items cs st' = fmupd (key ob) ob (cs_items cs st)) \<and>
        (\<exists>st'. cs_Update cs (Some ob) st = Inr st' \<and> cs_items cs st' = fmupd (key ob) ob (cs_items cs st)) \<and>
        (\<exists>st'. cs_Delete cs (Some ob) st = Inr st' \<and> cs_items cs st' = fmdrop (key ob) (cs_items cs st))) \<and>
     (\<forall>s st. \<exists>st'. cs_Delete cs (Some (ObjDeletedFinalStateUnknown s)) st = Inr st' \<and>
        cs_items cs st' = fmdrop s (cs_items cs st))"

text \<open>What a batch of deltas means for the objects by key.\<close>

definition delta_effect :: "ToFunc \<Rightarrow> (obj \<Rightarrow> string) \<Rightarrow> Delta \<Rightarrow> (string, obj) fmap \<Rightarrow> (string, obj) fmap" where
  "delta_effect convert key d m =
     (case d_Object d of
        ApiDeletedFinalStateUnknown k \<Rightarrow> if d_Type d = Deleted then fmdrop k m else m
      | a \<Rightarrow> (case fst (fst (convert a)) of
                None \<Rightarrow> m
              | Some ob \<Rightarrow>
                  if d_Type d = Deleted then fmdrop (key ob) m
                  else if d_Type d = OtherDelta then m else fmupd (key ob) ob m))"

text \<open>
  Deltas that carry an object of the kind, or a tombstone for a deletion; and stores that hold only
  objects of the kind.
\<close>

definition legal :: "(api_obj \<Rightarrow> bool) \<Rightarrow> Delta \<Rightarrow> bool" where
  "legal accepts d \<longleftrightarrow>
     accepts (d_Object d) \<or> d_Type d = Deleted \<and> (\<exists>k. d_Object d = ApiDeletedFinalStateUnknown k)"

definition holds_only :: "(obj \<Rightarrow> bool) \<Rightarrow> (string, obj) fmap \<Rightarrow> bool" where
  "holds_only kind m \<longleftrightarrow> (\<forall>k ob. fmlookup m k = Some ob \<longrightarrow> kind ob)"

text \<open>
  The contract of a conversion: it accepts the API objects of one kind and returns objects of one
  kind, whose updates the controller can compare.
\<close>

locale converter =
  fixes convert :: ToFunc
    and accepts :: "api_obj \<Rightarrow> bool"
    and kind :: "obj \<Rightarrow> bool"
  assumes converts: "accepts a \<Longrightarrow> \<exists>ob a'. convert a = ((Some ob, None), a') \<and> kind ob"
    and tombstone: "\<not> accepts (ApiDeletedFinalStateUnknown k)"
    and comparable: "kind ob \<Longrightarrow> kind ob' \<Longrightarrow> \<exists>dns'. detectChanges now (Some ob) (Some ob') dns = Ret dns'"
begin

lemma delta_step:
  assumes law: "store_law cs key kind" and d: "legal accepts d" and s: "holds_only kind (cs_items cs (in_store s))"
  shows "\<exists>s'. process_delta cs convert None now d s = (s', Ret None) \<and> holds_only kind (cs_items cs (in_store s')) \<and>
           cs_items cs (in_store s') = delta_effect convert key d (cs_items cs (in_store s)) \<and>
           in_latencies s' = in_latencies s"
proof (cases "accepts (d_Object d)")
  case True
  then obtain ob a' where c: "convert (d_Object d) = ((Some ob, None), a')" "kind ob" using converts by blast
  have nt: "d_Object d \<noteq> ApiDeletedFinalStateUnknown k" for k using True tombstone by metis
  have eff: "delta_effect convert key d m =
      (if d_Type d = Deleted then fmdrop (key ob) m else if d_Type d = OtherDelta then m else fmupd (key ob) ob m)" for m
    using nt c(1) by (auto simp: delta_effect_def split: api_obj.split)
  note law' = law [unfolded store_law_def, THEN conjunct1, rule_format, OF c(2), of "in_store s"]
  obtain added updated dropped where st:
    "cs_Add cs (Some ob) (in_store s) = Inr added" "cs_items cs added = fmupd (key ob) ob (cs_items cs (in_store s))"
    "cs_Update cs (Some ob) (in_store s) = Inr updated" "cs_items cs updated = fmupd (key ob) ob (cs_items cs (in_store s))"
    "cs_Delete cs (Some ob) (in_store s) = Inr dropped" "cs_items cs dropped = fmdrop (key ob) (cs_items cs (in_store s))"
    using law' by blast
  have upsert: "\<exists>s'. process_upsert cs convert None now (d_Object d) s = (s', Ret None) \<and>
      cs_items cs (in_store s') = fmupd (key ob) ob (cs_items cs (in_store s)) \<and> in_latencies s' = in_latencies s"
  proof (cases "fmlookup (cs_items cs (in_store s)) (key ob)")
    case None
    then show ?thesis using law' c(1) st by (simp add: process_upsert_def with_latency_def)
  next
    case (Some old)
    then have "kind old" using s by (auto simp: holds_only_def)
    then obtain dns' where "detectChanges now (Some old) (Some ob) (in_dns s) = Ret dns'" using comparable c(2) by blast
    then show ?thesis using Some law' c(1) st by (simp add: process_upsert_def with_latency_def Let_def)
  qed
  have delete: "\<exists>s'. process_delete cs convert None now (d_Object d) s = (s', Ret None) \<and>
      cs_items cs (in_store s') = fmdrop (key ob) (cs_items cs (in_store s)) \<and> in_latencies s' = in_latencies s"
    using nt c(1) st by (auto simp: process_delete_def with_latency_def Let_def split: api_obj.split)
  show ?thesis
    using upsert delete s c(2) unfolding process_delta_def eff
    by (cases "d_Type d") (auto simp: holds_only_def split: if_splits)
next
  case False
  then obtain k where "d_Type d = Deleted" "d_Object d = ApiDeletedFinalStateUnknown k" using d by (auto simp: legal_def)
  moreover obtain st where "cs_Delete cs (Some (ObjDeletedFinalStateUnknown k)) (in_store s) = Inr st"
      "cs_items cs st = fmdrop k (cs_items cs (in_store s))"
    using law by (force simp: store_law_def)
  ultimately show ?thesis
    using s by (auto simp: process_delta_def process_delete_def delta_effect_def holds_only_def split: if_splits)
qed

lemma deltas_effect:
  assumes "store_law cs key kind" "list_all (legal accepts) ds" "holds_only kind (cs_items cs (in_store s))"
  shows "\<exists>s'. DefaultProcessor cs convert None now i ds s = (s', Ret None) \<and> holds_only kind (cs_items cs (in_store s')) \<and>
           cs_items cs (in_store s') = fold (delta_effect convert key) ds (cs_items cs (in_store s)) \<and>
           in_latencies s' = in_latencies s"
  using assms(2,3)
proof (induction ds arbitrary: i s)
  case (Cons d ds)
  obtain s1 where s1: "process_delta cs convert None (now i) d s = (s1, Ret None)" "holds_only kind (cs_items cs (in_store s1))"
      "cs_items cs (in_store s1) = delta_effect convert key d (cs_items cs (in_store s))" "in_latencies s1 = in_latencies s"
    using delta_step [OF assms(1) _ Cons.prems(2), of d "now i"] Cons.prems(1) by auto
  then show ?case using Cons.IH [OF _ s1(2), of "Suc i"] Cons.prems(1) by simp
qed simp

end

lemma detectChanges_same_kind:
  "\<exists>dns'. detectChanges now (Some (ObjService a)) (Some (ObjService b)) dns = Ret dns'"
  "\<exists>dns'. detectChanges now (Some (ObjPod p)) (Some (ObjPod q)) dns = Ret dns'"
  "\<exists>dns'. detectChanges now (Some (ObjEndpoints e)) (Some (ObjEndpoints f)) dns = Ret dns'"
  by (simp_all add: detectChanges_def resource_version_def)

section \<open>The metric that is never observed\<close>

lemma latency_of_emptied:
  "dnsControl_recordLatency parse now dns (ApiEndpoints zero_api_Endpoints) = Ret None"
  by (simp add: dnsControl_recordLatency_def getServices_def SvcIndex_def recordDNSProgrammingLatency_def
      zero_api_Endpoints_def Let_def split: sum.split)

lemma with_latency_emptied:
  "with_latency (Some (dnsControl_recordLatency parse t)) (ApiEndpoints zero_api_Endpoints) s =
   with_latency None (ApiEndpoints zero_api_Endpoints) s"
  by (simp add: with_latency_def latency_of_emptied)

lemma ToEndpoints_cases:
  "(\<exists>e. ToEndpoints False a = ((Some (ObjEndpoints e), None), ApiEndpoints zero_api_Endpoints)) \<or>
   ToEndpoints False a = ((None, Some UnexpectedObject), a)"
  by (cases a) (simp_all add: ToEndpoints_def toEndpoints_def)

text \<open>With cleanup, recording the latency has no effect at all.\<close>

lemma process_delta_no_latency:
  "process_delta cs (ToEndpoints False) (Some (dnsControl_recordLatency parse t)) now d s =
   process_delta cs (ToEndpoints False) None now d s"
proof -
  let ?f = "Some (dnsControl_recordLatency parse t)"
  have up: "process_upsert cs (ToEndpoints False) ?f now a s = process_upsert cs (ToEndpoints False) None now a s" for a
    using ToEndpoints_cases [of a]
    by (elim disjE exE) (simp_all add: process_upsert_def with_latency_emptied Let_def split: sum.split option.split go.split)
  have "process_delete cs (ToEndpoints False) ?f now a s = process_delete cs (ToEndpoints False) None now a s" for a
  proof (cases "\<exists>k. a = ApiDeletedFinalStateUnknown k")
    case True
    then show ?thesis by (auto simp: process_delete_def Let_def split: sum.split)
  next
    case False
    then have eq: "(case a of ApiDeletedFinalStateUnknown k \<Rightarrow> f k | _ \<Rightarrow> v) = v" for f v by (cases a) auto
    from ToEndpoints_cases [of a] show ?thesis
      by (elim disjE exE) (simp_all add: process_delete_def eq with_latency_emptied Let_def split: sum.split)
  qed
  with up show ?thesis by (simp add: process_delta_def)
qed

lemma DefaultProcessor_no_latency:
  "DefaultProcessor cs (ToEndpoints False) (Some (dnsControl_recordLatency parse t)) now i ds s =
   DefaultProcessor cs (ToEndpoints False) None now i ds s"
  by (induction ds arbitrary: i s) (simp_all add: process_delta_no_latency split: prod.split go.split option.split)

lemma process_delta_keeps_latencies: "in_latencies (fst (process_delta cs convert None now d s)) = in_latencies s"
  by (auto simp: process_delta_def process_upsert_def process_delete_def with_latency_def Let_def
      split: prod.split sum.split option.split go.split)

text \<open>
  C38: the programming latency of endpoints is never observed.  The conversion has emptied the API
  object before the latency is computed from its annotation, so no batch of changes, whatever it
  holds and however it ends, adds an observation.
\<close>

theorem latency_never_observed:
  "in_latencies (fst (DefaultProcessor cs (ToEndpoints False) (Some (dnsControl_recordLatency parse t)) now i ds s)) =
     in_latencies s"
  unfolding DefaultProcessor_no_latency
proof (induction ds arbitrary: i s)
  case (Cons d ds)
  then show ?case
    using process_delta_keeps_latencies [of cs "ToEndpoints False" "now i" d s]
    by (auto split: prod.splits go.splits option.splits)
qed simp

section \<open>The three caches\<close>

text \<open>
  The informers that \<open>newdnsController\<close> makes: the conversion and the latency function of each.
\<close>

datatype resource = ResService | ResPod | ResEndpoints

primrec resource_convert :: "bool \<Rightarrow> resource \<Rightarrow> ToFunc" where
  "resource_convert skip ResService = ToService skip"
| "resource_convert skip ResPod = ToPod skip"
| "resource_convert skip ResEndpoints = ToEndpoints skip"

primrec resource_latency :: "(string \<Rightarrow> int option) \<Rightarrow> int \<Rightarrow> resource \<Rightarrow> latency_func option" where
  "resource_latency parse t ResService = None"
| "resource_latency parse t ResPod = None"
| "resource_latency parse t ResEndpoints = Some (dnsControl_recordLatency parse t)"

text \<open>The API objects that the watch of a resource delivers, and the objects its cache holds.\<close>

fun delivers :: "resource \<Rightarrow> api_obj \<Rightarrow> bool" where
  "delivers ResService (ApiService _) = True"
| "delivers ResPod (ApiPod _) = True"
| "delivers ResEndpoints (ApiEndpoints _) = True"
| "delivers _ _ = False"

fun caches :: "resource \<Rightarrow> obj \<Rightarrow> bool" where
  "caches ResService (ObjService _) = True"
| "caches ResPod (ObjPod _) = True"
| "caches ResEndpoints (ObjEndpoints _) = True"
| "caches _ _ = False"

fun_cases delivers_elims: "delivers ResService a" "delivers ResPod a" "delivers ResEndpoints a"

fun_cases caches_elims: "caches ResService ob" "caches ResPod ob" "caches ResEndpoints ob"

interpretation informer: converter "resource_convert False res" "delivers res" "caches res" for res
  by (unfold_locales; cases res)
    (auto elim!: delivers_elims caches_elims simp: ToService_def ToPod_def toPod_def ToEndpoints_def zero_api_Pod_def
      detectChanges_same_kind split: prod.split)

lemma informer_effect:
  assumes "store_law cs key (caches res)" "list_all (legal (delivers res)) ds" "holds_only (caches res) (cs_items cs (in_store s))"
  shows "\<exists>s'. DefaultProcessor cs (resource_convert False res) (resource_latency parse t res) now i ds s = (s', Ret None) \<and>
           cs_items cs (in_store s') = fold (delta_effect (resource_convert False res) key) ds (cs_items cs (in_store s)) \<and>
           holds_only (caches res) (cs_items cs (in_store s'))"
proof -
  have "DefaultProcessor cs (resource_convert False res) (resource_latency parse t res) now i ds s =
        DefaultProcessor cs (resource_convert False res) None now i ds s"
    by (cases res) (simp_all add: DefaultProcessor_no_latency)
  then show ?thesis using informer.deltas_effect [OF assms, of now i] by auto
qed

lemma upsert_stored:
  assumes "store_law cs key (caches res)" "holds_only (caches res) (cs_items cs (in_store s))"
    and "ty \<in> {Sync, Added, Updated}" "delivers res a" "fst (fst (resource_convert False res a)) = Some ob"
  shows "\<exists>s'. DefaultProcessor cs (resource_convert False res) (resource_latency parse t res) now i
             [\<lparr>d_Type = ty, d_Object = a\<rparr>] s = (s', Ret None) \<and>
           fmlookup (cs_items cs (in_store s')) (key ob) = Some ob"
proof -
  let ?d = "\<lparr>d_Type = ty, d_Object = a\<rparr>"
  have "list_all (legal (delivers res)) [?d]" using assms(4) by (simp add: legal_def)
  moreover have "delta_effect (resource_convert False res) key ?d m = fmupd (key ob) ob m" for m
    using assms(3-5) by (cases a) (auto simp: delta_effect_def)
  ultimately show ?thesis using informer_effect [OF assms(1) _ assms(2), of "[?d]"] by fastforce
qed

text \<open>
  C11: each cache follows the API server, with the cleanup of API objects on, which is how the
  plugin always runs (only tests switch it off).  Processing a batch of changes to services, pods or
  endpoints, with the conversion and the latency function of the informer, then never fails or
  crashes, and afterwards the store holds under each key exactly what the changes, applied in order,
  say: the converted object of the last addition or update, or nothing after a deletion, also when
  only a tombstone of the object is known.  This includes the updates of pods that are being
  terminated: they are stored like any other, although a comment in \<open>ToPod\<close> says that they are to be
  ignored.
\<close>

theorem cache_follows:
  assumes "store_law cs key (caches res)" "list_all (legal (delivers res)) ds"
    and "holds_only (caches res) (cs_items cs (in_store s))"
  shows "(\<exists>s'. DefaultProcessor cs (resource_convert False res) (resource_latency parse t res) now i ds s = (s', Ret None) \<and>
             cs_items cs (in_store s') = fold (delta_effect (resource_convert False res) key) ds (cs_items cs (in_store s)) \<and>
             holds_only (caches res) (cs_items cs (in_store s'))) \<and>
         delta_effect (resource_convert False ResPod) key \<lparr>d_Type = Updated, d_Object = ApiPod pod\<rparr> m =
           fmupd (key (ObjPod (fst (toPod False pod)))) (ObjPod (fst (toPod False pod))) m"
proof
  show "\<exists>s'. DefaultProcessor cs (resource_convert False res) (resource_latency parse t res) now i ds s = (s', Ret None) \<and>
      cs_items cs (in_store s') = fold (delta_effect (resource_convert False res) key) ds (cs_items cs (in_store s)) \<and>
      holds_only (caches res) (cs_items cs (in_store s'))"
    by (rule informer_effect [OF assms])
qed (simp add: delta_effect_def ToPod_def toPod_def zero_api_Pod_def)

text \<open>
  A pod that is being terminated is not ignored.  With cleanup of API objects, which is how the
  plugin runs, its update is stored like that of any other pod, since the deletion time is read
  from the object that was just emptied.  Without cleanup the update ends the processing of the
  batch, and the changes after it are lost.
\<close>

theorem terminating_pod_update:
  assumes "store_law cs key (caches ResPod)" "holds_only (caches ResPod) (cs_items cs (in_store s))"
    and "ap_DeletionTimestamp p = Some t" "t \<noteq> 0"
  shows "(\<exists>s'. DefaultProcessor cs (ToPod False) None now i [\<lparr>d_Type = Updated, d_Object = ApiPod p\<rparr>] s = (s', Ret None) \<and>
             fmlookup (cs_items cs (in_store s')) (key (ObjPod (fst (toPod False p)))) =
               Some (ObjPod (fst (toPod False p)))) \<and>
         DefaultProcessor cs (ToPod True) None now i (\<lparr>d_Type = Updated, d_Object = ApiPod p\<rparr> # ds) s =
           (s, Ret (Some (ConvertErr errPodTerminating)))"
proof -
  have "fst (fst (ToPod False (ApiPod p))) = Some (ObjPod (fst (toPod False p)))"
    by (simp add: ToPod_def toPod_def zero_api_Pod_def)
  moreover have "ToPod True (ApiPod p) = ((Some (ObjPod (fst (toPod True p))), Some errPodTerminating), ApiPod p)"
    using assms(3,4) by (simp add: ToPod_def toPod_def)
  ultimately show ?thesis
    using upsert_stored [OF assms(1,2), of Updated "ApiPod p" "ObjPod (fst (toPod False p))" undefined undefined now i]
    by (simp add: process_delta_def process_upsert_def)
qed

section \<open>From an event to the lookups\<close>

text \<open>
  The index view of a store with the index functions of one informer: it shows exactly the stored
  objects.
\<close>

definition view_law ::
  "(string \<times> (obj \<Rightarrow> go_err + string list)) list \<Rightarrow> 'st store_lib \<Rightarrow> ('st \<Rightarrow> indexer) \<Rightarrow> bool" where
  "view_law idx cs view \<longleftrightarrow>
     (\<forall>st. lawful_store idx (view st) \<and> set (ix_List (view st)) = fmran' (cs_items cs st))"

lemma indexed_object:
  assumes "view_law idx cs view" "fmlookup (cs_items cs st) key = Some ob" "(n, f) \<in> set idx"
    and "f ob = Inr vs" "v \<in> set vs"
  shows "\<exists>os. ix_ByIndex (view st) n v = Inr os \<and> ob \<in> set os"
proof -
  have "lawful_store idx (view st)" "ob \<in> set (ix_List (view st))"
    using assms(1,2) by (auto simp: view_law_def intro: fmran'I)
  then show ?thesis using lawful_storeD [of idx "view st" n f v] assms(3-5) by auto
qed

text \<open>
  C28: a service that the API server reports can be looked up as soon as the report is processed
  (with the cleanup of API objects on): under its name and namespace, and under its cluster address, each of its external addresses and
  each address of its load balancer.
\<close>

theorem service_change_visible:
  assumes "store_law cs key (caches ResService)" "view_law svc_indexers cs view"
    and "holds_only (caches ResService) (cs_items cs (in_store s))" "ty \<in> {Sync, Added, Updated}"
    and "ip = as_ClusterIP svc \<or> ip \<in> set (as_ExternalIPs svc) \<or> ip \<noteq> '''' \<and> ip \<in> ing_IP ` set (as_Ingress svc)"
  shows "\<exists>s' ss rs.
     DefaultProcessor cs (ToService False) None now i [\<lparr>d_Type = ty, d_Object = ApiService svc\<rparr>] s = (s', Ret None) \<and>
     SvcIndex ((in_dns s')\<lparr>dc_svcLister := view (in_store s')\<rparr>) (ServiceKey (as_Name svc) (as_Namespace svc)) = Ret ss \<and>
     fst (toService False svc) \<in> set ss \<and>
     SvcIndexReverse ((in_dns s')\<lparr>dc_svcLister := view (in_store s')\<rparr>) ip = Ret rs \<and>
     fst (toService False svc) \<in> set rs"
proof -
  let ?sv = "fst (toService False svc)"
  have conv: "fst (fst (ToService False (ApiService svc))) = Some (ObjService ?sv)"
    by (simp add: ToService_def split_beta)
  obtain s' where s': "DefaultProcessor cs (ToService False) None now i [\<lparr>d_Type = ty, d_Object = ApiService svc\<rparr>] s = (s', Ret None)"
      "fmlookup (cs_items cs (in_store s')) (key (ObjService ?sv)) = Some (ObjService ?sv)"
    using upsert_stored [OF assms(1,3,4), of "ApiService svc" "ObjService ?sv" undefined undefined now i] conv by auto
  note found = indexed_object [OF assms(2) s'(2)]
  have "\<exists>vs. svcIPIndexFunc (ObjService ?sv) = Inr vs \<and> ip \<in> set vs"
    using assms(5) by (auto simp: svcIPIndexFunc_def toService_def toService_ExternalIPs_eq image_iff)
  then have "\<exists>os. ix_ByIndex (view (in_store s')) svcIPIndex ip = Inr os \<and> ObjService ?sv \<in> set os"
    using found [of svcIPIndex svcIPIndexFunc _ ip] by (auto simp: svc_indexers_def)
  moreover have "\<exists>os. ix_ByIndex (view (in_store s')) svcNameNamespaceIndex (ServiceKey (as_Name svc) (as_Namespace svc)) =
      Inr os \<and> ObjService ?sv \<in> set os"
    by (rule found [where f = svcNameNamespaceIndexFunc]) (auto simp: svc_indexers_def svcNameNamespaceIndexFunc_def toService_def)
  ultimately show ?thesis
    using s'(1) by (auto simp: SvcIndex_def SvcIndexReverse_def typed_loop_eq cast_set)
qed

text \<open>
  C29: endpoints that the API server reports can be looked up as soon as the report is processed
  (with the cleanup of API objects on): under their name and namespace, and under each of their ready addresses.
\<close>

theorem endpoints_change_visible:
  assumes "store_law cs key (caches ResEndpoints)" "view_law ep_indexers cs view"
    and "holds_only (caches ResEndpoints) (cs_items cs (in_store s))" "ty \<in> {Sync, Added, Updated}"
    and "sub \<in> set (ae_Subsets ep)" "a \<in> set (asub_Addresses sub)"
  shows "\<exists>s' es rs.
     DefaultProcessor cs (ToEndpoints False) (Some (dnsControl_recordLatency parse t)) now i
       [\<lparr>d_Type = ty, d_Object = ApiEndpoints ep\<rparr>] s = (s', Ret None) \<and>
     EpIndex ((in_dns s')\<lparr>dc_epLister := Some (view (in_store s'))\<rparr>) (EndpointsKey (ae_Name ep) (ae_Namespace ep)) = Ret es \<and>
     fst (toEndpoints False ep) \<in> set es \<and>
     EpIndexReverse ((in_dns s')\<lparr>dc_epLister := Some (view (in_store s'))\<rparr>) (aa_IP a) = Ret rs \<and>
     fst (toEndpoints False ep) \<in> set rs"
proof -
  let ?ep = "fst (toEndpoints False ep)"
  have conv: "fst (fst (ToEndpoints False (ApiEndpoints ep))) = Some (ObjEndpoints ?ep)"
    by (simp add: ToEndpoints_def split_beta)
  obtain s' where s': "DefaultProcessor cs (ToEndpoints False) (Some (dnsControl_recordLatency parse t)) now i
        [\<lparr>d_Type = ty, d_Object = ApiEndpoints ep\<rparr>] s = (s', Ret None)"
      "fmlookup (cs_items cs (in_store s')) (key (ObjEndpoints ?ep)) = Some (ObjEndpoints ?ep)"
    using upsert_stored [OF assms(1,3,4), of "ApiEndpoints ep" "ObjEndpoints ?ep" parse t now i] conv by auto
  note found = indexed_object [OF assms(2) s'(2)]
  have "\<exists>os. ix_ByIndex (view (in_store s')) epIPIndex (aa_IP a) = Inr os \<and> ObjEndpoints ?ep \<in> set os"
    by (rule found [where f = epIPIndexFunc]) (use assms(5,6) in \<open>auto simp: ep_indexers_def epIPIndexFunc_def toEndpoints_def toEndpoints_IndexIP_eq intro!: bexI [of _ sub]\<close>)
  moreover have "\<exists>os. ix_ByIndex (view (in_store s')) epNameNamespaceIndex (EndpointsKey (ae_Name ep) (ae_Namespace ep)) =
      Inr os \<and> ObjEndpoints ?ep \<in> set os"
    by (rule found [where f = epNameNamespaceIndexFunc]) (auto simp: ep_indexers_def epNameNamespaceIndexFunc_def toEndpoints_def)
  ultimately show ?thesis
    using s'(1) by (auto simp: EpIndex_def EpIndexReverse_def typed_loop_eq cast_set)
qed

text \<open>What an event leaves of the controller: only the modification time changes.\<close>

lemma detectChanges_modified: "detectChanges now old new dns = Ret dns' \<Longrightarrow> \<exists>m. dns' = dns\<lparr>dc_modified := m\<rparr>"
  by (cases dns) (auto simp: detectChanges_def updateModifed_def go_bind_eq_Ret split: if_splits option.splits obj.splits)

lemma process_upsert_keeps:
  assumes "process_upsert cs convert None now a s = (s', r)"
  shows "\<exists>m. in_dns s' = (in_dns s)\<lparr>dc_modified := m\<rparr>"
proof -
  have same: "\<exists>m. d = d\<lparr>dc_modified := m\<rparr>" for d :: dnsControl by (rule exI [of _ "dc_modified d"]) simp
  show ?thesis
    using assms detectChanges_modified
    by (auto simp: process_upsert_def with_latency_def Let_def updateModifed_def same
        split: prod.splits option.splits sum.splits go.splits)
qed

lemma service_event_cached:
  assumes "store_law cs key (caches ResService)" "view_law svc_indexers cs view"
    and "holds_only (caches ResService) (cs_items cs (in_store s))" "ty \<in> {Sync, Added, Updated}"
  shows "\<exists>s' m. DefaultProcessor cs (ToService False) None now i [\<lparr>d_Type = ty, d_Object = ApiService svc\<rparr>] s = (s', Ret None) \<and>
           in_dns s' = (in_dns s)\<lparr>dc_modified := m\<rparr> \<and>
           ObjService (fst (toService False svc)) \<in> set (ix_List (view (in_store s')))"
proof -
  let ?sv = "fst (toService False svc)"
  have "fst (fst (ToService False (ApiService svc))) = Some (ObjService ?sv)" by (simp add: ToService_def split_beta)
  then obtain s' where s': "DefaultProcessor cs (ToService False) None now i [\<lparr>d_Type = ty, d_Object = ApiService svc\<rparr>] s = (s', Ret None)"
      "fmlookup (cs_items cs (in_store s')) (key (ObjService ?sv)) = Some (ObjService ?sv)"
    using upsert_stored [OF assms(1,3,4), of "ApiService svc" "ObjService ?sv" undefined undefined now i] by auto
  have "process_upsert cs (ToService False) None (now i) (ApiService svc) s = (s', Ret None)"
    using s'(1) assms(4) by (auto simp: process_delta_def split: prod.splits go.splits option.splits)
  moreover have "ObjService ?sv \<in> set (ix_List (view (in_store s')))"
    using s'(2) assms(2) by (auto simp: view_law_def intro: fmran'I)
  ultimately show ?thesis using s'(1) process_upsert_keeps by blast
qed

section \<open>Examples\<close>

definition ex_key :: "obj \<Rightarrow> string" where
  "ex_key ob =
     (case ob of
        ObjService s \<Rightarrow> svc_Namespace s @ ''/'' @ svc_Name s
      | ObjEndpoints e \<Rightarrow> ep_Namespace e @ ''/'' @ ep_Name e
      | ObjPod p \<Rightarrow> pod_Namespace p @ ''/'' @ pod_Name p
      | ObjDeletedFinalStateUnknown k \<Rightarrow> k
      | _ \<Rightarrow> '''')"

text \<open>A store that is the map of its items.\<close>

definition ex_store :: "(string, obj) fmap store_lib" where
  "ex_store =
     \<lparr>cs_Get = (\<lambda>ob m. case ob of None \<Rightarrow> Inl (OtherErr ''no key'') | Some ob \<Rightarrow> Inr (fmlookup m (ex_key ob))),
      cs_Add = (\<lambda>ob m. case ob of None \<Rightarrow> Inl (OtherErr ''no key'') | Some ob \<Rightarrow> Inr (fmupd (ex_key ob) ob m)),
      cs_Update = (\<lambda>ob m. case ob of None \<Rightarrow> Inl (OtherErr ''no key'') | Some ob \<Rightarrow> Inr (fmupd (ex_key ob) ob m)),
      cs_Delete = (\<lambda>ob m. case ob of None \<Rightarrow> Inl (OtherErr ''no key'') | Some ob \<Rightarrow> Inr (fmdrop (ex_key ob) m)),
      cs_items = id\<rparr>"

lemma ex_store_law: "store_law ex_store ex_key kind"
  by (simp add: store_law_def ex_store_def ex_key_def)

definition ex_informer :: "(string, obj) fmap informer" where
  "ex_informer = \<lparr>in_store = fmempty, in_dns = example_control, in_latencies = []\<rparr>"

lemma ex_informer_empty: "holds_only kind (cs_items ex_store (in_store ex_informer))"
  by (simp add: holds_only_def ex_store_def ex_informer_def)

text \<open>The objects of a finite map, in some order, behind index functions.\<close>

definition ex_view :: "(string \<times> (obj \<Rightarrow> go_err + string list)) list \<Rightarrow> (string, obj) fmap \<Rightarrow> indexer" where
  "ex_view idx m = store_of idx (SOME os. set os = fmran' m)"

lemma ex_view_law: "distinct (map fst idx) \<Longrightarrow> view_law idx ex_store (ex_view idx)"
proof -
  assume idx: "distinct (map fst idx)"
  have "\<exists>os. set os = fmran' m" for m :: "(string, obj) fmap" by (rule finite_list) (simp add: fmran'_alt_def)
  then have "set (SOME os. set os = fmran' m) = fmran' m" for m :: "(string, obj) fmap" by (rule someI_ex)
  moreover have "ix_List (store_of idx os) = os" for os by (simp add: store_of_def)
  ultimately show ?thesis by (simp add: view_law_def ex_view_def ex_store_def store_of_lawful [OF idx])
qed

lemma ex_views: "view_law svc_indexers ex_store (ex_view svc_indexers)" "view_law ep_indexers ex_store (ex_view ep_indexers)"
  by (rule ex_view_law, simp add: svc_indexers_def, rule ex_view_law, simp add: ep_indexers_def)

definition ex_api_service :: api_Service where
  "ex_api_service =
     zero_api_Service\<lparr>as_Name := ''svc1'', as_Namespace := ''testns'', as_ClusterIP := ''10.0.0.1''\<rparr>"

theorem cache_follows_witness:
  "\<exists>s'. DefaultProcessor ex_store (ToService False) None (\<lambda>_. 7) 0
          [\<lparr>d_Type = Added, d_Object = ApiService ex_api_service\<rparr>,
           \<lparr>d_Type = Deleted, d_Object = ApiDeletedFinalStateUnknown ''testns/svc1''\<rparr>] ex_informer = (s', Ret None) \<and>
        in_store s' = fmempty"
proof -
  let ?ds = "[\<lparr>d_Type = Added, d_Object = ApiService ex_api_service\<rparr>,
              \<lparr>d_Type = Deleted, d_Object = ApiDeletedFinalStateUnknown ''testns/svc1''\<rparr>]"
  have "list_all (legal (delivers ResService)) ?ds" by (simp add: legal_def)
  from cache_follows [OF ex_store_law this ex_informer_empty, of "\<lambda>_. None" 0 "\<lambda>_. 7" 0] obtain s' where
    "DefaultProcessor ex_store (ToService False) None (\<lambda>_. 7) 0 ?ds ex_informer = (s', Ret None)"
    "cs_items ex_store (in_store s') =
       fold (delta_effect (ToService False) ex_key) ?ds (cs_items ex_store (in_store ex_informer))"
    by auto
  moreover have "fold (delta_effect (ToService False) ex_key) ?ds fmempty = fmempty"
    by (simp add: delta_effect_def ToService_def toService_def ex_key_def ex_api_service_def fmdrop_fmupd_same)
  ultimately show ?thesis by (simp add: ex_store_def ex_informer_def)
qed

theorem service_change_visible_witness:
  "\<exists>s' ss. DefaultProcessor ex_store (ToService False) None (\<lambda>_. 7) 0
             [\<lparr>d_Type = Added, d_Object = ApiService ex_api_service\<rparr>] ex_informer = (s', Ret None) \<and>
           SvcIndex ((in_dns s')\<lparr>dc_svcLister := ex_view svc_indexers (in_store s')\<rparr>) ''svc1.testns'' = Ret ss \<and>
           fst (toService False ex_api_service) \<in> set ss"
proof -
  have "''10.0.0.1'' = as_ClusterIP ex_api_service" "ServiceKey (as_Name ex_api_service) (as_Namespace ex_api_service) = ''svc1.testns''"
    by (simp_all add: ex_api_service_def ServiceKey_def)
  then show ?thesis
    using service_change_visible [OF ex_store_law ex_views(1) ex_informer_empty, of Added "''10.0.0.1''" ex_api_service
        "\<lambda>_. 7" 0] by auto
qed

definition ex_api_endpoints :: api_Endpoints where
  "ex_api_endpoints =
     zero_api_Endpoints\<lparr>ae_Name := ''svc1'', ae_Namespace := ''testns'', ae_Subsets :=
       [\<lparr>asub_Addresses = [\<lparr>aa_IP = ''172.0.0.1'', aa_Hostname = '''', aa_NodeName = None, aa_TargetRef = None\<rparr>],
         asub_Ports = []\<rparr>]\<rparr>"

theorem endpoints_change_visible_witness:
  "\<exists>s' es. DefaultProcessor ex_store (ToEndpoints False) (Some (dnsControl_recordLatency (\<lambda>_. None) 0)) (\<lambda>_. 7) 0
             [\<lparr>d_Type = Added, d_Object = ApiEndpoints ex_api_endpoints\<rparr>] ex_informer = (s', Ret None) \<and>
           EpIndexReverse ((in_dns s')\<lparr>dc_epLister := Some (ex_view ep_indexers (in_store s'))\<rparr>) ''172.0.0.1'' = Ret es \<and>
           fst (toEndpoints False ex_api_endpoints) \<in> set es"
proof -
  let ?a = "\<lparr>aa_IP = ''172.0.0.1'', aa_Hostname = '''', aa_NodeName = None, aa_TargetRef = None\<rparr>"
  let ?sub = "\<lparr>asub_Addresses = [?a], asub_Ports = []\<rparr>"
  have "?sub \<in> set (ae_Subsets ex_api_endpoints)" "?a \<in> set (asub_Addresses ?sub)" by (simp_all add: ex_api_endpoints_def)
  from endpoints_change_visible [OF ex_store_law ex_views(2) ex_informer_empty _ this, of Added "\<lambda>_. None" 0 "\<lambda>_. 7" 0]
  show ?thesis by auto
qed

theorem terminating_pod_update_witness:
  "DefaultProcessor ex_store (ToPod True) None (\<lambda>_. 7) 0
     [\<lparr>d_Type = Updated, d_Object = ApiPod (zero_api_Pod\<lparr>ap_DeletionTimestamp := Some 3\<rparr>)\<rparr>] ex_informer =
       (ex_informer, Ret (Some (ConvertErr errPodTerminating)))"
  using terminating_pod_update [OF ex_store_law ex_informer_empty, of "zero_api_Pod\<lparr>ap_DeletionTimestamp := Some 3\<rparr>" 3
      "\<lambda>_. 7" 0 "[]"] by simp

end
