(* ===== verification/Watch.thy ===== *)
theory Watch
  imports GoLib
begin

text \<open>
  The functions of \<open>src/controller.go\<close> and \<open>src/watch.go\<close> that list and watch the API server's
  objects.  The call to the API client is a parameter: it gets the namespace and the options, and
  the functions only prepare the options.
\<close>

record ListOptions =
  lo_LabelSelector :: string
  lo_FieldSelector :: string

text \<open>\<open>if s != nil \{ opts.LabelSelector = s.String() \}\<close>, and the restriction to pods that run.\<close>

definition select_labels :: "string option \<Rightarrow> ListOptions \<Rightarrow> ListOptions" where
  "select_labels s opts = (case s of None \<Rightarrow> opts | Some sel \<Rightarrow> opts\<lparr>lo_LabelSelector := sel\<rparr>)"

abbreviation finished_phases :: string where
  "finished_phases \<equiv> ''status.phase!=Succeeded,status.phase!=Failed,status.phase!=Unknown''"

definition select_running :: "ListOptions \<Rightarrow> ListOptions" where
  "select_running opts =
     (let opts = (if length (lo_FieldSelector opts) > 0
                  then opts\<lparr>lo_FieldSelector := lo_FieldSelector opts @ '',''\<rparr> else opts)
      in opts\<lparr>lo_FieldSelector := lo_FieldSelector opts @ finished_phases\<rparr>)"

definition serviceListFunc ::
  "(string \<Rightarrow> ListOptions \<Rightarrow> 'r) \<Rightarrow> string \<Rightarrow> string option \<Rightarrow> ListOptions \<Rightarrow> 'r" where
  "serviceListFunc Services_List ns s opts = Services_List ns (select_labels s opts)"

definition podListFunc ::
  "(string \<Rightarrow> ListOptions \<Rightarrow> 'r) \<Rightarrow> string \<Rightarrow> string option \<Rightarrow> ListOptions \<Rightarrow> 'r" where
  "podListFunc Pods_List ns s opts = Pods_List ns (select_running (select_labels s opts))"

definition endpointsListFunc ::
  "(string \<Rightarrow> ListOptions \<Rightarrow> 'r) \<Rightarrow> string \<Rightarrow> string option \<Rightarrow> ListOptions \<Rightarrow> 'r" where
  "endpointsListFunc Endpoints_List ns s opts = Endpoints_List ns (select_labels s opts)"

definition namespaceListFunc :: "(ListOptions \<Rightarrow> 'r) \<Rightarrow> string option \<Rightarrow> ListOptions \<Rightarrow> 'r" where
  "namespaceListFunc Namespaces_List s opts = Namespaces_List (select_labels s opts)"

definition serviceWatchFunc ::
  "(string \<Rightarrow> ListOptions \<Rightarrow> 'r) \<Rightarrow> string \<Rightarrow> string option \<Rightarrow> ListOptions \<Rightarrow> 'r" where
  "serviceWatchFunc Services_Watch ns s options = Services_Watch ns (select_labels s options)"

definition podWatchFunc ::
  "(string \<Rightarrow> ListOptions \<Rightarrow> 'r) \<Rightarrow> string \<Rightarrow> string option \<Rightarrow> ListOptions \<Rightarrow> 'r" where
  "podWatchFunc Pods_Watch ns s options = Pods_Watch ns (select_running (select_labels s options))"

definition endpointsWatchFunc ::
  "(string \<Rightarrow> ListOptions \<Rightarrow> 'r) \<Rightarrow> string \<Rightarrow> string option \<Rightarrow> ListOptions \<Rightarrow> 'r" where
  "endpointsWatchFunc Endpoints_Watch ns s options = Endpoints_Watch ns (select_labels s options)"

definition namespaceWatchFunc :: "(ListOptions \<Rightarrow> 'r) \<Rightarrow> string option \<Rightarrow> ListOptions \<Rightarrow> 'r" where
  "namespaceWatchFunc Namespaces_Watch s options = Namespaces_Watch (select_labels s options)"

text \<open>
  For every kind of object the watch is restricted exactly as the list before it, so that no
  change of a listed object is missed and no other object enters a cache; for pods a given field
  selector stays in force next to the exclusion of finished pods.
\<close>

theorem list_watch_agree:
  "serviceListFunc c ns s opts = serviceWatchFunc c ns s opts \<and>
   podListFunc c ns s opts = podWatchFunc c ns s opts \<and>
   endpointsListFunc c ns s opts = endpointsWatchFunc c ns s opts \<and>
   namespaceListFunc (c ns) s opts = namespaceWatchFunc (c ns) s opts \<and>
   podListFunc (\<lambda>_. lo_FieldSelector) ns s opts =
     Join (filter (\<lambda>f. f \<noteq> '''') [lo_FieldSelector opts, finished_phases]) '','' \<and>
   podListFunc (\<lambda>_. lo_LabelSelector) ns s opts = (case s of None \<Rightarrow> lo_LabelSelector opts | Some sel \<Rightarrow> sel)"
  by (simp add: serviceListFunc_def serviceWatchFunc_def podListFunc_def podWatchFunc_def endpointsListFunc_def
      endpointsWatchFunc_def namespaceListFunc_def namespaceWatchFunc_def select_running_def select_labels_def Let_def
      split: option.split)

end
