(* ===== verification/Spec2Isabelle.thy ===== *)
theory Spec2Isabelle
  imports Prelude GoLib Objects Extern Parse Controller Chaos Grpc Backend Float64 Ns Xfr Plugin Handler Setup
    Informer Watch
begin

text \<open>
  This development models \<open>k8s_dns_chaos\<close>, a CoreDNS plugin in Go.  It is a fork of CoreDNS's
  \<open>kubernetes\<close> plugin, which answers DNS queries from the objects of a Kubernetes cluster, with one
  addition: queries that come from chosen pods and ask for chosen names are answered with an error
  or a random address.

  \<^bold>\<open>The program and its parts.\<close>  At start-up \<open>setup.go\<close> reads the configuration, and \<open>kubernetes.go\<close>
  connects to the API server and makes the controller (\<open>controller.go\<close>), whose informers keep
  indexed caches of services, endpoints, pods and namespaces.  Objects enter the caches through the
  converters of package \<open>object\<close>, which keep only the fields the plugin uses.  A query enters at
  \<open>ServeDNS\<close> (\<open>handler.go\<close>).  The handler looks up the sender among the pods under chaos
  (\<open>chaos.go\<close>), finds the records (\<open>kubernetes.go\<close> with \<open>parse.go\<close>, \<open>namespace.go\<close>, \<open>ns.go\<close>,
  \<open>reverse.go\<close>, \<open>xfr.go\<close>), and replies with them or with a forged answer.  The pods under chaos are
  set by the configuration and by a gRPC service (\<open>grpc_server.go\<close>).  Other plugins call the hooks of
  \<open>external.go\<close>, \<open>autopath.go\<close>, \<open>metadata.go\<close> and \<open>ready.go\<close>.

  \<^bold>\<open>Modelling conventions.\<close>  A Go function that may panic returns \<open>'a go\<close> (theory \<open>Prelude\<close>): \<open>Ret\<close>
  of its results or \<open>Panic\<close>; its error result is the \<open>option\<close> beside the value, as in the code.  Nil
  interfaces and nil pointers are \<open>None\<close>, and calling through one panics.  Loops are recursive
  functions over the slice; results of several loop levels are appended as the code appends them.
  Slices and maps that are shared are state that is passed on; the \<open>PodInfo\<close> values, which two maps
  point to, live on an explicit heap.  Iteration over a Go map takes the order as an argument, and
  the theorems hold for every order.  Codes, TTLs, SRV weights and address bytes are words of
  their Go width; the port numbers that are only copied are \<open>int\<close>, lengths of slices are \<open>nat\<close>.

  \<^bold>\<open>What stands for other packages.\<close>  \<open>Extern\<close> has the functions of \<open>miekg/dns\<close> and CoreDNS as
  records of functions that every definition using them takes as an argument; the API client, the
  clock, random draws, the pattern trie, the client-go stores and the label selectors are arguments
  of the same kind.  What a theorem relies on is a named hypothesis: \<open>split_law\<close>, \<open>trim_cuts\<close> and
  \<open>trim_law\<close> (how syntactically valid names are split, and where they are cut off at a zone; nothing
  is assumed of other names), \<open>matches_law\<close> (the result of a zone match), \<open>txt_law\<close> (no services
  give no TXT records), \<open>pod_interface\<close> (a client call returns a pod or an error), \<open>lawful_store\<close> (an
  index lookup returns the stored objects with that key), \<open>store_law\<close> and \<open>view_law\<close> (what a store
  holds after a change).  That a query has a syntactically valid name (\<open>valid_name\<close>), which the
  unpacking of messages ensures, is a hypothesis of its own.  Nothing is assumed about crashes of
  package \<open>plugin\<close>: where the handler calls it, the theorem says so (\<open>library_crash\<close>).
  Each is satisfied by a concrete function in the section of examples of its theory, and the
  witnesses run the theorems on them.  The Go standard library is modelled in \<open>GoLib\<close> where the
  plugin uses it (\<open>strings\<close>, \<open>strconv\<close>, \<open>net\<close>), and \<open>float64\<close> in \<open>Float64\<close>.  The plugin's root package
  imports package \<open>object\<close> from CoreDNS; \<open>src/object\<close> is the repository's copy of it and is what
  \<open>Objects\<close> and \<open>Informer\<close> translate.

  \<^bold>\<open>Theories.\<close>
    \<^item> \<open>Prelude\<close>: outcomes, errors, DNS codes, and three contracts as locales: \<open>invariant_machine\<close>
      (an invariant kept by every step holds after every run), \<open>equivalence\<close>, and \<open>table\<close> (lookup
      after put and delete).
    \<^item> \<open>GoLib\<close>, \<open>Extern\<close>, \<open>Float64\<close>: the libraries.
    \<^item> \<open>Objects\<close>: \<open>object/service.go\<close>, \<open>endpoint.go\<close>, \<open>pod.go\<close>; what each conversion keeps.
    \<^item> \<open>Parse\<close>: \<open>parse.go\<close>; the index walk equals a reading by label patterns, and every valid
      request is parsed back from its name.
    \<^item> \<open>Controller\<close>: the caches, index functions, lookups, change detection and \<open>Stop\<close> of
      \<open>controller.go\<close>.  The locale \<open>controller_contract\<close> is the interface that the plugin programs
      against, with the laws of the lookups; \<open>total_controller\<close> only promises that they return.
      \<open>lawful_control\<close> derives the laws for the controller over lawful stores, and the
      interpretations are on \<open>dnsControl_api\<close>.
    \<^item> \<open>Chaos\<close>: \<open>chaos.go\<close>; the registry of pods on its heap, the lookup of a sender with its
      refresh, the decision, the forged answers and their ranges.
    \<^item> \<open>Grpc\<close>: \<open>grpc_server.go\<close>; set and cancel as transformers of the registry that also say what
      a failing call leaves behind.  The registry is an \<open>invariant_machine\<close> in two ways: both maps
      stay in step under set and cancel, and stay well formed when queries refresh entries too.
    \<^item> \<open>Backend\<close>: \<open>namespace.go\<close>, \<open>Records\<close>, \<open>findPods\<close>, \<open>findServices\<close>; the loops refine the inductive
      relation \<open>offers\<close>, which says what a cached service offers to a request.
    \<^item> \<open>Ns\<close>, \<open>Xfr\<close>, \<open>Plugin\<close>: \<open>ns.go\<close> and \<open>local.go\<close>; \<open>xfr.go\<close>; the remaining methods of the service
      backend, \<open>reverse.go\<close> and the hooks.
    \<^item> \<open>Handler\<close>: \<open>handler.go\<close>; how every query is answered, the life of a chaos from the control call
      to the client, and that in every reachable state of the server a query is answered unless a
      library function crashes.
    \<^item> \<open>Setup\<close>: \<open>setup.go\<close>, \<open>New\<close>, \<open>getClientConfig\<close>, \<open>InitKubeCache\<close>; what an accepted configuration
      satisfies, exactly which stanzas are accepted, and what start-up establishes.
    \<^item> \<open>Informer\<close>: \<open>object/informer.go\<close>, \<open>metrics.go\<close>; the cache follows the changes the API server
      reports.  The locale \<open>converter\<close> is interpreted on the three informers of the controller.
    \<^item> \<open>Watch\<close>: \<open>watch.go\<close> and the list functions of \<open>controller.go\<close>.
    \<^item> This theory: reverse and forward lookups agree, which spans \<open>Plugin\<close>, \<open>Parse\<close> and \<open>Backend\<close>, and
      a service that the API server reports is answered for, which spans \<open>Informer\<close>, \<open>Parse\<close> and \<open>Backend\<close>.

  \<^bold>\<open>Bounds.\<close>  The search for the exponent in \<open>float64_scale\<close> has 200 steps; the values that
  \<open>calcSRVWeight\<close> forms lie between \<open>1/2^60\<close> and \<open>2^53\<close>, which is fewer than 70 binary orders away
  from where it starts, and \<open>Float64\<close> proves the rounding error of a result on this range.  Weights
  are claimed for up to \<open>2^46\<close> addresses, so that their sum is exact.  The start-up wait
  \<open>wait_sync\<close> counts 50 ticks of 100 ms and terminates by that measure; the address parser of
  \<open>GoLib\<close> terminates because each round consumes characters.  No other definition has fuel.

  \<^bold>\<open>Where the code departs from its intent\<close> the theorems say so: a pod that changes its address stays
  reachable under the old one (\<open>Grpc\<close>), chaos of the scopes \<open>inner\<close> and \<open>outer\<close> in the configuration crashes queries
  (\<open>Setup\<close>), the code of a zone transfer is lost and foreign TXT queries are not passed on
  (\<open>Handler\<close>), a namespace named \<open>any\<close> answers for others and headless services crash without
  cached endpoints (\<open>Backend\<close>), and terminating pods and the latency metric are read from emptied
  objects (\<open>Informer\<close>).

  \<^bold>\<open>Not modelled.\<close>  The stubs generated by \<open>protoc\<close> (\<open>pb/dns.pb.go\<close>, of which the message fields are
  records); the end-to-end test helpers; the no-op accessors of \<open>object.Empty\<close>; \<open>NewIndexerInformer\<close>
  and \<open>Run\<close>, which only wire and start client-go goroutines; \<open>GetNodeByName\<close>, one API call that
  nothing uses; the lock of the chaos maps (each operation on them is one step; in the code the methods
  have value receivers and lock their own copies); serving the gRPC listener after its port is chosen; logging; plugin registration and
  shutdown hooks; taking over the connection for a zone transfer.
\<close>

section \<open>Reverse and forward lookups agree\<close>

definition service_request :: "Service \<Rightarrow> recordRequest" where
  "service_request s =
     star_request\<lparr>rr_service := svc_Name s, rr_namespace := svc_Namespace s, rr_podOrSvc := kindSvc\<rparr>"

text \<open>A cached service that answers for its cluster address: named by plain labels, not headless.\<close>

definition plain_service :: "Service \<Rightarrow> bool" where
  "plain_service s \<longleftrightarrow>
     plain_label (svc_Name s) \<and> plain_label (svc_Namespace s) \<and>
     \<not> wildcard (svc_Name s) \<and> \<not> wildcard (svc_Namespace s) \<and>
     svc_Index s = ServiceKey (svc_Name s) (svc_Namespace s) \<and>
     svc_ClusterIP s \<noteq> ClusterIPNone \<and> svc_Type s \<noteq> ServiceTypeExternalName \<and> svc_Ports s \<noteq> []"

lemma service_request_simps [simp]:
  "rr_service (service_request s) = svc_Name s" "rr_namespace (service_request s) = svc_Namespace s"
  "rr_podOrSvc (service_request s) = kindSvc" "rr_endpoint (service_request s) = ''''"
  "rr_port (service_request s) = ''*''" "rr_protocol (service_request s) = ''*''"
  by (simp_all add: service_request_def star_request_def zero_recordRequest_def)

lemma service_request_name:
  assumes "plain_service s"
  shows "valid_request (service_request s)"
    and "ms_Host (ptr_to_service k zone s) = Join (request_labels (service_request s)) ''.'' @ ''.'' @ zone"
  using assms by (simp_all add: plain_service_def valid_request_def request_labels_def ptr_to_service_def)

lemma service_request_answers:
  assumes "lawful_control c" "k_APIConn k = dnsControl_api c" "s \<in> cached_services c" "plain_service s"
    and "namespaceExposed k (svc_Namespace s)" "\<not> opt_ignoreEmptyService (k_opts k)"
  shows "\<exists>ans. findServices x k (service_request s) zone = Ret (ans, None) \<and> svc_ClusterIP s \<in> ms_Host ` set ans"
proof -
  let ?r = "service_request s" and ?zp = "msg_Path x zone coredns"
  have named: "rr_service ?r \<noteq> ''''" using assms(4) by (simp add: plain_service_def plain_label_def)
  obtain ans err where ans: "findServices x k ?r zone = Ret (ans, err)"
    "set ans = {m. \<exists>svc \<in> in_scope ?r svc_Index (cached_services c).
        service_selected k ?r (in_scope ?r ep_Index (cached_endpoints c)) svc \<and>
        offers x k ?r ?zp (in_scope ?r ep_Index (cached_endpoints c)) svc m}"
    "err = (if ans = [] \<and> \<not> (wildcard (rr_service ?r) \<and> \<not> wildcard (rr_namespace ?r)) then Some errNoItems else None)"
    using lawful_control.findServices_cached [OF assms(1,2) named, of x zone] assms(5) by auto
  have scope: "s \<in> in_scope ?r svc_Index (cached_services c)"
    using assms(3,4) by (auto simp: in_scope_def wild_request_def plain_service_def)
  have selected: "service_selected k ?r E s" for E
    using assms(4-6) by (auto simp: service_selected_def match_def plain_service_def)
  obtain p where p: "p \<in> set (svc_Ports s)" using assms(4) by (cases "svc_Ports s") (auto simp: plain_service_def)
  have "offers x k ?r ?zp E s (cluster_answer k ?zp s p)" for E
    using assms(4) p by (intro offers.cluster) (auto simp: plain_service_def port_wanted_def match_def wildcard_def)
  then have "cluster_answer k ?zp s p \<in> set ans" unfolding ans(2) using scope selected by blast
  moreover have "ms_Host (cluster_answer k ?zp s p) = svc_ClusterIP s" by (simp add: cluster_answer_def)
  ultimately show ?thesis using ans(1,3) by (metis empty_iff image_eqI list.set(1))
qed

text \<open>
  C8: reverse and forward lookups agree.  The name that a reverse lookup gives for the cluster
  address of a service resolves, when it is looked up in turn, to that address; this for a service
  in an exposed namespace, with plain names, a port and a cluster address that no other service has,
  when services without endpoints are not ignored.
\<close>

theorem reverse_forward:
  assumes "split_law x" "trim_law x zone" "primaryZone k = Ret zone"
    and "lawful_store svc_indexers (dc_svcLister c)"
    and "dc_epLister c = Some ix" and "lawful_store ep_indexers ix" and "k_APIConn k = dnsControl_api c"
    and "{t \<in> cached_services c. svc_ClusterIP s \<in> insert (svc_ClusterIP t) (set (svc_ExternalIPs t))} = {s}"
    and "plain_service s" "namespaceExposed k (svc_Namespace s)" "\<not> opt_ignoreEmptyService (k_opts k)"
    and "IsReverse x (Join [svc_Name s, svc_Namespace s, kindSvc, zone] ''.'') \<le> 0"
  shows "\<exists>m ans. serviceRecordForIP k (svc_ClusterIP s) name = Ret [m] \<and>
           Records x k \<lparr>rq_Name = ms_Host m, rq_QName = ms_Host m, rq_QType = TypeA, rq_IP = ip, rq_Zone = zone\<rparr> exact =
             Ret (ans, None) \<and>
           svc_ClusterIP s \<in> ms_Host ` set ans"
proof -
  have lawful: "lawful_control c" using assms(4-6) by unfold_locales auto
  let ?m = "ptr_to_service k zone s"
  have "{t \<in> cached_services c. svc_ClusterIP s \<in> insert (svc_ClusterIP t) (set (svc_ExternalIPs t)) \<and>
          reverse_visible k (svc_Namespace t)} = {s}"
    using assms(8,10) by (auto simp: reverse_visible_def)
  then have ptr: "serviceRecordForIP k (svc_ClusterIP s) name = Ret [?m]"
    using lawful_control.serviceRecordForIP_cached [OF lawful assms(7,3), of "svc_ClusterIP s" name]
    by (auto simp: Let_def)
  have "s \<in> cached_services c" using assms(8) by blast
  then obtain ans where ans: "findServices x k (service_request s) zone = Ret (ans, None)"
      "svc_ClusterIP s \<in> ms_Host ` set ans"
    using service_request_answers [OF lawful assms(7) _ assms(9-11)] by blast
  have "parseRequest x (ms_Host ?m) zone = Ret (service_request s, None)"
    unfolding service_request_name(2) [OF assms(9)]
    by (rule parseRequest_request [OF assms(1,2) service_request_name(1) [OF assms(9)]])
  moreover have "IsReverse x (ms_Host ?m) \<le> 0" using assms(12) by (simp add: ptr_to_service_def)
  ultimately show ?thesis using ptr ans assms(10) by (auto simp: Records_def)
qed

theorem reverse_forward_witness:
  "\<exists>m ans. serviceRecordForIP example_k ''10.0.0.1'' '''' = Ret [m] \<and>
     Records ex_lib example_k \<lparr>rq_Name = ms_Host m, rq_QName = ms_Host m, rq_QType = TypeA, rq_IP = '''',
                               rq_Zone = ''cluster.local.''\<rparr> False = Ret (ans, None) \<and>
     ''10.0.0.1'' \<in> ms_Host ` set ans"
proof -
  have "k_APIConn example_k = dnsControl_api example_control" "\<not> opt_ignoreEmptyService (k_opts example_k)"
    by (simp_all add: example_k_def)
  moreover have "{t \<in> cached_services example_control.
      svc_ClusterIP example_service \<in> insert (svc_ClusterIP t) (set (svc_ExternalIPs t))} = {example_service}"
    by (auto simp: example_cached)
  moreover have "plain_service example_service"
    by (simp add: plain_service_def example_service_def plain_label_def wildcard_def ServiceKey_def)
  moreover have "namespaceExposed example_k (svc_Namespace example_service)"
    by (simp add: example_exposed example_service_def)
  moreover have "IsReverse ex_lib n \<le> 0" for n by (simp add: ex_lib_def)
  ultimately have "\<exists>m ans. serviceRecordForIP example_k (svc_ClusterIP example_service) '''' = Ret [m] \<and>
     Records ex_lib example_k \<lparr>rq_Name = ms_Host m, rq_QName = ms_Host m, rq_QType = TypeA, rq_IP = '''',
                               rq_Zone = ''cluster.local.''\<rparr> False = Ret (ans, None) \<and>
     svc_ClusterIP example_service \<in> ms_Host ` set ans"
    by (intro reverse_forward [OF ex_split_law ex_trim_cluster example_primaryZone example_lawful])
  moreover have "svc_ClusterIP example_service = ''10.0.0.1''" by (simp add: example_service_def)
  ultimately show ?thesis by simp
qed

section \<open>From the API server to the answer\<close>

text \<open>
  C9: from the API server to the answer.  When the server reports a service with plain names, a
  cluster address and a port, of a namespace that is known and exposed, then as soon as the report is
  processed a query for the service's name is answered with its cluster address, whatever services
  the cache held before, when services without endpoints are not ignored.
\<close>

theorem reported_service_answered:
  assumes "store_law cs key (caches ResService)" "view_law svc_indexers cs view"
    and "holds_only (caches ResService) (cs_items cs (in_store s))" "ty \<in> {Sync, Added, Updated}"
    and "dc_epLister (in_dns s) = Some ix" "lawful_store ep_indexers ix"
    and "ObjNamespace (as_Namespace svc) \<in> set (dc_nsLister (in_dns s))"
    and "fcard (k_Namespaces k) = 0 \<or> as_Namespace svc |\<in>| k_Namespaces k"
    and "split_law x" "trim_law x zone" "plain_service (fst (toService False svc))"
    and "\<not> opt_ignoreEmptyService (k_opts k)"
    and "qname = Join [as_Name svc, as_Namespace svc, kindSvc, zone] ''.''" "IsReverse x qname \<le> 0"
  shows "\<exists>s' ans.
     DefaultProcessor cs (ToService False) None now i [\<lparr>d_Type = ty, d_Object = ApiService svc\<rparr>] s = (s', Ret None) \<and>
     Records x (k\<lparr>k_APIConn := dnsControl_api ((in_dns s')\<lparr>dc_svcLister := view (in_store s')\<rparr>)\<rparr>)
       \<lparr>rq_Name = qname, rq_QName = qname, rq_QType = TypeA, rq_IP = ip, rq_Zone = zone\<rparr> exact = Ret (ans, None) \<and>
     as_ClusterIP svc \<in> ms_Host ` set ans"
proof -
  let ?sv = "fst (toService False svc)"
  obtain s' m where s': "DefaultProcessor cs (ToService False) None now i [\<lparr>d_Type = ty, d_Object = ApiService svc\<rparr>] s = (s', Ret None)"
      "in_dns s' = (in_dns s)\<lparr>dc_modified := m\<rparr>" "ObjService ?sv \<in> set (ix_List (view (in_store s')))"
    using service_event_cached [OF assms(1-4)] by blast
  let ?c = "(in_dns s')\<lparr>dc_svcLister := view (in_store s')\<rparr>"
  let ?k = "k\<lparr>k_APIConn := dnsControl_api ?c\<rparr>"
  have sv: "svc_Name ?sv = as_Name svc" "svc_Namespace ?sv = as_Namespace svc" "svc_ClusterIP ?sv = as_ClusterIP svc"
    by (simp_all add: toService_def)
  have lawful: "lawful_control ?c"
    using assms(2,5,6) s'(2) by unfold_locales (auto simp: view_law_def)
  have exposed: "namespaceExposed ?k (svc_Namespace ?sv)"
    using lawful_control.namespaceExposed_cached [OF lawful, of ?k] assms(7,8) s'(2)
    by (auto simp: sv cached_namespaces_def fcard_fempty)
  have "?sv \<in> cached_services ?c" using s'(3) by (simp add: cached_services_def)
  then obtain ans where ans: "findServices x ?k (service_request ?sv) zone = Ret (ans, None)" "as_ClusterIP svc \<in> ms_Host ` set ans"
    using service_request_answers [OF lawful _ _ assms(11) exposed, of x zone] assms(12) sv by auto
  have name: "qname = Join (request_labels (service_request ?sv)) ''.'' @ ''.'' @ zone"
    using service_request_name(2) [OF assms(11), of k zone] assms(13) by (simp add: ptr_to_service_def sv)
  have "parseRequest x qname zone = Ret (service_request ?sv, None)"
    unfolding name by (rule parseRequest_request [OF assms(9,10) service_request_name(1) [OF assms(11)]])
  then show ?thesis using s'(1) ans exposed assms(14) by (auto simp: Records_def)
qed

theorem reported_service_answered_witness:
  "\<exists>s' ans. DefaultProcessor ex_store (ToService False) None (\<lambda>_. 7) 0
       [\<lparr>d_Type = Added, d_Object = ApiService ex_api_service\<rparr>] ex_informer = (s', Ret None) \<and>
     Records ex_lib (example_k\<lparr>k_APIConn := dnsControl_api ((in_dns s')\<lparr>dc_svcLister := ex_view svc_indexers (in_store s')\<rparr>)\<rparr>)
       \<lparr>rq_Name = ''svc1.testns.svc.cluster.local.'', rq_QName = ''svc1.testns.svc.cluster.local.'', rq_QType = TypeA,
        rq_IP = '''', rq_Zone = ''cluster.local.''\<rparr> False = Ret (ans, None) \<and>
     ''10.0.0.1'' \<in> ms_Host ` set ans"
proof -
  have "plain_service (fst (toService False ex_api_service))"
    by (simp add: plain_service_def toService_def toService_Ports_eq ex_api_service_def zero_api_Service_def
        plain_label_def wildcard_def ServiceKey_def)
  moreover have "ObjNamespace (as_Namespace ex_api_service) \<in> set (dc_nsLister (in_dns ex_informer))"
    "dc_epLister (in_dns ex_informer) = Some (store_of ep_indexers [])"
    "as_ClusterIP ex_api_service = ''10.0.0.1''"
    "''svc1.testns.svc.cluster.local.'' =
       Join [as_Name ex_api_service, as_Namespace ex_api_service, kindSvc, ''cluster.local.''] ''.''"
    by (simp_all add: ex_informer_def example_control_def newdnsController_def stores_def ex_api_service_def)
  moreover have "fcard (k_Namespaces example_k) = 0" "\<not> opt_ignoreEmptyService (k_opts example_k)"
    by (simp_all add: example_k_def fcard_fempty)
  moreover have "IsReverse ex_lib n \<le> 0" for n by (simp add: ex_lib_def)
  ultimately have "\<exists>s' ans. DefaultProcessor ex_store (ToService False) None (\<lambda>_. 7) 0
       [\<lparr>d_Type = Added, d_Object = ApiService ex_api_service\<rparr>] ex_informer = (s', Ret None) \<and>
     Records ex_lib (example_k\<lparr>k_APIConn := dnsControl_api ((in_dns s')\<lparr>dc_svcLister := ex_view svc_indexers (in_store s')\<rparr>)\<rparr>)
       \<lparr>rq_Name = ''svc1.testns.svc.cluster.local.'', rq_QName = ''svc1.testns.svc.cluster.local.'', rq_QType = TypeA,
        rq_IP = '''', rq_Zone = ''cluster.local.''\<rparr> False = Ret (ans, None) \<and>
     as_ClusterIP ex_api_service \<in> ms_Host ` set ans"
    by (intro reported_service_answered [OF ex_store_law ex_views(1) ex_informer_empty _ _ example_lawful(3) _ _ ex_split_law
        ex_trim_cluster]) simp_all
  then show ?thesis by (simp only: \<open>as_ClusterIP ex_api_service = ''10.0.0.1''\<close>)
qed

end
